(* ===== verification/Prelude.thy ===== *)
theory Prelude
  imports Main "HOL-Library.AList"
begin

text \<open>
  What every component of the development shares: the exceptions of the program as values,
  Python dictionaries as insertion-ordered association lists, Python slices and reductions,
  and the lemmas on lists and maps that carry the proofs of the components.

  A Python \<^verbatim>\<open>dict\<close> that is only read by key is a HOL map; one whose iteration order is
  observable is a \<open>dict\<close> below, where assigning an existing key keeps its position and a
  new key goes to the end, as in the language.
\<close>

named_theorems dict_simps \<open>rewrite rules of insertion-ordered dictionaries\<close>
named_theorems inv_intros \<open>introduction rules of the component invariants\<close>

section \<open>Exceptions as values\<close>

text \<open>The exception classes the modelled code raises; messages are not modelled.\<close>

datatype py_exn = ValueError | KeyError | IndexError | RuntimeError | TypeError | ZeroDivisionError | AssertionError

primrec is_ok :: "'e + 'a \<Rightarrow> bool" where
  "is_ok (Inl e) = False"
| "is_ok (Inr x) = True"

primrec bind_res :: "'e + 'a \<Rightarrow> ('a \<Rightarrow> 'e + 'b) \<Rightarrow> 'e + 'b" where
  "bind_res (Inl e) f = Inl e"
| "bind_res (Inr x) f = f x"

lemma bind_res_Inr_iff:
  "bind_res m f = Inr y \<longleftrightarrow> (\<exists>x. m = Inr x \<and> f x = Inr y)"
  by (cases m) auto

lemma bind_res_Inl_iff:
  "bind_res m f = Inl e \<longleftrightarrow> m = Inl e \<or> (\<exists>x. m = Inr x \<and> f x = Inl e)"
  by (cases m) auto

lemma is_ok_iff: "is_ok m \<longleftrightarrow> (\<exists>x. m = Inr x)"
  by (cases m) auto

text \<open>A comprehension whose element may raise: the first exception ends it.\<close>

fun map_res :: "('a \<Rightarrow> 'e + 'b) \<Rightarrow> 'a list \<Rightarrow> 'e + 'b list" where
  "map_res f [] = Inr []"
| "map_res f (x # xs) = bind_res (f x) (\<lambda>y. bind_res (map_res f xs) (\<lambda>ys. Inr (y # ys)))"

lemma map_res_ok: "\<forall>x \<in> set xs. f x = Inr (g x) \<Longrightarrow> map_res f xs = Inr (map g xs)"
  by (induction xs) auto

lemma map_res_Inr_length: "map_res f xs = Inr ys \<Longrightarrow> length ys = length xs"
  by (induction xs arbitrary: ys) (auto simp: bind_res_Inr_iff)

lemma map_res_Inl: "map_res f xs = Inl e \<Longrightarrow> \<exists>x \<in> set xs. f x = Inl e"
  by (induction xs) (auto simp: bind_res_Inl_iff)

lemma map_res_nth: "map_res f xs = Inr ys \<Longrightarrow> i < length xs \<Longrightarrow> f (xs ! i) = Inr (ys ! i)"
proof (induction xs arbitrary: ys i)
  case (Cons x xs)
  then show ?case by (cases i) (auto simp: bind_res_Inr_iff)
qed simp

text \<open>Sequencing of calls that change a state and may raise: an exception keeps the state it left.\<close>

definition bind_st :: "('e + 'a) \<times> 's \<Rightarrow> ('a \<Rightarrow> 's \<Rightarrow> ('e + 'b) \<times> 's) \<Rightarrow> ('e + 'b) \<times> 's" where
  "bind_st m f = (case m of (Inl e, s) \<Rightarrow> (Inl e, s) | (Inr x, s) \<Rightarrow> f x s)"

lemma bind_st_simps [simp]:
  "bind_st (Inl e, s) f = (Inl e, s)" "bind_st (Inr x, s) f = f x s"
  by (simp_all add: bind_st_def)

lemma bind_st_Inr_iff:
  "bind_st m f = (Inr y, t) \<longleftrightarrow> (\<exists>x s. m = (Inr x, s) \<and> f x s = (Inr y, t))"
  by (cases m; cases "fst m") (auto simp: bind_st_def split: sum.splits)

text \<open>\<^verbatim>\<open>list(dict.fromkeys(xs))\<close>: the distinct elements in the order of their first occurrence.\<close>

definition dedupe :: "'a list \<Rightarrow> 'a list" where
  "dedupe xs = rev (remdups (rev xs))"

lemma set_dedupe [simp]: "set (dedupe xs) = set xs"
  by (simp add: dedupe_def)

lemma distinct_dedupe [simp]: "distinct (dedupe xs)"
  by (simp add: dedupe_def)

lemma dedupe_distinct: "distinct xs \<Longrightarrow> dedupe xs = xs"
  by (simp add: dedupe_def distinct_remdups_id)

section \<open>Insertion-ordered dictionaries\<close>

type_synonym ('k, 'v) dict = "('k \<times> 'v) list"

abbreviation dict_set :: "'k \<Rightarrow> 'v \<Rightarrow> ('k, 'v) dict \<Rightarrow> ('k, 'v) dict" where
  "dict_set k v d \<equiv> AList.update k v d"

abbreviation dict_pop :: "'k \<Rightarrow> ('k, 'v) dict \<Rightarrow> ('k, 'v) dict" where
  "dict_pop k d \<equiv> AList.delete k d"

abbreviation dict_keys :: "('k, 'v) dict \<Rightarrow> 'k list" where
  "dict_keys d \<equiv> map fst d"

abbreviation dict_vals :: "('k, 'v) dict \<Rightarrow> 'v list" where
  "dict_vals d \<equiv> map snd d"

definition dict_get :: "('k, 'v) dict \<Rightarrow> 'k \<Rightarrow> 'v \<Rightarrow> 'v" where
  "dict_get d k z = (case map_of d k of None \<Rightarrow> z | Some v \<Rightarrow> v)"

text \<open>\<^verbatim>\<open>d.update(other)\<close>: assign the pairs of \<open>other\<close> in order.\<close>

definition dict_update :: "('k, 'v) dict \<Rightarrow> ('k, 'v) dict \<Rightarrow> ('k, 'v) dict" where
  "dict_update d e = fold (\<lambda>(k, v). dict_set k v) e d"

text \<open>\<^verbatim>\<open>d.setdefault(k, v)\<close> as an update of the dictionary.\<close>

definition dict_setdefault :: "'k \<Rightarrow> 'v \<Rightarrow> ('k, 'v) dict \<Rightarrow> ('k, 'v) dict" where
  "dict_setdefault k v d = (if k \<in> set (dict_keys d) then d else d @ [(k, v)])"

lemma dict_keys_setdefault [dict_simps]:
  "set (dict_keys (dict_setdefault k v d)) = insert k (set (dict_keys d))"
  by (auto simp: dict_setdefault_def)

lemma dict_set_fresh [dict_simps]:
  "k \<notin> set (dict_keys d) \<Longrightarrow> dict_set k v d = d @ [(k, v)]"
  by (induction d) auto

lemma dict_keys_set [dict_simps]:
  "dict_keys (dict_set k v d) = (if k \<in> set (dict_keys d) then dict_keys d else dict_keys d @ [k])"
  by (induction d) auto

lemma map_of_dict_set [dict_simps]:
  "map_of (dict_set k v d) = (map_of d)(k \<mapsto> v)"
  by (rule update_conv')

lemma map_of_dict_pop [dict_simps]:
  "map_of (dict_pop k d) = (map_of d)(k := None)"
  by (rule delete_conv')

lemma dict_keys_pop [dict_simps]:
  "dict_keys (dict_pop k d) = filter (\<lambda>x. x \<noteq> k) (dict_keys d)"
  by (induction d) auto

lemma distinct_dict_pop [intro]:
  "distinct (dict_keys d) \<Longrightarrow> distinct (dict_keys (dict_pop k d))"
  by (simp add: dict_keys_pop)

lemma distinct_dict_set [intro]:
  "distinct (dict_keys d) \<Longrightarrow> distinct (dict_keys (dict_set k v d))"
  by (simp add: dict_keys_set)

lemma dict_get_set [dict_simps]:
  "dict_get (dict_set k v d) k' z = (if k' = k then v else dict_get d k' z)"
  by (simp add: dict_get_def map_of_dict_set)

section \<open>Python reductions and slices\<close>

text \<open>\<^verbatim>\<open>xs[:n]\<close>: a negative bound counts from the end.\<close>

definition py_take :: "int \<Rightarrow> 'a list \<Rightarrow> 'a list" where
  "py_take n xs = (if 0 \<le> n then take (nat n) xs else take (nat (int (length xs) + n)) xs)"

lemma py_take_nonneg [simp]: "0 \<le> n \<Longrightarrow> py_take n xs = take (nat n) xs"
  by (simp add: py_take_def)

lemma length_py_take_le: "length (py_take n xs) \<le> length xs"
  by (auto simp: py_take_def)

text \<open>\<^verbatim>\<open>len\<close> as the unbounded integer the code computes with.\<close>

abbreviation py_len :: "'a list \<Rightarrow> int" where
  "py_len xs \<equiv> int (length xs)"

text \<open>\<^verbatim>\<open>xs.remove(x)\<close> for a member and \<^verbatim>\<open>xs.index(x)\<close>, which raises for a non-member.\<close>

primrec py_index :: "'a list \<Rightarrow> 'a \<Rightarrow> nat option" where
  "py_index [] x = None"
| "py_index (y # ys) x = (if y = x then Some 0 else map_option Suc (py_index ys x))"

lemma py_index_Some_iff: "(\<exists>i. py_index xs x = Some i) \<longleftrightarrow> x \<in> set xs"
  by (induction xs) auto

lemma py_index_nth: "py_index xs x = Some i \<Longrightarrow> i < length xs \<and> xs ! i = x"
  by (induction xs arbitrary: i) (auto split: if_splits)

lemma sum_list_map_of_append [simp]:
  "sum_list (map f (xs @ ys)) = sum_list (map f xs) + (sum_list (map f ys) :: int)"
  by simp

end
