(* ===== verification/Lifecycle.thy ===== *)
theory Lifecycle
  imports Prelude
begin

text \<open>
  The worker's life cycle and its capacity signal (\<^verbatim>\<open>python/lake/runtime/lifecycle.py\<close>):
  the seven states with the order the code lists them in, the guarded transition \<open>advance\<close>
  and the operations built from it, and what the state machine guarantees to the front end
  that asks \<open>accepts_new_requests\<close>.
\<close>

datatype worker_state =
  WS_IDLE | WS_BOOT | WS_WARM | WS_READY | WS_SERVING | WS_DRAIN | WS_TERMINATE

definition state_order :: "worker_state list" where
  "state_order = [WS_IDLE, WS_BOOT, WS_WARM, WS_READY, WS_SERVING, WS_DRAIN, WS_TERMINATE]"

primrec state_index :: "worker_state \<Rightarrow> nat" where
  "state_index WS_IDLE = 0"
| "state_index WS_BOOT = 1"
| "state_index WS_WARM = 2"
| "state_index WS_READY = 3"
| "state_index WS_SERVING = 4"
| "state_index WS_DRAIN = 5"
| "state_index WS_TERMINATE = 6"

lemma py_index_state_order [simp]: "py_index state_order s = Some (state_index s)"
  by (cases s) (simp_all add: state_order_def)

lemma state_index_inj [simp]: "state_index s = state_index t \<longleftrightarrow> s = t"
  by (cases s; cases t) simp_all

instantiation worker_state :: linorder
begin
definition less_eq_worker_state :: "worker_state \<Rightarrow> worker_state \<Rightarrow> bool" where
  "less_eq_worker_state s t \<longleftrightarrow> state_index s \<le> state_index t"
definition less_worker_state :: "worker_state \<Rightarrow> worker_state \<Rightarrow> bool" where
  "less_worker_state s t \<longleftrightarrow> state_index s < state_index t"
instance
  by standard (auto simp: less_eq_worker_state_def less_worker_state_def)
end

record capacity_signal =
  cs_waiting :: int
  cs_running :: int
  cs_inflight_reqs :: int
  cs_max_running_reqs :: int
  cs_state :: worker_state
  cs_role :: string
  cs_model_backend :: string
  cs_served_model_name :: string
  cs_model_loaded :: bool
  cs_model_warmed :: bool

definition remaining_slots :: "capacity_signal \<Rightarrow> int" where
  "remaining_slots c = max 0 (cs_max_running_reqs c - cs_running c)"

text \<open>\<open>order.index(to) < order.index(self._state)\<close> is the comparison of list positions.\<close>

definition regresses :: "worker_state \<Rightarrow> worker_state \<Rightarrow> bool" where
  "regresses s t = (case (py_index state_order t, py_index state_order s) of
     (Some i, Some j) \<Rightarrow> i < j | _ \<Rightarrow> False)"

definition advance :: "worker_state \<Rightarrow> worker_state \<Rightarrow> py_exn + worker_state" where
  "advance s t =
    (if t \<notin> set state_order then Inl ValueError
     else if t = s then Inr s
     else if t \<in> {WS_DRAIN, WS_TERMINATE} then Inr t
     else if regresses s t then Inl ValueError
     else Inr t)"

definition warm :: "worker_state \<Rightarrow> py_exn + worker_state" where
  "warm s = bind_res (if s = WS_IDLE then advance s WS_BOOT else Inr s) (\<lambda>s'. advance s' WS_WARM)"

definition ready :: "worker_state \<Rightarrow> py_exn + worker_state" where
  "ready s = advance s WS_READY"

definition serve :: "worker_state \<Rightarrow> py_exn + worker_state" where
  "serve s = advance s WS_SERVING"

definition drain :: "worker_state \<Rightarrow> py_exn + worker_state" where
  "drain s = advance s WS_DRAIN"

definition accepts_new_requests :: "worker_state \<Rightarrow> bool" where
  "accepts_new_requests s \<longleftrightarrow> s \<in> {WS_READY, WS_SERVING}"

text \<open>A history of the state machine: every call a client can make, raising calls included
  (a raise leaves the state as it was).\<close>

inductive lc_step :: "worker_state \<Rightarrow> worker_state \<Rightarrow> bool" where
  lc_advance: "advance s t = Inr s' \<Longrightarrow> lc_step s s'"
| lc_warm: "warm s = Inr s' \<Longrightarrow> lc_step s s'"
| lc_raise: "advance s t = Inl e \<Longrightarrow> lc_step s s"

lemma set_state_order [simp]: "t \<in> set state_order"
  by (cases t) (simp_all add: state_order_def)

lemma regresses_iff [simp]: "regresses s t \<longleftrightarrow> t < s"
  by (simp add: regresses_def less_worker_state_def)

lemma advance_Inr_iff:
  "advance s t = Inr s' \<longleftrightarrow> s' = t \<and> (s \<le> t \<or> t \<in> {WS_DRAIN, WS_TERMINATE})"
  by (auto simp: advance_def split: if_splits)

lemma advance_Inl_iff:
  "advance s t = Inl e \<longleftrightarrow> e = ValueError \<and> t < s \<and> t \<notin> {WS_DRAIN, WS_TERMINATE}"
  by (auto simp: advance_def split: if_splits)

lemma warm_Inr_iff: "warm s = Inr s' \<longleftrightarrow> s' = WS_WARM \<and> s \<le> WS_WARM"
  by (cases s) (auto simp: warm_def advance_def less_eq_worker_state_def less_worker_state_def)

lemma lc_step_cases:
  "lc_step s s' \<Longrightarrow> s \<le> s' \<or> (s = WS_TERMINATE \<and> s' = WS_DRAIN)"
  by (cases s; cases s')
    (auto elim!: lc_step.cases
      simp: advance_Inr_iff warm_Inr_iff less_eq_worker_state_def)

lemma lc_step_drained:
  assumes "lc_step s s'" "WS_DRAIN \<le> s"
  shows "WS_DRAIN \<le> s'"
  using lc_step_cases [OF assms(1)] assms(2) by auto

lemma lc_steps_drained:
  "lc_step\<^sup>*\<^sup>* s s' \<Longrightarrow> WS_DRAIN \<le> s \<Longrightarrow> WS_DRAIN \<le> s'"
  by (induction rule: rtranclp_induct) (auto intro: lc_step_drained)

end
