(* ===== verification/Py_Text.thy ===== *)
theory Py_Text
  imports Prelude
begin

text \<open>
  The part of Python's string library the program uses, on ASCII text: \<^verbatim>\<open>str.strip\<close>,
  \<^verbatim>\<open>str.lower\<close>, \<^verbatim>\<open>str.split\<close> on a one-character separator, \<^verbatim>\<open>str(n)\<close> and \<^verbatim>\<open>int(s)\<close>, with the
  round trip between printing and reading an integer.
\<close>

section \<open>Whitespace, case, separators\<close>

definition is_space :: "char \<Rightarrow> bool" where
  "is_space c = (let k = (of_char c :: nat) in k = 32 \<or> (9 \<le> k \<and> k \<le> 13) \<or> (28 \<le> k \<and> k \<le> 31))"

definition py_strip :: "string \<Rightarrow> string" where
  "py_strip s = rev (dropWhile is_space (rev (dropWhile is_space s)))"

definition lower_char :: "char \<Rightarrow> char" where
  "lower_char c = (let k = (of_char c :: nat) in if 65 \<le> k \<and> k \<le> 90 then char_of (k + 32) else c)"

definition py_lower :: "string \<Rightarrow> string" where
  "py_lower s = map lower_char s"

text \<open>\<^verbatim>\<open>s.split(sep)\<close> always yields at least one field.\<close>

primrec py_split :: "char \<Rightarrow> string \<Rightarrow> string list" where
  "py_split sep [] = [[]]"
| "py_split sep (c # cs) =
    (if c = sep then [] # py_split sep cs
     else (case py_split sep cs of [] \<Rightarrow> [[c]] | f # fs \<Rightarrow> (c # f) # fs))"

text \<open>\<^verbatim>\<open>s.partition(sep)\<close>: the text before the first separator and, when there is one, after it.\<close>

primrec py_partition :: "char \<Rightarrow> string \<Rightarrow> string \<times> string option" where
  "py_partition sep [] = ([], None)"
| "py_partition sep (c # cs) =
    (if c = sep then ([], Some cs) else (let (a, b) = py_partition sep cs in (c # a, b)))"

lemma py_split_nonempty [simp]: "py_split sep s \<noteq> []"
  by (induction s) (auto split: list.splits)

lemma py_split_no_sep: "sep \<notin> set s \<Longrightarrow> py_split sep s = [s]"
  by (induction s) auto

lemma py_split_append:
  "sep \<notin> set a \<Longrightarrow> py_split sep (a @ sep # b) = a # py_split sep b"
  by (induction a) auto

lemma py_partition_append:
  "sep \<notin> set a \<Longrightarrow> py_partition sep (a @ sep # b) = (a, Some b)"
  by (induction a) auto

section \<open>Printing and reading integers\<close>

definition digit_char :: "nat \<Rightarrow> char" where
  "digit_char d = char_of (48 + d)"

definition digit_val :: "char \<Rightarrow> nat option" where
  "digit_val c = (let k = of_char c in if 48 \<le> k \<and> k \<le> 57 then Some (k - 48) else None)"

fun show_nat :: "nat \<Rightarrow> string" where
  "show_nat n = (if n < 10 then [digit_char n] else show_nat (n div 10) @ [digit_char (n mod 10)])"

declare show_nat.simps [simp del]

definition show_int :: "int \<Rightarrow> string" where
  "show_int i = (if i < 0 then CHR ''-'' # show_nat (nat (- i)) else show_nat (nat i))"

text \<open>The digits of an integer literal: single underscores may separate digits.\<close>

fun read_digits :: "nat \<Rightarrow> bool \<Rightarrow> string \<Rightarrow> nat option" where
  "read_digits acc seen [] = (if seen then Some acc else None)"
| "read_digits acc seen (c # cs) =
    (case digit_val c of
       Some d \<Rightarrow> read_digits (10 * acc + d) True cs
     | None \<Rightarrow> if c = CHR ''_'' \<and> seen then read_digits acc False cs else None)"

definition py_int :: "string \<Rightarrow> int option" where
  "py_int s = (case py_strip s of
     [] \<Rightarrow> None
   | c # cs \<Rightarrow>
       if c = CHR ''-'' then map_option (\<lambda>n. - int n) (read_digits 0 False cs)
       else if c = CHR ''+'' then map_option int (read_digits 0 False cs)
       else map_option int (read_digits 0 False (c # cs)))"

lemma of_char_digit_char: "d < 10 \<Longrightarrow> of_char (digit_char d) = (48 + d :: nat)"
  by (simp add: digit_char_def)

lemma digit_val_digit_char [simp]: "d < 10 \<Longrightarrow> digit_val (digit_char d) = Some d"
  by (simp add: digit_val_def of_char_digit_char)

lemma read_digits_append:
  "\<forall>c \<in> set s. digit_val c \<noteq> None \<Longrightarrow> s \<noteq> [] \<Longrightarrow>
   read_digits acc seen (s @ t) =
     read_digits (foldl (\<lambda>a c. 10 * a + the (digit_val c)) acc s) True t"
proof (induction s arbitrary: acc seen)
  case (Cons c s)
  then obtain d where d: "digit_val c = Some d" by auto
  show ?case
  proof (cases "s = []")
    case False
    then show ?thesis using Cons.IH [of "10 * acc + d" True] Cons.prems d by simp
  qed (simp add: d)
qed simp

lemma show_nat_digits: "c \<in> set (show_nat n) \<Longrightarrow> \<exists>d < 10. c = digit_char d"
proof (induction n rule: show_nat.induct)
  case (1 n)
  show ?case
  proof (cases "n < 10")
    case True
    then show ?thesis using 1(2) by (subst (asm) show_nat.simps) auto
  next
    case False
    then have "c \<in> set (show_nat (n div 10)) \<or> c = digit_char (n mod 10)"
      using 1(2) by (subst (asm) show_nat.simps) auto
    then show ?thesis using 1(1)[OF False] by (auto intro: exI [of _ "n mod 10"])
  qed
qed

lemma show_nat_nonempty [simp]: "show_nat n \<noteq> []"
  by (subst show_nat.simps) simp

lemma foldl_show_nat:
  "foldl (\<lambda>a c. 10 * a + the (digit_val c)) 0 (show_nat n) = n"
proof (induction n rule: show_nat.induct)
  case (1 n)
  then show ?case by (cases "n < 10"; subst show_nat.simps) auto
qed

lemma read_show_nat: "read_digits 0 False (show_nat n) = Some n"
proof -
  have "\<forall>c \<in> set (show_nat n). digit_val c \<noteq> None"
    using show_nat_digits by fastforce
  from read_digits_append [OF this show_nat_nonempty, of 0 False "[]"]
  show ?thesis by (simp add: foldl_show_nat)
qed

lemma digit_char_props:
  assumes "d < 10"
  shows "digit_char d \<noteq> CHR ''-''" "digit_char d \<noteq> CHR ''+''" "\<not> is_space (digit_char d)"
    "digit_char d \<noteq> CHR '':''" "digit_char d \<noteq> CHR '',''" "digit_char d \<noteq> CHR ''@''"
proof -
  have k: "of_char (digit_char d) = (48 + d :: nat)" by (rule of_char_digit_char [OF assms])
  have ne: "digit_char d \<noteq> c" if "of_char c < (48::nat) \<or> of_char c > (57::nat)" for c
    using that k assms by auto
  show "digit_char d \<noteq> CHR ''-''" "digit_char d \<noteq> CHR ''+''" "digit_char d \<noteq> CHR '':''"
    "digit_char d \<noteq> CHR '',''" "digit_char d \<noteq> CHR ''@''"
    by (rule ne; simp)+
  show "\<not> is_space (digit_char d)" using assms by (simp add: is_space_def k)
qed

lemma show_int_chars:
  "c \<in> set (show_int i) \<Longrightarrow> c = CHR ''-'' \<or> (\<exists>d < 10. c = digit_char d)"
  by (auto simp: show_int_def dest: show_nat_digits split: if_splits)

lemma show_int_nonempty [simp]: "show_int i \<noteq> []"
  by (simp add: show_int_def)

lemma py_strip_id: "\<forall>c \<in> set s. \<not> is_space c \<Longrightarrow> py_strip s = s"
proof -
  assume a: "\<forall>c \<in> set s. \<not> is_space c"
  have d: "dropWhile is_space t = t" if "\<forall>c \<in> set t. \<not> is_space c" for t
    using that by (cases t) auto
  show ?thesis using a by (simp add: py_strip_def d)
qed

lemma show_int_no_space: "\<forall>c \<in> set (show_int i). \<not> is_space c"
  using show_int_chars digit_char_props(3) by (fastforce simp: is_space_def)

lemma py_int_show_int [simp]: "py_int (show_int i) = Some i"
proof (cases "i < 0")
  case True
  then show ?thesis
    by (simp add: py_int_def py_strip_id [OF show_int_no_space])
      (simp add: show_int_def read_show_nat)
next
  case False
  then obtain c cs where s: "show_nat (nat i) = c # cs"
    using show_nat_nonempty by (cases "show_nat (nat i)") auto
  then obtain d where "d < 10" "c = digit_char d"
    using show_nat_digits [of c "nat i"] by auto
  then show ?thesis using False s read_show_nat [of "nat i"]
    by (simp add: py_int_def py_strip_id [OF show_int_no_space])
      (simp add: show_int_def digit_char_props)
qed

section \<open>Joining\<close>

text \<open>\<^verbatim>\<open>sep.join(fields)\<close>.\<close>

fun py_join :: "string \<Rightarrow> string list \<Rightarrow> string" where
  "py_join sep [] = []"
| "py_join sep [x] = x"
| "py_join sep (x # y # ys) = x @ sep @ py_join sep (y # ys)"

lemma py_split_join:
  assumes "xs \<noteq> []" and "\<forall>x \<in> set xs. c \<notin> set x"
  shows "py_split c (py_join [c] xs) = xs"
  using assms by (induction "[c]" xs rule: py_join.induct) (auto simp: py_split_no_sep py_split_append)

lemma py_join_pad:
  "py_join (c # pad) (x # xs) = py_join [c] (x # map ((@) pad) xs)"
proof (induction xs arbitrary: x)
  case (Cons y ys)
  have "py_join [c] ((pad @ y) # zs) = pad @ py_join [c] (y # zs)" for zs
    by (cases zs) simp_all
  then show ?case using Cons.IH [of y] by simp
qed simp

lemma show_int_eq_iff [simp]: "show_int i = show_int j \<longleftrightarrow> i = j"
  by (metis option.inject py_int_show_int)

text \<open>Whether a text occurs in another, and the text after a literal head.\<close>

fun py_contains :: "string \<Rightarrow> string \<Rightarrow> bool" where
  "py_contains pat [] = (pat = [])"
| "py_contains pat (c # cs) = (take (length pat) (c # cs) = pat \<or> py_contains pat cs)"

definition strip_head :: "string \<Rightarrow> string \<Rightarrow> string option" where
  "strip_head pat s = (if take (length pat) s = pat then Some (drop (length pat) s) else None)"

lemma strip_head_append [simp]: "strip_head pat (pat @ s) = Some s"
  by (simp add: strip_head_def)

lemma strip_head_SomeD: "strip_head pat s = Some t \<Longrightarrow> s = pat @ t"
  by (auto simp: strip_head_def split: if_splits) (metis append_take_drop_id)

section \<open>Words, lines and searches\<close>

text \<open>\<^verbatim>\<open>s.split()\<close>, \<^verbatim>\<open>s.splitlines()\<close> (on the line breaks of one byte), \<^verbatim>\<open>s.rsplit(c, 1)\<close> and the leading
  digits a \<^verbatim>\<open>(\d+)\<close> group matches.\<close>

primrec split_on :: "(char \<Rightarrow> bool) \<Rightarrow> string \<Rightarrow> string list" where
  "split_on P [] = [[]]"
| "split_on P (c # cs) =
    (if P c then [] # split_on P cs
     else (case split_on P cs of [] \<Rightarrow> [[c]] | w # ws \<Rightarrow> (c # w) # ws))"

definition py_words :: "string \<Rightarrow> string list" where
  "py_words s = filter (\<lambda>w. w \<noteq> []) (split_on is_space s)"

definition is_break :: "char \<Rightarrow> bool" where
  "is_break c = (let k = (of_char c :: nat) in (10 \<le> k \<and> k \<le> 13) \<or> (28 \<le> k \<and> k \<le> 30))"

fun lines_from :: "string \<Rightarrow> string \<Rightarrow> string list" where
  "lines_from acc [] = (if acc = [] then [] else [rev acc])"
| "lines_from acc [c] = (if is_break c then [rev acc] else [rev (c # acc)])"
| "lines_from acc (c # d # cs) =
    (if c = CHR 0x0D \<and> d = CHR 0x0A then rev acc # lines_from [] cs
     else if is_break c then rev acc # lines_from [] (d # cs)
     else lines_from (c # acc) (d # cs))"

definition py_splitlines :: "string \<Rightarrow> string list" where
  "py_splitlines s = lines_from [] s"

definition after_last :: "char \<Rightarrow> string \<Rightarrow> string option" where
  "after_last c s = (if c \<in> set s then Some (rev (takeWhile (\<lambda>x. x \<noteq> c) (rev s))) else None)"

definition leading_digits :: "string \<Rightarrow> string" where
  "leading_digits s = takeWhile (\<lambda>c. digit_val c \<noteq> None) s"

definition py_isdigit :: "string \<Rightarrow> bool" where
  "py_isdigit s = (s \<noteq> [] \<and> (\<forall>c \<in> set s. digit_val c \<noteq> None))"

text \<open>The number of the first match of \<^verbatim>\<open>head(\d+)\<close>.\<close>

fun search_number :: "string \<Rightarrow> string \<Rightarrow> int option" where
  "search_number head [] = None"
| "search_number head (c # cs) =
    (case strip_head head (c # cs) of
       Some t \<Rightarrow> if leading_digits t \<noteq> [] then py_int (leading_digits t) else search_number head cs
     | None \<Rightarrow> search_number head cs)"

lemma lines_from_text:
  assumes "\<forall>c \<in> set w. \<not> is_break c"
  shows "lines_from acc (w @ CHR 0x0A # t) = (rev acc @ w) # lines_from [] t"
  using assms
proof (induction w arbitrary: acc)
  case Nil
  then show ?case by (cases t) (simp_all add: is_break_def)
next
  case (Cons c w)
  have "c \<noteq> CHR 0x0D" using Cons.prems by (auto simp: is_break_def)
  then show ?case using Cons by (cases w) (simp_all add: is_break_def)
qed

lemma py_splitlines_unlines:
  "\<forall>w \<in> set ws. \<forall>c \<in> set w. \<not> is_break c \<Longrightarrow> py_splitlines (concat (map (\<lambda>w. w @ [CHR 0x0A]) ws)) = ws"
  by (induction ws) (simp_all add: py_splitlines_def lines_from_text)

end
