(* ===== verification/Role.thy ===== *)
theory Role
  imports Py_Text
begin

text \<open>
  The process-level role configuration (\<^verbatim>\<open>python/lake/runtime/role.py\<close>): the record with the
  code's defaults, the validation of \<^verbatim>\<open>__post_init__\<close>, and the construction from environment
  variables, with the environment as a map from names to texts.
\<close>

datatype worker_role = PREFILL | DECODE_ROLE | HYBRID

type_synonym env = "string \<rightharpoonup> string"

definition env_bool :: "env \<Rightarrow> string \<Rightarrow> bool \<Rightarrow> bool" where
  "env_bool e name dflt = (case e name of
     None \<Rightarrow> dflt
   | Some raw \<Rightarrow> py_lower (py_strip raw) \<in> {''1'', ''true'', ''yes'', ''on''})"

definition env_int :: "env \<Rightarrow> string \<Rightarrow> int \<Rightarrow> py_exn + int" where
  "env_int e name dflt = (case e name of
     None \<Rightarrow> Inr dflt
   | Some raw \<Rightarrow>
       if py_strip raw = [] then Inr dflt
       else (case py_int raw of None \<Rightarrow> Inl ValueError | Some i \<Rightarrow> Inr i))"

record role_config =
  rc_role :: worker_role
  enable_drafter :: bool
  num_draft_tokens :: int
  enable_overlap :: bool
  max_running_reqs :: int
  max_num_scheduled_tokens :: int
  long_prefill_token_threshold :: int
  max_model_length :: int
  pull_budget_ms :: int
  allow_partial_hit :: bool
  model_backend :: string
  model_path :: string
  rc_served_model_name :: string
  model_revision :: string
  warmup_num_reqs :: int
  warmup_tokens_per_req :: int

definition default_role_config :: role_config where
  "default_role_config = \<lparr>
     rc_role = HYBRID, enable_drafter = False, num_draft_tokens = 2, enable_overlap = True,
     max_running_reqs = 8, max_num_scheduled_tokens = 8192, long_prefill_token_threshold = 0,
     max_model_length = 0, pull_budget_ms = 0, allow_partial_hit = False,
     model_backend = ''qwen3'', model_path = [], rc_served_model_name = ''model'',
     model_revision = [], warmup_num_reqs = 1, warmup_tokens_per_req = 1\<rparr>"

definition valid_role_config :: "role_config \<Rightarrow> bool" where
  "valid_role_config c \<longleftrightarrow> 0 < max_num_scheduled_tokens c \<and> 0 < max_running_reqs c
     \<and> 0 < warmup_num_reqs c \<and> 0 < warmup_tokens_per_req c"

definition role_post_init :: "role_config \<Rightarrow> py_exn + role_config" where
  "role_post_init c =
    (if max_num_scheduled_tokens c \<le> 0 then Inl ValueError
     else if max_running_reqs c \<le> 0 then Inl ValueError
     else if warmup_num_reqs c \<le> 0 then Inl ValueError
     else if warmup_tokens_per_req c \<le> 0 then Inl ValueError
     else Inr c)"

text \<open>\<^verbatim>\<open>os.environ.get(name, default)\<close>, and \<^verbatim>\<open>s or default\<close> on text.\<close>

definition env_text :: "env \<Rightarrow> string \<Rightarrow> string \<Rightarrow> string" where
  "env_text e name dflt = (case e name of None \<Rightarrow> dflt | Some s \<Rightarrow> s)"

definition text_or :: "string \<Rightarrow> string \<Rightarrow> string" where
  "text_or s dflt = (if s = [] then dflt else s)"

definition role_of_text :: "string \<Rightarrow> worker_role" where
  "role_of_text s =
    (if s = ''prefill'' then PREFILL else if s = ''decode'' then DECODE_ROLE else HYBRID)"

definition role_from_env :: "env \<Rightarrow> py_exn + role_config" where
  "role_from_env e =
    bind_res (env_int e ''LAKE_NUM_DRAFT_TOKENS'' 2) (\<lambda>drafts.
    bind_res (env_int e ''LAKE_MAX_RUNNING_REQS'' 8) (\<lambda>reqs.
    bind_res (env_int e ''LAKE_MAX_NUM_SCHEDULED_TOKENS'' 8192) (\<lambda>toks.
    bind_res (env_int e ''LAKE_LONG_PREFILL_TOKEN_THRESHOLD'' 0) (\<lambda>chunk.
    bind_res (env_int e ''LAKE_MAX_MODEL_LENGTH'' 0) (\<lambda>mml.
    bind_res (env_int e ''LAKE_PULL_BUDGET_MS'' 0) (\<lambda>pull.
    bind_res (env_int e ''LAKE_WARMUP_NUM_REQS'' 1) (\<lambda>wreqs.
    bind_res (env_int e ''LAKE_WARMUP_TOKENS_PER_REQ'' 1) (\<lambda>wtoks.
      role_post_init \<lparr>
        rc_role = role_of_text (py_lower (py_strip (env_text e ''LAKE_WORKER_ROLE'' ''hybrid''))),
        enable_drafter = env_bool e ''LAKE_ENABLE_DRAFTER'' False,
        num_draft_tokens = drafts,
        enable_overlap = env_bool e ''LAKE_ENABLE_OVERLAP'' True,
        max_running_reqs = reqs,
        max_num_scheduled_tokens = toks,
        long_prefill_token_threshold = chunk,
        max_model_length = mml,
        pull_budget_ms = pull,
        allow_partial_hit = env_bool e ''LAKE_ALLOW_PARTIAL_HIT'' False,
        model_backend =
          text_or (py_lower (py_strip (env_text e ''LAKE_MODEL_BACKEND'' ''qwen3''))) ''qwen3'',
        model_path = py_strip (env_text e ''LAKE_MODEL_PATH'' []),
        rc_served_model_name =
          text_or (py_strip (env_text e ''LAKE_SERVED_MODEL_NAME'' ''model'')) ''model'',
        model_revision = py_strip (env_text e ''LAKE_MODEL_REVISION'' []),
        warmup_num_reqs = wreqs,
        warmup_tokens_per_req = wtoks\<rparr>))))))))"

lemma role_post_init_iff: "role_post_init c = Inr c' \<longleftrightarrow> c' = c \<and> valid_role_config c"
  by (auto simp: role_post_init_def valid_role_config_def)

lemma valid_default_role_config [simp]: "valid_role_config default_role_config"
  by (simp add: valid_role_config_def default_role_config_def)

lemma role_from_env_valid: "role_from_env e = Inr c \<Longrightarrow> valid_role_config c"
  by (auto simp: role_from_env_def bind_res_Inr_iff role_post_init_iff)

lemma py_strip_empty [simp]: "py_strip [] = []"
  by (simp add: py_strip_def)

lemma role_from_env_empty: "role_from_env Map.empty = Inr default_role_config"
  by code_simp

end
