(* ===== verification/Request.thy ===== *)
theory Request
  imports Role
begin

text \<open>
  The host request and the scheduler's envelope: \<^verbatim>\<open>req.py\<close>, \<^verbatim>\<open>prefix_hint.py\<close>,
  \<^verbatim>\<open>exec_mode.py\<close>, \<^verbatim>\<open>mode_select.py\<close>, \<^verbatim>\<open>scheduler_output.py\<close> and \<^verbatim>\<open>future_map.py\<close> of
  \<^verbatim>\<open>python/lake/runtime\<close>. Token counts are Python integers (\<open>int\<close>); fields shared by
  several classes of the source carry a prefix that names their class.
\<close>

section \<open>Prefix hints, execution modes, requests\<close>

datatype exec_mode = COLOCATED | PD_DISAGG | D_DIRECT

record prefix_hint =
  computed_tokens :: int
  hint_reused_blocks :: int
  local_hit :: bool
  prebuilt :: bool

definition default_prefix_hint :: prefix_hint where
  "default_prefix_hint =
    \<lparr>computed_tokens = 0, hint_reused_blocks = 0, local_hit = False, prebuilt = False\<rparr>"

text \<open>A finite Python float is the dyadic number \<open>m * 2 ^ e\<close>; the runtime only carries it.\<close>

type_synonym py_float = "int \<times> int"

record sampling_params =
  max_new_tokens :: int
  temperature :: py_float
  structured_output :: "string option"

record req =
  req_id :: string
  served_model_name :: string
  prompt_token_ids :: "int list"
  req_sampling :: sampling_params
  node_id :: string
  num_computed_tokens :: int
  output_token_ids :: "int list"
  reused_blocks :: int
  prefill_blocks :: int
  finished :: bool
  finish_reason :: "string option"
  req_exec_mode :: exec_mode

definition num_output_tokens :: "req \<Rightarrow> int" where
  "num_output_tokens r = py_len (output_token_ids r)"

definition all_token_ids :: "req \<Rightarrow> int list" where
  "all_token_ids r = prompt_token_ids r @ output_token_ids r"

definition apply_prefix_hint :: "prefix_hint \<Rightarrow> req \<Rightarrow> req" where
  "apply_prefix_hint h r = r\<lparr>
     num_computed_tokens := min (computed_tokens h) (py_len (prompt_token_ids r)),
     reused_blocks := hint_reused_blocks h\<rparr>"

definition select_exec_mode :: "prefix_hint \<Rightarrow> int \<Rightarrow> worker_role \<Rightarrow> exec_mode" where
  "select_exec_mode h prompt_len role =
    (if 0 < prompt_len \<and> local_hit h \<and> 0 < computed_tokens h then D_DIRECT
     else if role \<in> {PREFILL, DECODE_ROLE} then PD_DISAGG
     else COLOCATED)"

definition full_local_hit :: "prefix_hint \<Rightarrow> int \<Rightarrow> bool" where
  "full_local_hit h prompt_len \<longleftrightarrow>
     0 < prompt_len \<and> (prebuilt h \<or> (local_hit h \<and> prompt_len \<le> computed_tokens h))"

section \<open>The scheduler's output\<close>

datatype forward_mode =
  EXTEND | DECODE | MIXED | FM_IDLE | TARGET_VERIFY | DRAFT_EXTEND | PREBUILT

record new_request_data =
  nr_req_id :: string
  nr_prompt_token_ids :: "int list"
  nr_sampling :: sampling_params
  nr_num_computed_tokens :: int
  lora_id :: "string option"

record cached_request_data =
  cr_req_ids :: "string list"
  cr_num_computed_tokens :: "int list"
  cr_num_output_tokens :: "int list"
  cr_new_token_ids :: "(string, int list) dict option"

record req_io_set =
  io_req_id :: string
  token_start :: int
  token_end :: int
  pool_kind :: string

definition io_set :: "string \<Rightarrow> int \<Rightarrow> int \<Rightarrow> req_io_set" where
  "io_set rid a b = \<lparr>io_req_id = rid, token_start = a, token_end = b, pool_kind = ''TARGET''\<rparr>"

record grammar_output =
  go_req_ids :: "string list"
  token_bitmask_by_req :: "(string, bool list) dict"
  deferred_req_ids :: "string list"
  go_reason :: string

record scheduler_output =
  step_id :: int
  fwd_mode :: forward_mode
  scheduled_new_reqs :: "new_request_data list"
  scheduled_cached_reqs :: cached_request_data
  num_scheduled_tokens :: "(string, int) dict"
  total_num_scheduled_tokens :: int
  read_set :: "req_io_set list"
  write_set :: "req_io_set list"
  global_num_tokens :: "int list option"
  can_run_graph :: "bool option"
  scheduled_spec_decode_tokens :: "(string, int list) dict option"
  has_structured_output :: bool
  grammar_out :: "grammar_output option"
  req_forward_modes :: "(string, forward_mode) dict"
  req_num_computed_at_schedule :: "(string, int) dict"
  req_query_start :: "(string, int) dict"
  req_query_end :: "(string, int) dict"

definition empty_cached :: cached_request_data where
  "empty_cached = \<lparr>cr_req_ids = [], cr_num_computed_tokens = [], cr_num_output_tokens = [],
     cr_new_token_ids = None\<rparr>"

text \<open>\<^verbatim>\<open>SchedulerOutput(step_id=..., forward_mode=...)\<close> with every other field at its default.\<close>

definition mk_scheduler_output :: "int \<Rightarrow> forward_mode \<Rightarrow> scheduler_output" where
  "mk_scheduler_output sid m = \<lparr>
     step_id = sid, fwd_mode = m, scheduled_new_reqs = [], scheduled_cached_reqs = empty_cached,
     num_scheduled_tokens = [], total_num_scheduled_tokens = 0, read_set = [], write_set = [],
     global_num_tokens = None, can_run_graph = None, scheduled_spec_decode_tokens = None,
     has_structured_output = False, grammar_out = None, req_forward_modes = [],
     req_num_computed_at_schedule = [], req_query_start = [], req_query_end = []\<rparr>"

section \<open>The token relay of the overlap loop\<close>

record future_map =
  fm_staged :: "string \<rightharpoonup> int"
  fm_buf :: "string \<rightharpoonup> int"

definition fm_init :: future_map where
  "fm_init = \<lparr>fm_staged = Map.empty, fm_buf = Map.empty\<rparr>"

definition fm_stash :: "string \<Rightarrow> int \<Rightarrow> future_map \<Rightarrow> future_map" where
  "fm_stash rid tok f = f\<lparr>fm_staged := (fm_staged f)(rid \<mapsto> tok)\<rparr>"

definition fm_publish :: "future_map \<Rightarrow> future_map" where
  "fm_publish f = \<lparr>fm_staged = Map.empty, fm_buf = fm_buf f ++ fm_staged f\<rparr>"

definition fm_resolve :: "future_map \<Rightarrow> string \<Rightarrow> int option" where
  "fm_resolve f rid = fm_buf f rid"

definition fm_clear :: "string \<Rightarrow> future_map \<Rightarrow> future_map" where
  "fm_clear rid f = \<lparr>fm_staged = (fm_staged f)(rid := None), fm_buf = (fm_buf f)(rid := None)\<rparr>"

lemma fm_publish_stash: "fm_resolve (fm_publish (fm_stash rid tok f)) rid = Some tok"
  by (simp add: fm_resolve_def fm_publish_def fm_stash_def)

lemma fm_stash_not_visible: "fm_resolve (fm_stash rid tok f) x = fm_resolve f x"
  by (simp add: fm_resolve_def fm_stash_def)

lemma fm_clear_publish: "fm_resolve (fm_publish (fm_clear rid f)) rid = None"
  by (simp add: fm_resolve_def fm_publish_def fm_clear_def map_add_def)

lemma apply_prefix_hint_bound:
  "num_computed_tokens (apply_prefix_hint h r) \<le> py_len (prompt_token_ids r)"
  by (simp add: apply_prefix_hint_def)

lemma apply_prefix_hint_simps [simp]:
  "req_id (apply_prefix_hint h r) = req_id r"
  "prompt_token_ids (apply_prefix_hint h r) = prompt_token_ids r"
  "req_sampling (apply_prefix_hint h r) = req_sampling r"
  "output_token_ids (apply_prefix_hint h r) = output_token_ids r"
  "finished (apply_prefix_hint h r) = finished r"
  by (simp_all add: apply_prefix_hint_def)

text \<open>A full local hit whose hint covers the prompt selects the direct mode.\<close>

lemma full_local_hit_mode:
  "full_local_hit h n \<Longrightarrow> local_hit h \<Longrightarrow> n \<le> computed_tokens h \<Longrightarrow>
   select_exec_mode h n role = D_DIRECT"
  by (auto simp: full_local_hit_def select_exec_mode_def)

end
