(* ===== verification/Pool_Agent.thy ===== *)
theory Pool_Agent
  imports Request
begin

text \<open>
  The boundary between the scheduler and the storage pool: the types of
  \<^verbatim>\<open>engine/pool_types.py\<close> and the \<^verbatim>\<open>StorageAgent\<close> protocol of \<^verbatim>\<open>engine/agent.py\<close> as a record
  of operations on an agent state. An operation returns its result or the exception it raised,
  together with the agent it leaves behind, because a raising call may have mutated it.

  The locale \<open>fenced_agent\<close> is the contract of the ready/done fence every agent
  promises and the pool facade relies on.
\<close>

datatype pool_error_code =
  PE_OK | TIMEOUT | CAPACITY | PROTOCOL_ERROR | DOWNSTREAM | INVALID_ARG

text \<open>What an agent call may raise: a \<^verbatim>\<open>PoolError\<close> with its code, or any other exception.\<close>

datatype agent_exn = AE_Pool pool_error_code | AE_Other

record step_stats =
  st_reused_blocks :: int
  st_prefill_blocks :: int
  st_pulled_blocks :: int

definition no_stats :: step_stats where
  "no_stats = \<lparr>st_reused_blocks = 0, st_prefill_blocks = 0, st_pulled_blocks = 0\<rparr>"

record ready_handle =
  rh_step_id :: int
  stats_by_req :: "(string, step_stats) dict"
  effective_read_set :: "req_io_set list option"
  effective_write_set :: "req_io_set list option"
  block_table_by_req :: "string \<rightharpoonup> int list"
  slot_mapping_by_req :: "string \<rightharpoonup> int list"

record prepare_plan =
  pp_step_id :: int
  pp_forward_mode :: forward_mode
  pp_read_set :: "req_io_set list"
  pp_write_set :: "req_io_set list"
  pp_num_scheduled_tokens :: "(string, int) dict"
  pp_pull_budget_ms :: int
  pp_allow_partial_hit :: bool

record finish_request =
  fin_req_id :: string
  fin_node_id :: string
  fin_model_id :: string

text \<open>The operations of an agent. \<open>ag_bind_host_reqs\<close>, \<open>ag_commit_write_extent\<close> and
  \<open>ag_probe_prefix\<close> are looked up by name at run time and may be missing;
  \<open>ag_probe_local\<close> is there for the in-memory agent only.\<close>

record 'a agent_ops =
  ag_bind_host_reqs :: "((string \<rightharpoonup> req) \<Rightarrow> 'a \<Rightarrow> 'a) option"
  ag_prepare_step :: "prepare_plan \<Rightarrow> 'a \<Rightarrow> (agent_exn + ready_handle) \<times> 'a"
  ag_done :: "int \<Rightarrow> 'a \<Rightarrow> (agent_exn + unit) \<times> 'a"
  ag_on_request_finished :: "finish_request \<Rightarrow> 'a \<Rightarrow> (agent_exn + unit) \<times> 'a"
  ag_commit_write_extent :: "(string \<Rightarrow> int \<Rightarrow> 'a \<Rightarrow> (agent_exn + unit) \<times> 'a) option"
  ag_probe_local :: "(string \<Rightarrow> int \<Rightarrow> 'a \<Rightarrow> int \<times> bool) option"
  ag_probe_prefix :: "(req \<Rightarrow> 'a \<Rightarrow> (agent_exn + prefix_hint) \<times> 'a) option"

text \<open>The fence contract: \<open>fence a\<close> is the step that is between its \<open>prepare_step\<close> and
  its \<open>done\<close>. A prepare inside a fence and a done that does not match it are protocol
  errors that leave the fence alone; a prepare that succeeds raises the fence for the step of
  its plan and answers for that step; nothing else moves the fence.\<close>

locale fenced_agent =
  fixes ops :: "'a agent_ops" and fence :: "'a \<Rightarrow> int option"
  assumes prepare_inside:
      "fence a = Some k \<Longrightarrow> fst (ag_prepare_step ops p a) = Inl (AE_Pool PROTOCOL_ERROR)"
    and prepare_raise_fence:
      "fst (ag_prepare_step ops p a) = Inl e \<Longrightarrow> fence (snd (ag_prepare_step ops p a)) = fence a"
    and prepare_ready:
      "fst (ag_prepare_step ops p a) = Inr h \<Longrightarrow>
       rh_step_id h = pp_step_id p \<and> fence (snd (ag_prepare_step ops p a)) = Some (pp_step_id p)"
    and done_matching:
      "fence a = Some k \<Longrightarrow> fst (ag_done ops k a) = Inr () \<and> fence (snd (ag_done ops k a)) = None"
    and done_mismatch:
      "fence a \<noteq> Some k \<Longrightarrow>
       fst (ag_done ops k a) = Inl (AE_Pool PROTOCOL_ERROR) \<and> fence (snd (ag_done ops k a)) = fence a"
    and finish_fence: "fence (snd (ag_on_request_finished ops f a)) = fence a"
    and commit_fence:
      "ag_commit_write_extent ops = Some c \<Longrightarrow> fence (snd (c r n a)) = fence a"
    and bind_fence: "ag_bind_host_reqs ops = Some b \<Longrightarrow> fence (b rs a) = fence a"
begin

lemma prepare_ok_outside:
  "fst (ag_prepare_step ops p a) = Inr h \<Longrightarrow> fence a = None"
  using prepare_inside by (cases "fence a") auto

lemma prepare_then_done:
  assumes "fst (ag_prepare_step ops p a) = Inr h"
  shows "fst (ag_done ops (pp_step_id p) (snd (ag_prepare_step ops p a))) = Inr ()"
  using prepare_ready [OF assms] done_matching by blast

end

end
