(* ===== verification/Memory_Agent.thy ===== *)
theory Memory_Agent
  imports Pool_Agent
begin

text \<open>
  The in-memory storage agent (\<^verbatim>\<open>engine/agents/memory.py\<close>): the L0 placement as a map from
  request to its token high-water mark, the ready/done fence, the set of frozen requests and
  the deferred finishes of the overlap loop.
\<close>

record mem_agent =
  l0_token_end :: "string \<rightharpoonup> int"
  ma_ready_step :: "int option"
  frozen_reqs :: "string set"
  deferred_finish :: "finish_request list"
  ma_finished :: "string list"
  force_pull_reqs :: "string set"
  pull_cost_ms :: int
  ma_prepare_calls :: int
  ma_done_calls :: int
  prepares_since_commit :: "string \<rightharpoonup> int"

definition mem_init :: mem_agent where
  "mem_init = \<lparr>l0_token_end = Map.empty, ma_ready_step = None, frozen_reqs = {},
     deferred_finish = [], ma_finished = [], force_pull_reqs = {}, pull_cost_ms = 0,
     ma_prepare_calls = 0, ma_done_calls = 0, prepares_since_commit = Map.empty\<rparr>"

text \<open>\<^verbatim>\<open>d.get(k, 0)\<close> on a map.\<close>

definition get0 :: "('k \<rightharpoonup> int) \<Rightarrow> 'k \<Rightarrow> int" where
  "get0 m k = (case m k of None \<Rightarrow> 0 | Some v \<Rightarrow> v)"

definition seed_local_prefix :: "string \<Rightarrow> int \<Rightarrow> mem_agent \<Rightarrow> mem_agent" where
  "seed_local_prefix rid n a =
     a\<lparr>l0_token_end := (l0_token_end a)(rid \<mapsto> max (get0 (l0_token_end a) rid) n)\<rparr>"

definition probe_local :: "string \<Rightarrow> int \<Rightarrow> mem_agent \<Rightarrow> int \<times> bool" where
  "probe_local rid prompt_len a =
    (let have = get0 (l0_token_end a) rid in
     (min have prompt_len, 0 < prompt_len \<and> prompt_len \<le> have))"

definition mem_commit_write_extent ::
  "string \<Rightarrow> int \<Rightarrow> mem_agent \<Rightarrow> (agent_exn + unit) \<times> mem_agent" where
  "mem_commit_write_extent rid n a =
    (let e = max 0 n; k = get0 (prepares_since_commit a) rid in
     if 1 < k then
       (Inr (), a\<lparr>prepares_since_commit := (prepares_since_commit a)(rid \<mapsto> k - 1)\<rparr>)
     else
       (Inr (), a\<lparr>
          l0_token_end := (case l0_token_end a rid of
             None \<Rightarrow> l0_token_end a
           | Some have \<Rightarrow> (l0_token_end a)(rid \<mapsto> min have e)),
          prepares_since_commit := (prepares_since_commit a)(rid \<mapsto> 0)\<rparr>))"

definition apply_finish :: "finish_request \<Rightarrow> mem_agent \<Rightarrow> mem_agent" where
  "apply_finish f a = a\<lparr>
     l0_token_end := (l0_token_end a)(fin_req_id f := None),
     prepares_since_commit := (prepares_since_commit a)(fin_req_id f := None),
     ma_finished := ma_finished a @ [fin_req_id f]\<rparr>"

definition flush_deferred_finish :: "mem_agent \<Rightarrow> mem_agent" where
  "flush_deferred_finish a =
    (if ma_ready_step a \<noteq> None \<or> frozen_reqs a \<noteq> {} then a
     else fold apply_finish (deferred_finish a) (a\<lparr>deferred_finish := []\<rparr>))"

text \<open>The local variables of \<^verbatim>\<open>prepare_step\<close> beside the agent itself.\<close>

record prep_acc =
  pa_agent :: mem_agent
  pa_stats :: "(string, step_stats) dict"
  pa_read :: "req_io_set list"
  pa_write :: "req_io_set list"
  pa_pull_ms :: int

definition drop_req :: "string \<Rightarrow> req_io_set list \<Rightarrow> req_io_set list" where
  "drop_req rid ios = filter (\<lambda>x. io_req_id x \<noteq> rid) ios"

definition upd_stats ::
  "string \<Rightarrow> (step_stats \<Rightarrow> step_stats) \<Rightarrow> (string, step_stats) dict \<Rightarrow> (string, step_stats) dict" where
  "upd_stats rid f d = dict_set rid (f (dict_get d rid no_stats)) d"

definition freeze :: "string \<Rightarrow> mem_agent \<Rightarrow> mem_agent" where
  "freeze rid a = a\<lparr>frozen_reqs := insert rid (frozen_reqs a)\<rparr>"

text \<open>One iteration of the loop over the read set; \<open>Inl\<close> is the agent a TIMEOUT leaves.\<close>

definition mem_read_io :: "prepare_plan \<Rightarrow> req_io_set \<Rightarrow> prep_acc \<Rightarrow> mem_agent + prep_acc" where
  "mem_read_io p io acc =
    (let a = pa_agent acc; rid = io_req_id io; have = get0 (l0_token_end a) rid in
     if rid \<in> force_pull_reqs a \<or> have < token_end io then
       (let pull = pa_pull_ms acc + pull_cost_ms a in
        if 0 < pp_pull_budget_ms p \<and> pp_pull_budget_ms p < pull then
          (if pp_allow_partial_hit p then
             Inr (acc\<lparr>pa_pull_ms := pull, pa_read := drop_req rid (pa_read acc),
                      pa_write := drop_req rid (pa_write acc)\<rparr>)
           else Inl a)
        else
          Inr (acc\<lparr>pa_pull_ms := pull,
                   pa_agent := freeze rid
                     (a\<lparr>l0_token_end := (l0_token_end a)(rid \<mapsto> max have (token_end io))\<rparr>),
                   pa_stats := upd_stats rid
                     (\<lambda>st. st\<lparr>st_pulled_blocks := st_pulled_blocks st + 1\<rparr>) (pa_stats acc)\<rparr>))
     else
       Inr (acc\<lparr>pa_agent := freeze rid a, pa_stats := dict_setdefault rid no_stats (pa_stats acc)\<rparr>))"

primrec mem_read_loop ::
  "prepare_plan \<Rightarrow> req_io_set list \<Rightarrow> prep_acc \<Rightarrow> mem_agent + prep_acc" where
  "mem_read_loop p [] acc = Inr acc"
| "mem_read_loop p (io # ios) acc = bind_res (mem_read_io p io acc) (mem_read_loop p ios)"

definition mem_write_io :: "req_io_set \<Rightarrow> prep_acc \<Rightarrow> prep_acc" where
  "mem_write_io io acc =
    (let a = pa_agent acc; rid = io_req_id io in
     if rid \<notin> io_req_id ` set (pa_write acc) then acc
     else acc\<lparr>
       pa_agent := freeze rid (a\<lparr>
         l0_token_end := (l0_token_end a)(rid \<mapsto> max (get0 (l0_token_end a) rid) (token_end io)),
         prepares_since_commit :=
           (prepares_since_commit a)(rid \<mapsto> get0 (prepares_since_commit a) rid + 1)\<rparr>),
       pa_stats := upd_stats rid
         (\<lambda>st. if token_start io = 0 \<and> 0 < token_end io
                then st\<lparr>st_prefill_blocks := max (st_prefill_blocks st) 1\<rparr> else st)
         (pa_stats acc)\<rparr>)"

definition mem_block_table :: "mem_agent \<Rightarrow> req_io_set list \<Rightarrow> string \<rightharpoonup> int list" where
  "mem_block_table a live rid =
    (if rid \<in> io_req_id ` set live
     then Some [0 .. (get0 (l0_token_end a) rid + 7) div 8 - 1] else None)"

definition mem_slot_mapping :: "req_io_set list \<Rightarrow> string \<rightharpoonup> int list" where
  "mem_slot_mapping ws =
    fold (\<lambda>io m. m(io_req_id io \<mapsto> [token_start io .. token_end io - 1])) ws Map.empty"

definition mem_prepare_step ::
  "prepare_plan \<Rightarrow> mem_agent \<Rightarrow> (agent_exn + ready_handle) \<times> mem_agent" where
  "mem_prepare_step p a0 =
    (let a1 = a0\<lparr>ma_prepare_calls := ma_prepare_calls a0 + 1\<rparr> in
     if ma_ready_step a1 \<noteq> None then (Inl (AE_Pool PROTOCOL_ERROR), a1)
     else
       (let a2 = flush_deferred_finish a1;
            acc0 = \<lparr>pa_agent = a2, pa_stats = [], pa_read = pp_read_set p,
                    pa_write = pp_write_set p, pa_pull_ms = 0\<rparr> in
        case mem_read_loop p (pp_read_set p) acc0 of
          Inl a' \<Rightarrow> (Inl (AE_Pool TIMEOUT), a')
        | Inr acc1 \<Rightarrow>
            (let acc = fold mem_write_io (pp_write_set p) acc1;
                 a' = (pa_agent acc)\<lparr>ma_ready_step := Some (pp_step_id p)\<rparr> in
             (Inr \<lparr>rh_step_id = pp_step_id p,
                   stats_by_req = pa_stats acc,
                   effective_read_set = Some (pa_read acc),
                   effective_write_set = Some (pa_write acc),
                   block_table_by_req = mem_block_table a' (pa_read acc @ pa_write acc),
                   slot_mapping_by_req = mem_slot_mapping (pa_write acc)\<rparr>, a'))))"

definition mem_done :: "int \<Rightarrow> mem_agent \<Rightarrow> (agent_exn + unit) \<times> mem_agent" where
  "mem_done sid a0 =
    (let a = a0\<lparr>ma_done_calls := ma_done_calls a0 + 1\<rparr> in
     if ma_ready_step a \<noteq> Some sid then (Inl (AE_Pool PROTOCOL_ERROR), a)
     else (Inr (), flush_deferred_finish (a\<lparr>ma_ready_step := None, frozen_reqs := {}\<rparr>)))"

definition mem_on_request_finished ::
  "finish_request \<Rightarrow> mem_agent \<Rightarrow> (agent_exn + unit) \<times> mem_agent" where
  "mem_on_request_finished f a =
    (if fin_req_id f \<in> frozen_reqs a \<or> ma_ready_step a \<noteq> None
     then (Inr (), a\<lparr>deferred_finish := deferred_finish a @ [f]\<rparr>)
     else (Inr (), apply_finish f a))"

definition in_memory_agent :: "mem_agent agent_ops" where
  "in_memory_agent = \<lparr>
     ag_bind_host_reqs = None,
     ag_prepare_step = mem_prepare_step,
     ag_done = mem_done,
     ag_on_request_finished = mem_on_request_finished,
     ag_commit_write_extent = Some mem_commit_write_extent,
     ag_probe_local = Some probe_local,
     ag_probe_prefix = None\<rparr>"

section \<open>Lemmas on the loops of a prepare\<close>

lemma get0_upd [simp]: "get0 (m(k \<mapsto> v)) k' = (if k' = k then v else get0 m k')"
  by (simp add: get0_def)

lemma get0_del [simp]: "get0 (m(k := None)) k' = (if k' = k then 0 else get0 m k')"
  by (simp add: get0_def)

lemma freeze_simps [simp]:
  "l0_token_end (freeze r a) = l0_token_end a"
  "ma_ready_step (freeze r a) = ma_ready_step a"
  "frozen_reqs (freeze r a) = insert r (frozen_reqs a)"
  "deferred_finish (freeze r a) = deferred_finish a"
  "ma_finished (freeze r a) = ma_finished a"
  "prepares_since_commit (freeze r a) = prepares_since_commit a"
  by (simp_all add: freeze_def)

lemma apply_finish_simps [simp]:
  "ma_ready_step (apply_finish f a) = ma_ready_step a"
  "frozen_reqs (apply_finish f a) = frozen_reqs a"
  "deferred_finish (apply_finish f a) = deferred_finish a"
  "ma_finished (apply_finish f a) = ma_finished a @ [fin_req_id f]"
  "l0_token_end (apply_finish f a) = (l0_token_end a)(fin_req_id f := None)"
  "prepares_since_commit (apply_finish f a) = (prepares_since_commit a)(fin_req_id f := None)"
  by (simp_all add: apply_finish_def)

lemma fold_apply_finish_simps [simp]:
  "ma_ready_step (fold apply_finish fs a) = ma_ready_step a"
  "frozen_reqs (fold apply_finish fs a) = frozen_reqs a"
  "deferred_finish (fold apply_finish fs a) = deferred_finish a"
  "ma_finished (fold apply_finish fs a) = ma_finished a @ map fin_req_id fs"
  by (induction fs arbitrary: a) simp_all

lemma fold_apply_finish_maps:
  "get0 (l0_token_end (fold apply_finish fs a)) r =
     (if r \<in> fin_req_id ` set fs then 0 else get0 (l0_token_end a) r)"
  "get0 (prepares_since_commit (fold apply_finish fs a)) r =
     (if r \<in> fin_req_id ` set fs then 0 else get0 (prepares_since_commit a) r)"
  by (induction fs arbitrary: a) auto

lemma flush_simps [simp]:
  "ma_ready_step (flush_deferred_finish a) = ma_ready_step a"
  "frozen_reqs (flush_deferred_finish a) = frozen_reqs a"
  by (simp_all add: flush_deferred_finish_def)

text \<open>What one read does to the agent: placement only grows, nothing but the placement and
  the frozen set moves.\<close>

definition read_grows :: "mem_agent \<Rightarrow> mem_agent \<Rightarrow> bool" where
  "read_grows a a' \<longleftrightarrow> ma_ready_step a' = ma_ready_step a \<and> ma_finished a' = ma_finished a
     \<and> deferred_finish a' = deferred_finish a
     \<and> prepares_since_commit a' = prepares_since_commit a
     \<and> (\<forall>r. get0 (l0_token_end a) r \<le> get0 (l0_token_end a') r)
     \<and> frozen_reqs a \<subseteq> frozen_reqs a'"

lemma read_grows_refl [simp]: "read_grows a a"
  by (simp add: read_grows_def)

lemma read_grows_trans: "read_grows a b \<Longrightarrow> read_grows b c \<Longrightarrow> read_grows a c"
  unfolding read_grows_def by (auto intro: order_trans)

lemma mem_read_io_grows:
  "mem_read_io p io acc = Inr acc' \<Longrightarrow> read_grows (pa_agent acc) (pa_agent acc')"
  "mem_read_io p io acc = Inl a' \<Longrightarrow> a' = pa_agent acc"
  by (auto simp: mem_read_io_def Let_def read_grows_def split: if_splits)

lemma mem_read_loop_grows:
  "mem_read_loop p ios acc = Inr acc' \<Longrightarrow> read_grows (pa_agent acc) (pa_agent acc')"
  by (induction ios arbitrary: acc)
    (auto simp: bind_res_Inr_iff dest: mem_read_io_grows(1) intro: read_grows_trans)

lemma mem_read_loop_raise_grows:
  "mem_read_loop p ios acc = Inl a' \<Longrightarrow> read_grows (pa_agent acc) a'"
proof (induction ios arbitrary: acc)
  case (Cons io ios)
  show ?case
  proof (cases "mem_read_io p io acc")
    case (Inl b)
    then show ?thesis using Cons.prems mem_read_io_grows(2) [OF Inl] by simp
  next
    case (Inr b)
    then show ?thesis
      using Cons.prems Cons.IH [of b] mem_read_io_grows(1) [OF Inr] read_grows_trans by simp
  qed
qed simp

lemma mem_write_io_simps [simp]:
  "ma_ready_step (pa_agent (mem_write_io io acc)) = ma_ready_step (pa_agent acc)"
  "ma_finished (pa_agent (mem_write_io io acc)) = ma_finished (pa_agent acc)"
  "deferred_finish (pa_agent (mem_write_io io acc)) = deferred_finish (pa_agent acc)"
  "pa_read (mem_write_io io acc) = pa_read acc"
  "pa_write (mem_write_io io acc) = pa_write acc"
  by (simp_all add: mem_write_io_def Let_def)

lemma fold_mem_write_io_simps [simp]:
  "ma_ready_step (pa_agent (fold mem_write_io ws acc)) = ma_ready_step (pa_agent acc)"
  "ma_finished (pa_agent (fold mem_write_io ws acc)) = ma_finished (pa_agent acc)"
  "deferred_finish (pa_agent (fold mem_write_io ws acc)) = deferred_finish (pa_agent acc)"
  "pa_read (fold mem_write_io ws acc) = pa_read acc"
  "pa_write (fold mem_write_io ws acc) = pa_write acc"
  by (induction ws arbitrary: acc) simp_all

section \<open>The fence contract\<close>

lemma mem_prepare_fence:
  assumes "mem_prepare_step p a = (x, a')"
  shows "case x of
      Inl e \<Rightarrow> ma_ready_step a' = ma_ready_step a \<and> (ma_ready_step a \<noteq> None \<longrightarrow> e = AE_Pool PROTOCOL_ERROR)
    | Inr h \<Rightarrow> ma_ready_step a = None \<and> ma_ready_step a' = Some (pp_step_id p) \<and> rh_step_id h = pp_step_id p"
  using assms
  by (auto simp: mem_prepare_step_def Let_def read_grows_def split: if_splits sum.splits
      dest: mem_read_loop_raise_grows)

lemma mem_done_fence:
  "ma_ready_step a = Some k \<Longrightarrow> fst (mem_done k a) = Inr () \<and> ma_ready_step (snd (mem_done k a)) = None"
  "ma_ready_step a \<noteq> Some k \<Longrightarrow>
     fst (mem_done k a) = Inl (AE_Pool PROTOCOL_ERROR) \<and> ma_ready_step (snd (mem_done k a)) = ma_ready_step a"
  by (auto simp: mem_done_def Let_def)

interpretation mem: fenced_agent in_memory_agent ma_ready_step
proof unfold_locales
  fix p h and a :: mem_agent
  assume "fst (ag_prepare_step in_memory_agent p a) = Inr h"
  then show "rh_step_id h = pp_step_id p \<and>
      ma_ready_step (snd (ag_prepare_step in_memory_agent p a)) = Some (pp_step_id p)"
    by (cases "mem_prepare_step p a") (auto simp: in_memory_agent_def dest: mem_prepare_fence)
next
  fix p k and a :: mem_agent
  assume "ma_ready_step a = Some k"
  then show "fst (ag_prepare_step in_memory_agent p a) = Inl (AE_Pool PROTOCOL_ERROR)"
    by (simp add: in_memory_agent_def mem_prepare_step_def)
next
  fix p e and a :: mem_agent
  assume "fst (ag_prepare_step in_memory_agent p a) = Inl e"
  then show "ma_ready_step (snd (ag_prepare_step in_memory_agent p a)) = ma_ready_step a"
    by (cases "mem_prepare_step p a") (auto simp: in_memory_agent_def dest: mem_prepare_fence)
qed (auto simp: in_memory_agent_def mem_done_fence mem_on_request_finished_def
    mem_commit_write_extent_def Let_def)

end
