(* ===== verification/Memory_History.thy ===== *)
theory Memory_History
  imports Memory_Agent "HOL-Library.Multiset"
begin

text \<open>
  Histories of the in-memory agent: what holds after any sequence of calls, raising calls
  included. A write extent that was prepared stays covered by the placement until its own
  commit, and no reported finish is lost or applied twice.
\<close>

section \<open>Histories of the agent\<close>

text \<open>A history is any sequence of calls, raising calls included. Beside the agent it carries
  what the callers know: per request the write extents prepared and not yet committed, oldest
  first, and the requests whose finish was reported.\<close>

record mem_ghost =
  gh_extents :: "string \<Rightarrow> int list"
  gh_finish_calls :: "string list"

definition extents_of :: "string \<Rightarrow> req_io_set list \<Rightarrow> int list" where
  "extents_of r ws = map token_end (filter (\<lambda>io. io_req_id io = r) ws)"

definition newly_finished :: "mem_agent \<Rightarrow> mem_agent \<Rightarrow> string set" where
  "newly_finished a a' = set (drop (length (ma_finished a)) (ma_finished a'))"

definition settle :: "mem_agent \<Rightarrow> mem_agent \<Rightarrow> mem_ghost \<Rightarrow> mem_ghost" where
  "settle a a' g = g\<lparr>gh_extents := \<lambda>r. if r \<in> newly_finished a a' then [] else gh_extents g r\<rparr>"

inductive mem_step :: "mem_agent \<times> mem_ghost \<Rightarrow> mem_agent \<times> mem_ghost \<Rightarrow> bool" where
  mem_ready: "mem_prepare_step p a = (Inr h, a') \<Longrightarrow> effective_write_set h = Some ws \<Longrightarrow>
     g' = settle a a' g \<Longrightarrow>
     mem_step (a, g) (a', g'\<lparr>gh_extents := \<lambda>r. gh_extents g' r @ extents_of r ws\<rparr>)"
| mem_raise: "mem_prepare_step p a = (Inl e, a') \<Longrightarrow> mem_step (a, g) (a', settle a a' g)"
| mem_done: "mem_done k a = (x, a') \<Longrightarrow> mem_step (a, g) (a', settle a a' g)"
| mem_finish: "mem_on_request_finished f a = (x, a') \<Longrightarrow> g' = settle a a' g \<Longrightarrow>
     mem_step (a, g) (a', g'\<lparr>gh_finish_calls := gh_finish_calls g' @ [fin_req_id f]\<rparr>)"
| mem_commit: "mem_commit_write_extent r n a = (x, a') \<Longrightarrow>
     mem_step (a, g) (a', g\<lparr>gh_extents := (gh_extents g)(r := tl (gh_extents g r))\<rparr>)"
| mem_seed: "mem_step (a, g) (seed_local_prefix r n a, g)"

inductive_cases mem_stepE: "mem_step (a, g) (a', g')"

definition extents_inv :: "mem_agent \<Rightarrow> mem_ghost \<Rightarrow> bool" where
  "extents_inv a g \<longleftrightarrow> (\<forall>r. py_len (gh_extents g r) = get0 (prepares_since_commit a) r
     \<and> (\<forall>e \<in> set (gh_extents g r). e \<le> get0 (l0_token_end a) r))"

definition finish_inv :: "mem_agent \<Rightarrow> mem_ghost \<Rightarrow> bool" where
  "finish_inv a g \<longleftrightarrow>
     mset (ma_finished a) + mset (map fin_req_id (deferred_finish a)) = mset (gh_finish_calls g)"

lemma mem_read_loop_write:
  "mem_read_loop p ios acc = Inr acc' \<Longrightarrow>
   \<exists>D. pa_write acc' = filter (\<lambda>x. io_req_id x \<notin> D) (pa_write acc)"
proof (induction ios arbitrary: acc)
  case Nil
  then show ?case by (auto intro: exI [of _ "{}"])
next
  case (Cons io ios)
  then obtain b where b: "mem_read_io p io acc = Inr b" "mem_read_loop p ios b = Inr acc'"
    by (auto simp: bind_res_Inr_iff)
  obtain D where D: "pa_write acc' = filter (\<lambda>x. io_req_id x \<notin> D) (pa_write b)"
    using Cons.IH [OF b(2)] by blast
  have "pa_write b = pa_write acc \<or> pa_write b = drop_req (io_req_id io) (pa_write acc)"
    using b(1) by (auto simp: mem_read_io_def Let_def split: if_splits)
  then show ?case using D
    by (auto simp: drop_req_def intro: exI [of _ D] exI [of _ "insert (io_req_id io) D"]
        intro!: filter_cong)
qed

lemma filter_written_ids:
  "filter (\<lambda>x. io_req_id x \<in> io_req_id ` set (filter (\<lambda>y. io_req_id y \<notin> D) ws)) ws =
   filter (\<lambda>y. io_req_id y \<notin> D) ws"
  by (rule filter_cong) auto

lemma fold_mem_write_io_psc:
  "get0 (prepares_since_commit (pa_agent (fold mem_write_io ws acc))) r =
   get0 (prepares_since_commit (pa_agent acc)) r
     + py_len (extents_of r (filter (\<lambda>x. io_req_id x \<in> io_req_id ` set (pa_write acc)) ws))"
  by (induction ws arbitrary: acc) (auto simp: mem_write_io_def Let_def extents_of_def)

lemma mem_write_io_l0_mono:
  "get0 (l0_token_end (pa_agent acc)) r \<le> get0 (l0_token_end (pa_agent (mem_write_io io acc))) r"
  by (auto simp: mem_write_io_def Let_def)

lemma fold_mem_write_io_l0_mono:
  "get0 (l0_token_end (pa_agent acc)) r \<le> get0 (l0_token_end (pa_agent (fold mem_write_io ws acc))) r"
  by (induction ws arbitrary: acc) (auto intro: order_trans [OF mem_write_io_l0_mono])

lemma fold_mem_write_io_covers:
  "e \<in> set (extents_of r (filter (\<lambda>x. io_req_id x \<in> io_req_id ` set (pa_write acc)) ws)) \<Longrightarrow>
   e \<le> get0 (l0_token_end (pa_agent (fold mem_write_io ws acc))) r"
proof (induction ws arbitrary: acc)
  case (Cons io ws)
  show ?case
  proof (cases "io_req_id io = r \<and> io_req_id io \<in> io_req_id ` set (pa_write acc) \<and> e = token_end io")
    case True
    then have "e \<le> get0 (l0_token_end (pa_agent (mem_write_io io acc))) r"
      by (auto simp: mem_write_io_def Let_def)
    then show ?thesis using fold_mem_write_io_l0_mono order_trans by fastforce
  next
    case False
    then show ?thesis using Cons.prems Cons.IH [of "mem_write_io io acc"]
      by (auto simp: extents_of_def split: if_splits)
  qed
qed (simp add: extents_of_def)

text \<open>A call that applies the finishes \<open>fs\<close> from the front of the deferred queue and
  otherwise only lets placements grow.\<close>

definition settles_by :: "finish_request list \<Rightarrow> mem_agent \<Rightarrow> mem_agent \<Rightarrow> bool" where
  "settles_by fs a a' \<longleftrightarrow> ma_finished a' = ma_finished a @ map fin_req_id fs
      \<and> deferred_finish a = fs @ deferred_finish a'
      \<and> (\<forall>r \<in> fin_req_id ` set fs. get0 (prepares_since_commit a') r = 0)
      \<and> (\<forall>r. r \<notin> fin_req_id ` set fs \<longrightarrow>
            get0 (prepares_since_commit a') r = get0 (prepares_since_commit a) r
          \<and> get0 (l0_token_end a) r \<le> get0 (l0_token_end a') r)"

definition settles :: "mem_agent \<Rightarrow> mem_agent \<Rightarrow> bool" where
  "settles a a' \<longleftrightarrow> (\<exists>fs. settles_by fs a a')"

lemma settles_by_flush:
  "settles_by (if ma_ready_step a \<noteq> None \<or> frozen_reqs a \<noteq> {} then [] else deferred_finish a)
     a (flush_deferred_finish a)"
  by (simp add: settles_by_def flush_deferred_finish_def fold_apply_finish_maps)

lemma settles_flush: "settles a (flush_deferred_finish a)"
  using settles_by_flush unfolding settles_def by blast

lemma settles_read:
  assumes "settles a b" "read_grows b c"
  shows "settles a c"
proof -
  obtain fs where "settles_by fs a b" using assms(1) unfolding settles_def by blast
  then have "settles_by fs a c"
    using assms(2) unfolding settles_by_def read_grows_def by (auto intro: order_trans)
  then show ?thesis unfolding settles_def by blast
qed

lemma settles_cong:
  assumes "settles a b"
    and "ma_finished a' = ma_finished a" "deferred_finish a' = deferred_finish a"
    and "prepares_since_commit a' = prepares_since_commit a" "l0_token_end a' = l0_token_end a"
  shows "settles a' b"
  using assms unfolding settles_def settles_by_def by simp

lemma settles_same:
  assumes "ma_finished a' = ma_finished a" "deferred_finish a' = deferred_finish a"
    and "prepares_since_commit a' = prepares_since_commit a" "l0_token_end a' = l0_token_end a"
  shows "settles a a'"
proof -
  have "settles_by [] a a'" using assms by (simp add: settles_by_def)
  then show ?thesis unfolding settles_def by blast
qed

lemma settles_extents:
  assumes "settles a a'" "extents_inv a g"
  shows "extents_inv a' (settle a a' g)"
proof -
  obtain fs where fs: "settles_by fs a a'" using assms(1) unfolding settles_def by blast
  then have nf: "newly_finished a a' = fin_req_id ` set fs"
    by (simp add: newly_finished_def settles_by_def)
  show ?thesis unfolding extents_inv_def
  proof
    fix r
    show "py_len (gh_extents (settle a a' g) r) = get0 (prepares_since_commit a') r
       \<and> (\<forall>e \<in> set (gh_extents (settle a a' g) r). e \<le> get0 (l0_token_end a') r)"
    proof (cases "r \<in> fin_req_id ` set fs")
      case True
      then show ?thesis using fs by (auto simp: settle_def nf settles_by_def)
    next
      case False
      then have "get0 (prepares_since_commit a') r = get0 (prepares_since_commit a) r"
        "get0 (l0_token_end a) r \<le> get0 (l0_token_end a') r"
        using fs by (simp_all add: settles_by_def)
      then show ?thesis using False assms(2)
        by (auto simp: settle_def nf extents_inv_def intro: order_trans)
    qed
  qed
qed

lemma settles_finish:
  assumes "settles a a'" "finish_inv a g"
  shows "finish_inv a' (settle a a' g)"
proof -
  obtain fs where fs: "settles_by fs a a'" using assms(1) unfolding settles_def by blast
  then show ?thesis using assms(2)
    by (simp add: settles_by_def finish_inv_def settle_def ac_simps)
qed

lemma settles_prepare:
  assumes "read_grows (flush_deferred_finish (a\<lparr>ma_prepare_calls := n\<rparr>)) b"
  shows "settles a b"
proof -
  have "settles (a\<lparr>ma_prepare_calls := n\<rparr>) b" by (rule settles_read [OF settles_flush assms])
  then show ?thesis by (rule settles_cong) simp_all
qed

lemma mem_prepare_raise_settles:
  "mem_prepare_step p a = (Inl e, a') \<Longrightarrow> settles a a'"
proof (cases "ma_ready_step a")
  case None
  assume "mem_prepare_step p a = (Inl e, a')"
  then show ?thesis using None
    by (auto simp: mem_prepare_step_def Let_def split: sum.splits
        dest!: mem_read_loop_raise_grows intro: settles_prepare)
next
  case (Some k)
  assume "mem_prepare_step p a = (Inl e, a')"
  then show ?thesis using Some
    by (auto simp: mem_prepare_step_def Let_def intro: settles_same)
qed

text \<open>A prepare that becomes ready is a settling call followed by the writes it reports.\<close>

lemma mem_prepare_ready_shape:
  assumes "mem_prepare_step p a = (Inr h, a')" "effective_write_set h = Some ws"
  obtains b where "settles a b" "ma_finished a' = ma_finished b"
    "deferred_finish a' = deferred_finish b"
    "\<And>r. get0 (prepares_since_commit a') r =
       get0 (prepares_since_commit b) r + py_len (extents_of r ws)"
    "\<And>r. get0 (l0_token_end b) r \<le> get0 (l0_token_end a') r"
    "\<And>r e. e \<in> set (extents_of r ws) \<Longrightarrow> e \<le> get0 (l0_token_end a') r"
proof -
  define a1 where "a1 = a\<lparr>ma_prepare_calls := ma_prepare_calls a + 1\<rparr>"
  define acc0 where "acc0 = \<lparr>pa_agent = flush_deferred_finish a1, pa_stats = [],
    pa_read = pp_read_set p, pa_write = pp_write_set p, pa_pull_ms = 0\<rparr>"
  obtain acc1 where acc1: "mem_read_loop p (pp_read_set p) acc0 = Inr acc1"
    and a': "a' = (pa_agent (fold mem_write_io (pp_write_set p) acc1))\<lparr>ma_ready_step := Some (pp_step_id p)\<rparr>"
    and ws: "ws = pa_write acc1"
    using assms
    by (auto simp: mem_prepare_step_def Let_def acc0_def a1_def split: if_splits sum.splits)
  have st: "settles a (pa_agent acc1)"
    using mem_read_loop_grows [OF acc1] by (auto simp: acc0_def a1_def intro: settles_prepare)
  obtain D where "pa_write acc1 = filter (\<lambda>x. io_req_id x \<notin> D) (pp_write_set p)"
    using mem_read_loop_write [OF acc1] by (auto simp: acc0_def)
  then have written: "filter (\<lambda>x. io_req_id x \<in> io_req_id ` set (pa_write acc1)) (pp_write_set p) = ws"
    using filter_written_ids [of D "pp_write_set p"] by (simp only: ws)
  show ?thesis
  proof (rule that [OF st])
    fix r e
    show "ma_finished a' = ma_finished (pa_agent acc1)"
      "deferred_finish a' = deferred_finish (pa_agent acc1)" by (simp_all add: a')
    show "get0 (prepares_since_commit a') r =
        get0 (prepares_since_commit (pa_agent acc1)) r + py_len (extents_of r ws)"
      by (simp add: a' fold_mem_write_io_psc written)
    show "get0 (l0_token_end (pa_agent acc1)) r \<le> get0 (l0_token_end a') r"
      by (simp add: a' fold_mem_write_io_l0_mono)
    assume "e \<in> set (extents_of r ws)"
    then show "e \<le> get0 (l0_token_end a') r"
      using fold_mem_write_io_covers [of e r acc1 "pp_write_set p"] by (simp add: a' written)
  qed
qed

lemma mem_ready_invs:
  assumes "mem_prepare_step p a = (Inr h, a')" "effective_write_set h = Some ws"
    and g': "g' = settle a a' g"
  shows "extents_inv a g \<Longrightarrow> extents_inv a' (g'\<lparr>gh_extents := \<lambda>r. gh_extents g' r @ extents_of r ws\<rparr>)"
    and "finish_inv a g \<Longrightarrow> finish_inv a' (g'\<lparr>gh_extents := \<lambda>r. gh_extents g' r @ extents_of r ws\<rparr>)"
proof -
  obtain b where b: "settles a b" "ma_finished a' = ma_finished b"
    "deferred_finish a' = deferred_finish b"
    "\<And>r. get0 (prepares_since_commit a') r =
       get0 (prepares_since_commit b) r + py_len (extents_of r ws)"
    "\<And>r. get0 (l0_token_end b) r \<le> get0 (l0_token_end a') r"
    "\<And>r e. e \<in> set (extents_of r ws) \<Longrightarrow> e \<le> get0 (l0_token_end a') r"
    by (rule mem_prepare_ready_shape [OF assms(1,2)]) blast
  have gb: "g' = settle a b g" by (simp add: g' settle_def newly_finished_def b(2))
  show "extents_inv a' (g'\<lparr>gh_extents := \<lambda>r. gh_extents g' r @ extents_of r ws\<rparr>)"
    if "extents_inv a g"
    using settles_extents [OF b(1) that] b(4-6)
    unfolding gb extents_inv_def by (auto intro: order_trans [OF _ b(5)])
  show "finish_inv a' (g'\<lparr>gh_extents := \<lambda>r. gh_extents g' r @ extents_of r ws\<rparr>)"
    if "finish_inv a g"
    using settles_finish [OF b(1) that] b(2,3) by (simp add: gb finish_inv_def)
qed

lemma mem_done_settles: "mem_done k a = (x, a') \<Longrightarrow> settles a a'"
  by (auto simp: mem_done_def Let_def split: if_splits
      intro: settles_same settles_cong [OF settles_flush])

lemma mem_finish_invs:
  assumes "mem_on_request_finished f a = (x, a')" "g' = settle a a' g"
  shows "extents_inv a g \<Longrightarrow> extents_inv a' (g'\<lparr>gh_finish_calls := gh_finish_calls g' @ [fin_req_id f]\<rparr>)"
    and "finish_inv a g \<Longrightarrow> finish_inv a' (g'\<lparr>gh_finish_calls := gh_finish_calls g' @ [fin_req_id f]\<rparr>)"
  using assms
  by (auto simp: mem_on_request_finished_def extents_inv_def finish_inv_def settle_def
      newly_finished_def split: if_splits)

lemma mem_commit_invs:
  assumes "mem_commit_write_extent r n a = (x, a')"
    "g' = g\<lparr>gh_extents := (gh_extents g)(r := tl (gh_extents g r))\<rparr>"
  shows "extents_inv a g \<Longrightarrow> extents_inv a' g'" and "finish_inv a g \<Longrightarrow> finish_inv a' g'"
proof -
  show "finish_inv a' g'" if "finish_inv a g"
    using that assms by (auto simp: mem_commit_write_extent_def Let_def finish_inv_def split: if_splits)
  assume inv: "extents_inv a g"
  have tl0: "tl (gh_extents g r) = []" if "get0 (prepares_since_commit a) r \<le> 1"
    using inv that unfolding extents_inv_def
    by (metis diff_is_0_eq length_0_conv length_tl of_nat_le_1_iff)
  show "extents_inv a' g'"
  proof (cases "1 < get0 (prepares_since_commit a) r")
    case True
    moreover have "py_len (gh_extents g r) = get0 (prepares_since_commit a) r"
      using inv by (simp add: extents_inv_def)
    ultimately obtain e es where "gh_extents g r = e # es"
      by (cases "gh_extents g r") auto
    then show ?thesis using True inv assms
      by (auto simp: mem_commit_write_extent_def Let_def extents_inv_def dest: spec [of _ r])
  next
    case False
    then show ?thesis using inv assms tl0
      by (auto simp: mem_commit_write_extent_def Let_def extents_inv_def split: option.splits)
  qed
qed

lemma mem_step_invs:
  "mem_step (a, g) (a', g') \<Longrightarrow> extents_inv a g \<and> finish_inv a g \<Longrightarrow> extents_inv a' g' \<and> finish_inv a' g'"
  by (erule mem_stepE)
    (auto simp: mem_ready_invs mem_finish_invs mem_commit_invs
      intro: settles_extents settles_finish mem_prepare_raise_settles mem_done_settles,
     auto simp: seed_local_prefix_def extents_inv_def finish_inv_def max_def intro: order_trans)

definition no_ghost :: mem_ghost where
  "no_ghost = \<lparr>gh_extents = \<lambda>_. [], gh_finish_calls = []\<rparr>"

lemma mem_reachable_invs:
  "mem_step\<^sup>*\<^sup>* (mem_init, no_ghost) (a, g) \<Longrightarrow> extents_inv a g \<and> finish_inv a g"
proof (induction "(a, g)" arbitrary: a g rule: rtranclp_induct)
  case base
  then show ?case
    by (simp add: extents_inv_def finish_inv_def no_ghost_def mem_init_def get0_def)
next
  case (step y)
  then show ?case by (cases y) (auto dest: mem_step_invs)
qed

end
