(* ===== verification/Pool_Iface.thy ===== *)
theory Pool_Iface
  imports Memory_History
begin

text \<open>
  The pool facade (\<^verbatim>\<open>engine/pool_iface.py\<close>): it turns a scheduler output into a prepare plan,
  calls the agent, counts calls and errors, validates the agent's ready handle and reports
  each finished request to the agent once. The agent is a parameter, given by its operations.
\<close>

record pool_stats =
  ps_prepare_calls :: int
  ps_done_calls :: int
  ps_commit_calls :: int
  ps_finish_calls :: int
  ps_duplicate_finish_calls :: int
  ps_error_calls :: int
  ps_last_error_code :: "pool_error_code option"

record 'a pool_iface =
  pi_agent :: 'a
  pi_pull_budget_ms :: int
  pi_allow_partial_hit :: bool
  pi_last_ready :: "ready_handle option"
  pi_finished_req_ids :: "string set"
  pi_stats :: pool_stats

definition pool_init :: "'a \<Rightarrow> int \<Rightarrow> bool \<Rightarrow> 'a pool_iface" where
  "pool_init a budget partial = \<lparr>pi_agent = a, pi_pull_budget_ms = budget,
     pi_allow_partial_hit = partial, pi_last_ready = None, pi_finished_req_ids = {},
     pi_stats = \<lparr>ps_prepare_calls = 0, ps_done_calls = 0, ps_commit_calls = 0,
       ps_finish_calls = 0, ps_duplicate_finish_calls = 0, ps_error_calls = 0,
       ps_last_error_code = None\<rparr>\<rparr>"

definition upd_pool_stats :: "(pool_stats \<Rightarrow> pool_stats) \<Rightarrow> 'a pool_iface \<Rightarrow> 'a pool_iface" where
  "upd_pool_stats f p = p\<lparr>pi_stats := f (pi_stats p)\<rparr>"

primrec code_of :: "agent_exn \<Rightarrow> pool_error_code" where
  "code_of (AE_Pool c) = c"
| "code_of AE_Other = DOWNSTREAM"

text \<open>\<^verbatim>\<open>_call_agent\<close>: store the agent the call left, count an exception and turn it into a
  \<^verbatim>\<open>PoolError\<close>.\<close>

definition call_agent ::
  "(agent_exn + 'r) \<times> 'a \<Rightarrow> 'a pool_iface \<Rightarrow> (pool_error_code + 'r) \<times> 'a pool_iface" where
  "call_agent res p =
    (case fst res of
       Inr r \<Rightarrow> (Inr r, p\<lparr>pi_agent := snd res\<rparr>)
     | Inl e \<Rightarrow> (Inl (code_of e),
         upd_pool_stats (\<lambda>s. s\<lparr>ps_error_calls := ps_error_calls s + 1,
           ps_last_error_code := Some (code_of e)\<rparr>) (p\<lparr>pi_agent := snd res\<rparr>)))"

definition probe_prefix ::
  "'a agent_ops \<Rightarrow> req \<Rightarrow> 'a pool_iface \<Rightarrow> (agent_exn + prefix_hint) \<times> 'a pool_iface" where
  "probe_prefix ops r p =
    (case ag_probe_local ops of
       Some probe \<Rightarrow>
         (let (computed, full) = probe (req_id r) (py_len (prompt_token_ids r)) (pi_agent p) in
          (Inr \<lparr>computed_tokens = computed, hint_reused_blocks = computed div 8,
                local_hit = 0 < computed, prebuilt = full\<rparr>, p))
     | None \<Rightarrow>
         (case ag_probe_prefix ops of
            Some probe \<Rightarrow> (let (x, a) = probe r (pi_agent p) in (x, p\<lparr>pi_agent := a\<rparr>))
          | None \<Rightarrow> (Inr default_prefix_hint, p)))"

definition plan_of :: "scheduler_output \<Rightarrow> 'a pool_iface \<Rightarrow> prepare_plan" where
  "plan_of out p = \<lparr>
     pp_step_id = step_id out, pp_forward_mode = fwd_mode out, pp_read_set = read_set out,
     pp_write_set = write_set out, pp_num_scheduled_tokens = num_scheduled_tokens out,
     pp_pull_budget_ms = pi_pull_budget_ms p, pp_allow_partial_hit = pi_allow_partial_hit p\<rparr>"

text \<open>The loop over one effective set: an ill-formed range or an unplanned request is a
  protocol error; otherwise the requests seen so far grow.\<close>

fun check_ios ::
  "string set \<Rightarrow> req_io_set list \<Rightarrow> string set \<Rightarrow> pool_error_code + string set" where
  "check_ios planned [] seen = Inr seen"
| "check_ios planned (io # ios) seen =
    (if token_end io < token_start io then Inl PROTOCOL_ERROR
     else if io_req_id io \<notin> planned then Inl PROTOCOL_ERROR
     else check_ios planned ios (insert (io_req_id io) seen))"

fun check_effective ::
  "string set \<Rightarrow> req_io_set list option list \<Rightarrow> bool \<Rightarrow> string set
    \<Rightarrow> pool_error_code + (bool \<times> string set)" where
  "check_effective planned [] has seen = Inr (has, seen)"
| "check_effective planned (None # rest) has seen = check_effective planned rest has seen"
| "check_effective planned (Some ios # rest) has seen =
     bind_res (check_ios planned ios seen) (check_effective planned rest True)"

definition validate_ready :: "bool \<Rightarrow> scheduler_output \<Rightarrow> ready_handle \<Rightarrow> pool_error_code + unit" where
  "validate_ready allow_partial out h =
    (if rh_step_id h \<noteq> step_id out then Inl PROTOCOL_ERROR
     else
       (let planned = set (dict_keys (num_scheduled_tokens out)) in
        bind_res (check_effective planned [effective_read_set h, effective_write_set h] False {})
          (\<lambda>(has, seen).
             if has \<and> \<not> allow_partial \<and> seen \<noteq> planned then Inl PROTOCOL_ERROR
             else if \<exists>r \<in> set (dict_keys (stats_by_req h)). r \<notin> planned then Inl PROTOCOL_ERROR
             else Inr ())))"

definition bind_reqs :: "'a agent_ops \<Rightarrow> (string \<rightharpoonup> req) \<Rightarrow> 'a \<Rightarrow> 'a" where
  "bind_reqs ops reqs a = (case ag_bind_host_reqs ops of None \<Rightarrow> a | Some b \<Rightarrow> b reqs a)"

definition pool_prepare_step ::
  "'a agent_ops \<Rightarrow> scheduler_output \<Rightarrow> (string \<rightharpoonup> req) \<Rightarrow> 'a pool_iface
    \<Rightarrow> (pool_error_code + ready_handle) \<times> 'a pool_iface" where
  "pool_prepare_step ops out reqs p =
    (let plan = plan_of out p;
         p1 = upd_pool_stats (\<lambda>s. s\<lparr>ps_prepare_calls := ps_prepare_calls s + 1\<rparr>)
                (p\<lparr>pi_agent := bind_reqs ops reqs (pi_agent p)\<rparr>);
         (x, p2) = call_agent (ag_prepare_step ops plan (pi_agent p1)) p1 in
     case x of
       Inl c \<Rightarrow> (Inl c, p2)
     | Inr h \<Rightarrow>
         (case validate_ready (pi_allow_partial_hit p2) out h of
            Inl c \<Rightarrow> (Inl c, p2)
          | Inr _ \<Rightarrow> (Inr h, p2\<lparr>pi_last_ready := Some h\<rparr>)))"

definition pool_done ::
  "'a agent_ops \<Rightarrow> int \<Rightarrow> 'a pool_iface \<Rightarrow> (pool_error_code + unit) \<times> 'a pool_iface" where
  "pool_done ops sid p =
    (let p1 = upd_pool_stats (\<lambda>s. s\<lparr>ps_done_calls := ps_done_calls s + 1\<rparr>) p;
         (x, p2) = call_agent (ag_done ops sid (pi_agent p1)) p1 in
     case x of Inl c \<Rightarrow> (Inl c, p2) | Inr _ \<Rightarrow> (Inr (), p2\<lparr>pi_last_ready := None\<rparr>))"

definition pool_on_request_finished ::
  "'a agent_ops \<Rightarrow> req \<Rightarrow> 'a pool_iface \<Rightarrow> (pool_error_code + unit) \<times> 'a pool_iface" where
  "pool_on_request_finished ops r p =
    (if req_id r \<in> pi_finished_req_ids p then
       (Inr (), upd_pool_stats
          (\<lambda>s. s\<lparr>ps_duplicate_finish_calls := ps_duplicate_finish_calls s + 1\<rparr>) p)
     else
       (let p1 = upd_pool_stats (\<lambda>s. s\<lparr>ps_finish_calls := ps_finish_calls s + 1\<rparr>) p;
            fin = \<lparr>fin_req_id = req_id r, fin_node_id = node_id r,
                   fin_model_id = served_model_name r\<rparr>;
            (x, p2) = call_agent (ag_on_request_finished ops fin (pi_agent p1)) p1 in
        case x of
          Inl c \<Rightarrow> (Inl c, p2)
        | Inr _ \<Rightarrow> (Inr (), p2\<lparr>pi_finished_req_ids := insert (req_id r) (pi_finished_req_ids p2)\<rparr>)))"

definition pool_commit_write_extent ::
  "'a agent_ops \<Rightarrow> string \<Rightarrow> int \<Rightarrow> 'a pool_iface \<Rightarrow> (pool_error_code + unit) \<times> 'a pool_iface" where
  "pool_commit_write_extent ops rid n p =
    (if n < 0 then (Inl INVALID_ARG, p)
     else (case ag_commit_write_extent ops of
        None \<Rightarrow> (Inr (), p)
      | Some commit \<Rightarrow>
          (let p1 = upd_pool_stats (\<lambda>s. s\<lparr>ps_commit_calls := ps_commit_calls s + 1\<rparr>) p in
           call_agent (commit rid n (pi_agent p1)) p1)))"

section \<open>What the facade guarantees\<close>

lemma upd_pool_stats_simps [simp]:
  "pi_agent (upd_pool_stats f p) = pi_agent p"
  "pi_finished_req_ids (upd_pool_stats f p) = pi_finished_req_ids p"
  "pi_allow_partial_hit (upd_pool_stats f p) = pi_allow_partial_hit p"
  "pi_pull_budget_ms (upd_pool_stats f p) = pi_pull_budget_ms p"
  "pi_last_ready (upd_pool_stats f p) = pi_last_ready p"
  "pi_stats (upd_pool_stats f p) = f (pi_stats p)"
  by (simp_all add: upd_pool_stats_def)

lemma call_agent_simps [simp]:
  "pi_agent (snd (call_agent res p)) = snd res"
  "pi_finished_req_ids (snd (call_agent res p)) = pi_finished_req_ids p"
  "pi_allow_partial_hit (snd (call_agent res p)) = pi_allow_partial_hit p"
  "pi_pull_budget_ms (snd (call_agent res p)) = pi_pull_budget_ms p"
  by (simp_all add: call_agent_def split: sum.splits)

lemma fst_call_agent:
  "fst (call_agent res p) = (case fst res of Inl e \<Rightarrow> Inl (code_of e) | Inr r \<Rightarrow> Inr r)"
  by (simp add: call_agent_def split: sum.splits)

lemma call_agent_ok: "fst (call_agent res p) = Inr r \<longleftrightarrow> fst res = Inr r"
  by (simp add: fst_call_agent split: sum.splits)

lemma check_ios_Inr_iff:
  "check_ios planned ios seen = Inr seen' \<longleftrightarrow>
     (\<forall>io \<in> set ios. token_start io \<le> token_end io \<and> io_req_id io \<in> planned)
     \<and> seen' = seen \<union> io_req_id ` set ios"
  by (induction ios arbitrary: seen) auto

definition effective_ios :: "ready_handle \<Rightarrow> req_io_set list" where
  "effective_ios h = concat (map (\<lambda>x. case x of None \<Rightarrow> [] | Some ios \<Rightarrow> ios)
     [effective_read_set h, effective_write_set h])"

lemma validate_ready_ok_iff:
  "validate_ready allow out h = Inr () \<longleftrightarrow>
     rh_step_id h = step_id out
     \<and> (\<forall>io \<in> set (effective_ios h).
          token_start io \<le> token_end io \<and> io_req_id io \<in> set (dict_keys (num_scheduled_tokens out)))
     \<and> (allow \<or> (effective_read_set h = None \<and> effective_write_set h = None)
          \<or> io_req_id ` set (effective_ios h) = set (dict_keys (num_scheduled_tokens out)))
     \<and> set (dict_keys (stats_by_req h)) \<subseteq> set (dict_keys (num_scheduled_tokens out))"
  by (cases "effective_read_set h"; cases "effective_write_set h")
    (auto simp: validate_ready_def Let_def effective_ios_def check_ios_Inr_iff bind_res_Inr_iff
      split: if_splits)

lemma pool_prepare_ok:
  assumes "fst (pool_prepare_step ops out reqs p) = Inr h"
  shows "validate_ready (pi_allow_partial_hit p) out h = Inr ()"
    and "fst (ag_prepare_step ops (plan_of out p) (bind_reqs ops reqs (pi_agent p))) = Inr h"
  using assms
  by (auto simp: pool_prepare_step_def Let_def call_agent_def split: sum.splits prod.splits)

lemma pool_prepare_agent:
  "pi_agent (snd (pool_prepare_step ops out reqs p)) =
     snd (ag_prepare_step ops (plan_of out p) (bind_reqs ops reqs (pi_agent p)))"
  by (auto simp: pool_prepare_step_def Let_def call_agent_def split: sum.splits prod.splits)

lemma pool_done_agent: "pi_agent (snd (pool_done ops k p)) = snd (ag_done ops k (pi_agent p))"
  by (auto simp: pool_done_def Let_def call_agent_def split: sum.splits prod.splits)

lemma pool_done_fst:
  "fst (pool_done ops k p) = (case fst (ag_done ops k (pi_agent p)) of
     Inl e \<Rightarrow> Inl (code_of e) | Inr _ \<Rightarrow> Inr ())"
  by (auto simp: pool_done_def Let_def call_agent_def split: sum.splits prod.splits)

context fenced_agent
begin

lemma bind_reqs_fence [simp]: "fence (bind_reqs ops reqs a) = fence a"
  by (auto simp: bind_reqs_def bind_fence split: option.splits)

lemma pool_prepare_fence:
  "fst (pool_prepare_step ops out reqs p) = Inr h \<Longrightarrow>
     fence (pi_agent p) = None \<and> fence (pi_agent (snd (pool_prepare_step ops out reqs p))) = Some (step_id out)"
  using prepare_ok_outside prepare_ready pool_prepare_ok(2) [of ops out reqs p h]
  by (fastforce simp: pool_prepare_agent plan_of_def)

lemma pool_prepare_inside:
  "fence (pi_agent p) = Some k \<Longrightarrow> fst (pool_prepare_step ops out reqs p) = Inl PROTOCOL_ERROR"
  using prepare_inside [of "bind_reqs ops reqs (pi_agent p)" k "plan_of out p"]
  by (simp add: pool_prepare_step_def Let_def call_agent_def split: sum.splits prod.splits)

lemma pool_done_fence:
  "fence (pi_agent p) = Some k \<Longrightarrow>
     fst (pool_done ops k p) = Inr () \<and> fence (pi_agent (snd (pool_done ops k p))) = None"
  using done_matching [of "pi_agent p" k] by (simp add: pool_done_fst pool_done_agent)

lemma pool_prepare_raise_cases:
  assumes "fst (pool_prepare_step ops out reqs p) = Inl c"
  shows "fence (pi_agent (snd (pool_prepare_step ops out reqs p))) = fence (pi_agent p) \<or>
    (\<exists>h. fst (ag_prepare_step ops (plan_of out p) (bind_reqs ops reqs (pi_agent p))) = Inr h
      \<and> validate_ready (pi_allow_partial_hit p) out h = Inl c)"
proof (cases "fst (ag_prepare_step ops (plan_of out p) (bind_reqs ops reqs (pi_agent p)))")
  case (Inl e)
  then show ?thesis using prepare_raise_fence [OF Inl] by (simp add: pool_prepare_agent)
next
  case (Inr h)
  then show ?thesis using assms
    by (auto simp: pool_prepare_step_def Let_def call_agent_def split: sum.splits prod.splits)
qed

text \<open>A ready handle the facade refuses: the agent's fence stays raised.\<close>

lemma pool_refused_fence:
  assumes "fst (ag_prepare_step ops (plan_of out p) (bind_reqs ops reqs (pi_agent p))) = Inr h"
    and "validate_ready (pi_allow_partial_hit p) out h = Inl c"
  shows "fst (pool_prepare_step ops out reqs p) = Inl c
     \<and> fence (pi_agent (snd (pool_prepare_step ops out reqs p))) = Some (step_id out)"
  using assms prepare_ready [OF assms(1)]
  by (auto simp: pool_prepare_step_def Let_def call_agent_def plan_of_def split: sum.splits prod.splits)

end

lemma pool_finish_ids:
  "fst (pool_on_request_finished ops r p) = Inr () \<Longrightarrow>
   req_id r \<in> pi_finished_req_ids (snd (pool_on_request_finished ops r p))"
  by (auto simp: pool_on_request_finished_def Let_def call_agent_def split: if_splits sum.splits prod.splits)

lemma pool_finish_again:
  "req_id r \<in> pi_finished_req_ids p \<Longrightarrow>
   fst (pool_on_request_finished ops r p) = Inr ()
   \<and> pi_agent (snd (pool_on_request_finished ops r p)) = pi_agent p"
  by (simp add: pool_on_request_finished_def)

end
