(* ===== verification/Node_Scheduler.thy ===== *)
theory Node_Scheduler
  imports Pool_Iface
begin

text \<open>
  The node scheduler (\<^verbatim>\<open>runtime/node_scheduler.py\<close>): host requests, continuous batching under a
  token budget, the batch that runs between the pool's ready and done fences, the processing
  of its result, and the two event loops. The storage agent, the executor and the callbacks
  of the worker engine are parameters, as the constructor takes them; the state is an
  extensible record, so that the worker engine extends it with its own fields.

  A raising operation returns the exception together with the state it leaves.
\<close>

section \<open>State and parameters\<close>

record model_runner_output =
  mro_step_id :: int
  next_token_ids :: "string \<rightharpoonup> int list"
  next_draft_tokens :: "string \<rightharpoonup> int list"
  mro_model_backend :: string

record batch_result =
  br_output :: scheduler_output
  br_runner_out :: model_runner_output
  br_ready :: ready_handle

datatype timeline_event = TL_execute | TL_process

datatype node_exn = NE_Pool pool_error_code | NE_Py py_exn

record 'a node =
  n_pool :: "'a pool_iface"
  n_role :: role_config
  n_reqs :: "string \<rightharpoonup> req"
  n_waiting :: "string list"
  n_running :: "string list"
  n_step_id :: int
  n_mock_remaining :: "string \<rightharpoonup> int list"
  n_inflight_decode :: "string \<rightharpoonup> int"
  n_future_map :: future_map
  n_result_queue :: "batch_result list"
  n_pending_drafts :: "string \<rightharpoonup> int list"
  n_timeline :: "(timeline_event \<times> int) list"

type_synonym executor =
  "scheduler_output \<Rightarrow> ready_handle \<Rightarrow> (string \<rightharpoonup> req) \<Rightarrow> py_exn + model_runner_output"

record ('a, 's) node_env =
  ne_ops :: "'a agent_ops"
  ne_exec :: executor
  ne_on_finished :: "(req \<Rightarrow> 's \<Rightarrow> 's) option"
  ne_before_schedule :: "('s \<Rightarrow> 's) option"
  ne_should_stop :: "('s \<Rightarrow> bool) option"

definition node_init :: "'a pool_iface \<Rightarrow> role_config \<Rightarrow> 'a node" where
  "node_init pool role = \<lparr>n_pool = pool, n_role = role, n_reqs = Map.empty, n_waiting = [],
     n_running = [], n_step_id = 0, n_mock_remaining = Map.empty,
     n_inflight_decode = Map.empty, n_future_map = fm_init, n_result_queue = [],
     n_pending_drafts = Map.empty, n_timeline = []\<rparr>"

definition mock_decode_tokens :: "int list \<Rightarrow> int \<Rightarrow> int list" where
  "mock_decode_tokens prompt max_new =
    (let seed = (if prompt = [] then 0 else last prompt) in
     map (\<lambda>i. (seed + i + 1) mod 1000 + 1000) [0 .. max_new - 1])"

definition use_runner_tokens :: "('a, 'm) node_scheme \<Rightarrow> bool" where
  "use_runner_tokens n \<longleftrightarrow> model_backend (n_role n) = ''qwen3''"

definition spec_enabled :: "('a, 'm) node_scheme \<Rightarrow> bool" where
  "spec_enabled n = False"

text \<open>\<^verbatim>\<open>d.get(k) or []\<close>.\<close>

definition get_list :: "('k \<rightharpoonup> 'v list) \<Rightarrow> 'k \<Rightarrow> 'v list" where
  "get_list m k = (case m k of None \<Rightarrow> [] | Some xs \<Rightarrow> xs)"

section \<open>Admission and release\<close>

definition admit_hint :: "prefix_hint option \<Rightarrow> req \<Rightarrow> req" where
  "admit_hint hint r = (case hint of
     None \<Rightarrow> r
   | Some h \<Rightarrow>
       (let r1 = apply_prefix_hint h r; k = py_len (prompt_token_ids r) in
        if full_local_hit h k then r1\<lparr>num_computed_tokens := k\<rparr> else r1))"

definition add_request ::
  "req \<Rightarrow> prefix_hint option \<Rightarrow> ('a, 'm) node_scheme \<Rightarrow> (node_exn + unit) \<times> ('a, 'm) node_scheme" where
  "add_request r hint n =
    (let mml = max_model_length (n_role n); max_new = max_new_tokens (req_sampling r) in
     if n_reqs n (req_id r) \<noteq> None then (Inl (NE_Py ValueError), n)
     else if 0 < mml \<and> mml < py_len (prompt_token_ids r) + max_new
     then (Inl (NE_Py ValueError), n)
     else (Inr (), n\<lparr>
       n_reqs := (n_reqs n)(req_id r \<mapsto> admit_hint hint r),
       n_waiting := n_waiting n @ [req_id r],
       n_mock_remaining := (n_mock_remaining n)(req_id r \<mapsto>
         (if model_backend (n_role n) = ''mock''
          then mock_decode_tokens (prompt_token_ids r) max_new else []))\<rparr>))"

definition has_work :: "('a, 'm) node_scheme \<Rightarrow> bool" where
  "has_work n \<longleftrightarrow> n_waiting n \<noteq> [] \<or> n_running n \<noteq> [] \<or> n_result_queue n \<noteq> []"

definition has_req :: "string \<Rightarrow> ('a, 'm) node_scheme \<Rightarrow> bool" where
  "has_req rid n \<longleftrightarrow> n_reqs n rid \<noteq> None"

definition release_req :: "string \<Rightarrow> ('a, 'm) node_scheme \<Rightarrow> req option \<times> ('a, 'm) node_scheme" where
  "release_req rid n = (n_reqs n rid, n\<lparr>n_reqs := (n_reqs n)(rid := None)\<rparr>)"

definition abandon_req :: "string \<Rightarrow> ('a, 'm) node_scheme \<Rightarrow> req option \<times> ('a, 'm) node_scheme" where
  "abandon_req rid n = (n_reqs n rid, n\<lparr>
     n_waiting := remove1 rid (n_waiting n),
     n_running := remove1 rid (n_running n),
     n_inflight_decode := (n_inflight_decode n)(rid := None),
     n_pending_drafts := (n_pending_drafts n)(rid := None),
     n_mock_remaining := (n_mock_remaining n)(rid := None),
     n_future_map := fm_clear rid (n_future_map n),
     n_reqs := (n_reqs n)(rid := None)\<rparr>)"

definition req_has_structured_output :: "req \<Rightarrow> bool" where
  "req_has_structured_output r \<longleftrightarrow>
     (case structured_output (req_sampling r) of None \<Rightarrow> False | Some s \<Rightarrow> s \<noteq> [])"

section \<open>Composing one step\<close>

record sched_acc =
  sa_new :: "new_request_data list"
  sa_cached :: cached_request_data
  sa_num :: "(string, int) dict"
  sa_read :: "req_io_set list"
  sa_write :: "req_io_set list"
  sa_modes :: "(string, forward_mode) dict"
  sa_computed_at :: "(string, int) dict"
  sa_qstart :: "(string, int) dict"
  sa_qend :: "(string, int) dict"
  sa_spec :: "(string, int list) dict"
  sa_budget :: int
  sa_inflight :: "string \<rightharpoonup> int"

definition acc_init :: "int \<Rightarrow> (string \<rightharpoonup> int) \<Rightarrow> sched_acc" where
  "acc_init budget infl = \<lparr>sa_new = [], sa_cached = empty_cached, sa_num = [], sa_read = [],
     sa_write = [], sa_modes = [], sa_computed_at = [], sa_qstart = [], sa_qend = [],
     sa_spec = [], sa_budget = budget, sa_inflight = infl\<rparr>"

text \<open>The loop that fills the running slots from the waiting queue, first in first out.\<close>

fun fill_running :: "int \<Rightarrow> string list \<Rightarrow> string list \<Rightarrow> string list \<times> string list" where
  "fill_running cap [] running = ([], running)"
| "fill_running cap (w # ws) running =
    (if py_len running < cap then fill_running cap ws (running @ [w]) else (w # ws, running))"

definition cached_append :: "string \<Rightarrow> int \<Rightarrow> int \<Rightarrow> cached_request_data \<Rightarrow> cached_request_data" where
  "cached_append rid c outs cr = cr\<lparr>
     cr_req_ids := cr_req_ids cr @ [rid],
     cr_num_computed_tokens := cr_num_computed_tokens cr @ [c],
     cr_num_output_tokens := cr_num_output_tokens cr @ [outs]\<rparr>"

text \<open>Tokens a request may still be scheduled for: against \<^verbatim>\<open>max_new_tokens\<close> when the runner
  produces the tokens, against the remaining mock tokens otherwise.\<close>

definition decode_left :: "('a, 'm) node_scheme \<Rightarrow> string \<Rightarrow> req \<Rightarrow> int \<Rightarrow> int" where
  "decode_left n rid r inflight =
    (if use_runner_tokens n
     then max_new_tokens (req_sampling r) - num_output_tokens r - inflight
     else py_len (get_list (n_mock_remaining n) rid) - inflight)"

text \<open>Room under \<^verbatim>\<open>max_model_length\<close>; without that limit the room never binds.\<close>

definition decode_room :: "('a, 'm) node_scheme \<Rightarrow> req \<Rightarrow> int \<Rightarrow> int \<Rightarrow> int \<Rightarrow> int" where
  "decode_room n r inflight budget left =
    (let mml = max_model_length (n_role n) in
     if 0 < mml then mml - (num_computed_tokens r + inflight) else budget + left)"

text \<open>One request in the generation pass; an unchanged accumulator is a \<^verbatim>\<open>continue\<close>.\<close>

definition pass_a_req ::
  "('a, 'm) node_scheme \<Rightarrow> string \<Rightarrow> req \<Rightarrow> sched_acc \<Rightarrow> sched_acc" where
  "pass_a_req n rid r acc =
    (let computed = num_computed_tokens r;
         inflight = get0 (sa_inflight acc) rid;
         left = decode_left n rid r inflight;
         pending = get_list (n_pending_drafts n) rid;
         query_start = max 0 (py_len (all_token_ids r) + inflight - 1);
         budget = sa_budget acc;
         room = decode_room n r inflight budget left;
         verify = spec_enabled n \<and> pending \<noteq> [];
         k = (if verify then min (min (min (py_len pending + 1) left) budget) room
              else min (min (min 1 left) budget) room) in
     if finished r \<or> computed < py_len (prompt_token_ids r) \<or> left \<le> 0
        \<or> room \<le> 0 \<or> k \<le> 0 then acc
     else acc\<lparr>
       sa_num := dict_set rid k (sa_num acc),
       sa_write := sa_write acc @ [io_set rid query_start (query_start + k)],
       sa_modes := dict_set rid (if verify then TARGET_VERIFY else DECODE) (sa_modes acc),
       sa_spec := (if verify then dict_set rid (py_take (k - 1) pending) (sa_spec acc)
                   else sa_spec acc),
       sa_inflight := (sa_inflight acc)(rid \<mapsto> inflight + k),
       sa_qstart := dict_set rid query_start (sa_qstart acc),
       sa_qend := dict_set rid (query_start + k) (sa_qend acc),
       sa_budget := budget - k,
       sa_computed_at := dict_set rid computed (sa_computed_at acc),
       sa_read := sa_read acc @ [io_set rid 0 query_start],
       sa_cached := cached_append rid (computed + inflight) (num_output_tokens r + inflight)
         (sa_cached acc)\<rparr>)"

text \<open>The passes over the running list; \<open>Inl\<close> is the accumulator at a \<^verbatim>\<open>KeyError\<close>.\<close>

fun pass_a ::
  "('a, 'm) node_scheme \<Rightarrow> string list \<Rightarrow> sched_acc \<Rightarrow> sched_acc + sched_acc" where
  "pass_a n [] acc = Inr acc"
| "pass_a n (rid # rids) acc =
    (if sa_budget acc \<le> 0 then Inr acc
     else (case n_reqs n rid of
        None \<Rightarrow> Inl acc
      | Some r \<Rightarrow> pass_a n rids (pass_a_req n rid r acc)))"

definition has_unprocessed_prompt :: "('a, 'm) node_scheme \<Rightarrow> string \<Rightarrow> int \<Rightarrow> bool" where
  "has_unprocessed_prompt n rid prompt_len \<longleftrightarrow>
     (\<exists>br \<in> set (n_result_queue n). rid \<in> set (dict_keys (num_scheduled_tokens (br_output br)))
        \<and> dict_get (req_num_computed_at_schedule (br_output br)) rid 0 < prompt_len)"

text \<open>The length of the next prompt chunk; not positive is a \<^verbatim>\<open>continue\<close>.\<close>

definition extend_size :: "('a, 'm) node_scheme \<Rightarrow> req \<Rightarrow> int \<Rightarrow> int" where
  "extend_size n r budget =
    (let computed = num_computed_tokens r;
         chunk_cap = long_prefill_token_threshold (n_role n);
         mml = max_model_length (n_role n);
         k0 = min (py_len (prompt_token_ids r) - computed) budget;
         k1 = (if 0 < chunk_cap then min k0 chunk_cap else k0) in
     if 0 < mml then min k1 (mml - computed) else k1)"

definition pass_b_req ::
  "('a, 'm) node_scheme \<Rightarrow> string \<Rightarrow> req \<Rightarrow> sched_acc \<Rightarrow> sched_acc" where
  "pass_b_req n rid r acc =
    (let prompt_len = py_len (prompt_token_ids r);
         computed = num_computed_tokens r;
         k = extend_size n r (sa_budget acc) in
     if finished r \<or> prompt_len \<le> computed \<or> has_unprocessed_prompt n rid prompt_len \<or> k \<le> 0
     then acc
     else
       (let fresh = (computed = 0 \<and> num_output_tokens r = 0) in acc\<lparr>
       sa_num := dict_set rid k (sa_num acc),
       sa_computed_at := dict_set rid computed (sa_computed_at acc),
       sa_read := (if 0 < computed then sa_read acc @ [io_set rid 0 computed] else sa_read acc),
       sa_write := sa_write acc @ [io_set rid computed (computed + k)],
       sa_new := (if fresh then sa_new acc @ [\<lparr>nr_req_id = rid,
            nr_prompt_token_ids = prompt_token_ids r, nr_sampling = req_sampling r,
            nr_num_computed_tokens = computed, lora_id = None\<rparr>] else sa_new acc),
       sa_cached := (if fresh then sa_cached acc
            else cached_append rid computed (num_output_tokens r) (sa_cached acc)),
       sa_modes := dict_set rid EXTEND (sa_modes acc),
       sa_qstart := dict_set rid computed (sa_qstart acc),
       sa_qend := dict_set rid (computed + k) (sa_qend acc),
       sa_budget := sa_budget acc - k\<rparr>))"

fun pass_b ::
  "('a, 'm) node_scheme \<Rightarrow> string list \<Rightarrow> sched_acc \<Rightarrow> sched_acc + sched_acc" where
  "pass_b n [] acc = Inr acc"
| "pass_b n (rid # rids) acc =
    (if sa_budget acc \<le> 0 then Inr acc
     else if rid \<in> set (dict_keys (sa_num acc)) then pass_b n rids acc
     else (case n_reqs n rid of
        None \<Rightarrow> Inl acc
      | Some r \<Rightarrow> pass_b n rids (pass_b_req n rid r acc)))"

definition batch_mode :: "forward_mode list \<Rightarrow> forward_mode" where
  "batch_mode modes =
    (if list_all (\<lambda>m. m = EXTEND) modes then EXTEND
     else if list_all (\<lambda>m. m = DECODE) modes then DECODE
     else if list_all (\<lambda>m. m = TARGET_VERIFY) modes then TARGET_VERIFY
     else MIXED)"

text \<open>\<^verbatim>\<open>{r: d[r] for r in keys}\<close> for keys that are all present.\<close>

definition dict_project :: "string list \<Rightarrow> (string, 'v) dict \<Rightarrow> (string, 'v) dict" where
  "dict_project ks d = map (\<lambda>r. (r, the (map_of d r))) ks"

definition build_output :: "('a, 'm) node_scheme \<Rightarrow> int \<Rightarrow> sched_acc \<Rightarrow> scheduler_output" where
  "build_output n sid acc =
    (let mode = batch_mode (dict_vals (sa_modes acc));
         keys = dict_keys (sa_num acc);
         can_graph = (mode \<in> {DECODE, TARGET_VERIFY} \<and>
           list_all (\<lambda>(r, k). k = 1 \<or> map_of (sa_modes acc) r = Some TARGET_VERIFY) (sa_num acc));
         structured = filter (\<lambda>rid. case n_reqs n rid of
            None \<Rightarrow> False | Some r \<Rightarrow> req_has_structured_output r) keys;
         grammar = (if structured = [] then None
            else Some \<lparr>go_req_ids = structured, token_bitmask_by_req = [],
                       deferred_req_ids = [], go_reason = []\<rparr>) in
     \<lparr>step_id = sid, fwd_mode = mode,
      scheduled_new_reqs = sa_new acc, scheduled_cached_reqs = sa_cached acc,
      num_scheduled_tokens = sa_num acc,
      total_num_scheduled_tokens = sum_list (dict_vals (sa_num acc)),
      read_set = sa_read acc, write_set = sa_write acc,
      global_num_tokens = None, can_run_graph = Some can_graph,
      scheduled_spec_decode_tokens = (if sa_spec acc = [] then None else Some (sa_spec acc)),
      has_structured_output = (grammar \<noteq> None), grammar_out = grammar,
      req_forward_modes = sa_modes acc,
      req_num_computed_at_schedule = dict_project keys (sa_computed_at acc),
      req_query_start = dict_project keys (sa_qstart acc),
      req_query_end = dict_project keys (sa_qend acc)\<rparr>)"

definition sched_passes :: "('a, 'm) node_scheme \<Rightarrow> sched_acc + sched_acc" where
  "sched_passes n =
    bind_res (pass_a n (n_running n)
        (acc_init (max 0 (max_num_scheduled_tokens (n_role n))) (n_inflight_decode n)))
      (pass_b n (n_running n))"

definition begin_step :: "('a, 'm) node_scheme \<Rightarrow> ('a, 'm) node_scheme" where
  "begin_step n =
    (let (w, r) = fill_running (max_running_reqs (n_role n)) (n_waiting n) (n_running n) in
     n\<lparr>n_step_id := n_step_id n + 1, n_waiting := w, n_running := r\<rparr>)"

definition schedule ::
  "('a, 'm) node_scheme \<Rightarrow> (node_exn + scheduler_output) \<times> ('a, 'm) node_scheme" where
  "schedule n =
    (let n1 = begin_step n; idle = mk_scheduler_output (n_step_id n1) FM_IDLE in
     if n_running n1 = [] then (Inr idle, n1)
     else (case sched_passes n1 of
        Inl acc \<Rightarrow> (Inl (NE_Py KeyError), n1\<lparr>n_inflight_decode := sa_inflight acc\<rparr>)
      | Inr acc \<Rightarrow>
          (let n2 = n1\<lparr>n_inflight_decode := sa_inflight acc\<rparr> in
           if sa_num acc = [] then (Inr idle, n2)
           else (Inr (build_output n2 (n_step_id n1) acc), n2))))"

section \<open>Running one batch\<close>

definition keep_keys :: "string set \<Rightarrow> (string, 'v) dict \<Rightarrow> (string, 'v) dict" where
  "keep_keys keep d = filter (\<lambda>(r, v). r \<in> keep) d"

text \<open>The entries of a list parallel to \<open>ids\<close> whose id is kept; a short list is read as far
  as it goes.\<close>

definition keep_parallel :: "string set \<Rightarrow> string list \<Rightarrow> 'v list \<Rightarrow> 'v list" where
  "keep_parallel keep ids vs = map snd (filter (\<lambda>(r, v). r \<in> keep) (zip ids vs))"

definition filter_grammar_output :: "grammar_output option \<Rightarrow> string set \<Rightarrow> grammar_output option" where
  "filter_grammar_output g keep = (case g of
     None \<Rightarrow> None
   | Some g \<Rightarrow>
       (let ids = filter (\<lambda>r. r \<in> keep) (go_req_ids g);
            masks = keep_keys keep (token_bitmask_by_req g);
            deferred = filter (\<lambda>r. r \<in> keep) (deferred_req_ids g) in
        if ids = [] \<and> masks = [] \<and> deferred = [] then None
        else Some \<lparr>go_req_ids = ids, token_bitmask_by_req = masks,
                   deferred_req_ids = deferred, go_reason = go_reason g\<rparr>))"

definition filter_output ::
  "scheduler_output \<Rightarrow> string set \<Rightarrow> req_io_set list \<Rightarrow> req_io_set list \<Rightarrow> scheduler_output" where
  "filter_output out keep eff_r eff_w =
    (let num = keep_keys keep (num_scheduled_tokens out);
         old = scheduled_cached_reqs out;
         modes = keep_keys keep (req_forward_modes out);
         spec = (case scheduled_spec_decode_tokens out of
            None \<Rightarrow> None
          | Some d \<Rightarrow> (let d' = keep_keys keep d in if d' = [] then None else Some d'));
         grammar = filter_grammar_output (grammar_out out) keep in
     \<lparr>step_id = step_id out, fwd_mode = batch_mode (dict_vals modes),
      scheduled_new_reqs = filter (\<lambda>r. nr_req_id r \<in> keep) (scheduled_new_reqs out),
      scheduled_cached_reqs = \<lparr>
        cr_req_ids = filter (\<lambda>r. r \<in> keep) (cr_req_ids old),
        cr_num_computed_tokens = keep_parallel keep (cr_req_ids old) (cr_num_computed_tokens old),
        cr_num_output_tokens = keep_parallel keep (cr_req_ids old) (cr_num_output_tokens old),
        cr_new_token_ids = None\<rparr>,
      num_scheduled_tokens = num,
      total_num_scheduled_tokens = sum_list (dict_vals num),
      read_set = filter (\<lambda>io. io_req_id io \<in> keep) eff_r,
      write_set = filter (\<lambda>io. io_req_id io \<in> keep) eff_w,
      global_num_tokens = global_num_tokens out, can_run_graph = can_run_graph out,
      scheduled_spec_decode_tokens = spec,
      has_structured_output = (grammar \<noteq> None), grammar_out = grammar,
      req_forward_modes = modes,
      req_num_computed_at_schedule = keep_keys keep (req_num_computed_at_schedule out),
      req_query_start = keep_keys keep (req_query_start out),
      req_query_end = keep_keys keep (req_query_end out)\<rparr>)"

definition rollback_inflight ::
  "scheduler_output \<Rightarrow> string set \<Rightarrow> (string \<rightharpoonup> int) \<Rightarrow> string \<rightharpoonup> int" where
  "rollback_inflight out dropped infl rid =
    (let k = dict_get (num_scheduled_tokens out) rid 0 in
     if rid \<in> dropped \<and> k \<noteq> 0 then Some (max 0 (get0 infl rid - k)) else infl rid)"

definition respect_effective_sets ::
  "scheduler_output \<Rightarrow> ready_handle \<Rightarrow> ('a, 'm) node_scheme \<Rightarrow> scheduler_output \<times> ('a, 'm) node_scheme" where
  "respect_effective_sets out ready n =
    (if effective_read_set ready = None \<and> effective_write_set ready = None then (out, n)
     else
       (let eff_r = (case effective_read_set ready of None \<Rightarrow> read_set out | Some ios \<Rightarrow> ios);
            eff_w = (case effective_write_set ready of None \<Rightarrow> write_set out | Some ios \<Rightarrow> ios);
            keep = io_req_id ` set eff_r \<union> io_req_id ` set eff_w;
            dropped = set (dict_keys (num_scheduled_tokens out)) - keep in
        if dropped = {} then (out, n)
        else
          (let n1 = n\<lparr>n_inflight_decode := rollback_inflight out dropped (n_inflight_decode n)\<rparr> in
           if keep_keys keep (num_scheduled_tokens out) = []
           then (mk_scheduler_output (step_id out) FM_IDLE, n1)
           else (filter_output out keep eff_r eff_w, n1))))"

definition run_batch ::
  "('a, ('a, 'm) node_scheme) node_env \<Rightarrow> scheduler_output \<Rightarrow> ('a, 'm) node_scheme
    \<Rightarrow> (node_exn + unit) \<times> ('a, 'm) node_scheme" where
  "run_batch env out n =
    (let (x, pool1) = pool_prepare_step (ne_ops env) out (n_reqs n) (n_pool n);
         n1 = n\<lparr>n_pool := pool1\<rparr> in
     case x of
       Inl c \<Rightarrow> (Inl (NE_Pool c), n1)
     | Inr ready \<Rightarrow>
         (let (out', n2) = respect_effective_sets out ready n1;
              n3 = n2\<lparr>n_timeline := n_timeline n2 @ [(TL_execute, step_id out')]\<rparr>;
              res = ne_exec env out' ready (n_reqs n3);
              (d, pool2) = pool_done (ne_ops env) (step_id out') (n_pool n3);
              n4 = n3\<lparr>n_pool := pool2\<rparr> in
          case d of
            Inl c \<Rightarrow> (Inl (NE_Pool c), n4)
          | Inr _ \<Rightarrow>
              (case res of
                 Inl e \<Rightarrow> (Inl (NE_Py e), n4)
               | Inr ro \<Rightarrow> (Inr (), n4\<lparr>n_result_queue := n_result_queue n4 @
                   [\<lparr>br_output = out', br_runner_out = ro, br_ready = ready\<rparr>]\<rparr>))))"

section \<open>Processing a result\<close>

definition set_req :: "string \<Rightarrow> req \<Rightarrow> ('a, 'm) node_scheme \<Rightarrow> ('a, 'm) node_scheme" where
  "set_req rid r n = n\<lparr>n_reqs := (n_reqs n)(rid \<mapsto> r)\<rparr>"

definition apply_stat :: "string \<times> step_stats \<Rightarrow> ('a, 'm) node_scheme \<Rightarrow> ('a, 'm) node_scheme" where
  "apply_stat s n =
    (case n_reqs n (fst s) of
       None \<Rightarrow> n
     | Some r \<Rightarrow>
         if st_prefill_blocks (snd s) \<noteq> 0 then
           set_req (fst s) (r\<lparr>prefill_blocks := st_prefill_blocks (snd s),
             reused_blocks := st_reused_blocks (snd s)\<rparr>) n
         else n)"

definition apply_ready_stats :: "ready_handle \<Rightarrow> ('a, 'm) node_scheme \<Rightarrow> ('a, 'm) node_scheme" where
  "apply_ready_stats ready n = fold apply_stat (stats_by_req ready) n"

definition finish_req ::
  "('a, ('a, 'm) node_scheme) node_env \<Rightarrow> string \<Rightarrow> ('a, 'm) node_scheme
    \<Rightarrow> (node_exn + unit) \<times> ('a, 'm) node_scheme" where
  "finish_req env rid n =
    (case n_reqs n rid of
       None \<Rightarrow> (Inl (NE_Py KeyError), n)
     | Some r \<Rightarrow>
         (let n1 = n\<lparr>
            n_running := remove1 rid (n_running n),
            n_inflight_decode := (n_inflight_decode n)(rid := None),
            n_pending_drafts := (n_pending_drafts n)(rid := None),
            n_future_map := fm_clear rid (n_future_map n)\<rparr>;
              (x, pool) = pool_on_request_finished (ne_ops env) r (n_pool n1);
              n2 = n1\<lparr>n_pool := pool\<rparr> in
          case x of
            Inl c \<Rightarrow> (Inl (NE_Pool c), n2)
          | Inr _ \<Rightarrow> (Inr (), (case ne_on_finished env of None \<Rightarrow> n2 | Some f \<Rightarrow> f r n2))))"

text \<open>Commit the write extent of a request through the pool.\<close>

definition commit_extent ::
  "('a, 's) node_env \<Rightarrow> string \<Rightarrow> int \<Rightarrow> ('a, 'm) node_scheme
    \<Rightarrow> (node_exn + unit) \<times> ('a, 'm) node_scheme" where
  "commit_extent env rid k n =
    (let (x, pool) = pool_commit_write_extent (ne_ops env) rid k (n_pool n) in
     (case x of Inl c \<Rightarrow> Inl (NE_Pool c) | Inr _ \<Rightarrow> Inr (), n\<lparr>n_pool := pool\<rparr>))"

text \<open>Sequencing of two operations that may raise.\<close>

definition then_do ::
  "('e + unit) \<times> 's \<Rightarrow> ('s \<Rightarrow> ('e + unit) \<times> 's) \<Rightarrow> ('e + unit) \<times> 's" where
  "then_do m f = (case fst m of Inl e \<Rightarrow> m | Inr _ \<Rightarrow> f (snd m))"

definition process_prompt ::
  "('a, ('a, 'm) node_scheme) node_env \<Rightarrow> model_runner_output \<Rightarrow> string \<Rightarrow> req \<Rightarrow> int \<Rightarrow> int
    \<Rightarrow> ('a, 'm) node_scheme \<Rightarrow> (node_exn + unit) \<times> ('a, 'm) node_scheme" where
  "process_prompt env ro rid r computed_before k n =
    (let prompt_len = py_len (prompt_token_ids r);
         r1 = r\<lparr>num_computed_tokens := min prompt_len (computed_before + k)\<rparr>;
         drafts = get_list (next_draft_tokens ro) rid in
     then_do (commit_extent env rid (num_computed_tokens r1) (set_req rid r1 n))
       (\<lambda>n1. (Inr (),
          if prompt_len \<le> num_computed_tokens r1 \<and> drafts \<noteq> []
          then n1\<lparr>n_pending_drafts := (n_pending_drafts n1)(rid \<mapsto> drafts)\<rparr> else n1)))"

text \<open>The request with \<open>toks\<close> appended to its output.\<close>

definition push_tokens :: "int list \<Rightarrow> req \<Rightarrow> req" where
  "push_tokens toks r = r\<lparr>output_token_ids := output_token_ids r @ toks,
     num_computed_tokens := num_computed_tokens r + py_len toks\<rparr>"

definition produced_tokens ::
  "model_runner_output \<Rightarrow> string \<Rightarrow> req \<Rightarrow> ('a, 'm) node_scheme \<Rightarrow> int list" where
  "produced_tokens ro rid r n =
    (if use_runner_tokens n then
       (let ps = get_list (next_token_ids ro) rid;
            left = max_new_tokens (req_sampling r) - num_output_tokens r in
        if left < py_len ps then py_take left ps else ps)
     else (case get_list (n_mock_remaining n) rid of [] \<Rightarrow> [] | t # ts \<Rightarrow> [t]))"

definition stash_last :: "string \<Rightarrow> int list \<Rightarrow> future_map \<Rightarrow> future_map" where
  "stash_last rid toks f = (if toks = [] then f else fm_stash rid (last toks) f)"

text \<open>The bookkeeping of a generation step before its extent is committed.\<close>

definition record_tokens ::
  "model_runner_output \<Rightarrow> string \<Rightarrow> req \<Rightarrow> int list option \<Rightarrow> int \<Rightarrow> ('a, 'm) node_scheme
    \<Rightarrow> ('a, 'm) node_scheme" where
  "record_tokens ro rid r spec k n =
    (let toks = produced_tokens ro rid r n in
     (set_req rid (push_tokens toks r) n)\<lparr>
       n_inflight_decode := (n_inflight_decode n)(rid \<mapsto> max 0 (get0 (n_inflight_decode n) rid - k)),
       n_pending_drafts := (if spec \<noteq> None then (n_pending_drafts n)(rid := None)
                            else n_pending_drafts n),
       n_mock_remaining := (if use_runner_tokens n \<or> toks = [] then n_mock_remaining n
         else (n_mock_remaining n)(rid \<mapsto> tl (get_list (n_mock_remaining n) rid))),
       n_future_map := stash_last rid toks (n_future_map n)\<rparr>)"

text \<open>After the commit: keep the next drafts, and finish a request that has all its tokens.\<close>

definition keep_drafts ::
  "model_runner_output \<Rightarrow> string \<Rightarrow> req \<Rightarrow> ('a, 'm) node_scheme \<Rightarrow> ('a, 'm) node_scheme" where
  "keep_drafts ro rid r n =
    (if use_runner_tokens n \<and> get_list (next_draft_tokens ro) rid \<noteq> [] \<and> \<not> finished r
     then n\<lparr>n_pending_drafts := (n_pending_drafts n)(rid \<mapsto> get_list (next_draft_tokens ro) rid)\<rparr>
     else n)"

definition finish_if_done ::
  "('a, ('a, 'm) node_scheme) node_env \<Rightarrow> string \<Rightarrow> req \<Rightarrow> ('a, 'm) node_scheme
    \<Rightarrow> (node_exn + unit) \<times> ('a, 'm) node_scheme" where
  "finish_if_done env rid r n =
    (if max_new_tokens (req_sampling r) \<le> num_output_tokens r
     then finish_req env rid (set_req rid (r\<lparr>finished := True, finish_reason := Some ''length''\<rparr>) n)
     else (Inr (), n))"

definition process_decode ::
  "('a, ('a, 'm) node_scheme) node_env \<Rightarrow> model_runner_output \<Rightarrow> string \<Rightarrow> req \<Rightarrow> int list option
    \<Rightarrow> int \<Rightarrow> ('a, 'm) node_scheme \<Rightarrow> (node_exn + unit) \<times> ('a, 'm) node_scheme" where
  "process_decode env ro rid r spec k n =
    (let r1 = push_tokens (produced_tokens ro rid r n) r in
     then_do (commit_extent env rid (py_len (all_token_ids r1)) (record_tokens ro rid r spec k n))
       (\<lambda>n2. finish_if_done env rid r1 (keep_drafts ro rid r1 n2)))"

definition process_one ::
  "('a, ('a, 'm) node_scheme) node_env \<Rightarrow> scheduler_output \<Rightarrow> model_runner_output \<Rightarrow> string \<times> int
    \<Rightarrow> ('a, 'm) node_scheme \<Rightarrow> (node_exn + unit) \<times> ('a, 'm) node_scheme" where
  "process_one env out ro e n =
    (case n_reqs n (fst e) of
       None \<Rightarrow> (Inr (), n)
     | Some r \<Rightarrow>
         (let computed_before =
                dict_get (req_num_computed_at_schedule out) (fst e) (num_computed_tokens r);
              spec = (case scheduled_spec_decode_tokens out of
                 None \<Rightarrow> None | Some d \<Rightarrow> map_of d (fst e)) in
          if computed_before < py_len (prompt_token_ids r)
          then process_prompt env ro (fst e) r computed_before (snd e) n
          else process_decode env ro (fst e) r spec (snd e) n))"

primrec process_items ::
  "('a, ('a, 'm) node_scheme) node_env \<Rightarrow> scheduler_output \<Rightarrow> model_runner_output
    \<Rightarrow> (string \<times> int) list \<Rightarrow> ('a, 'm) node_scheme \<Rightarrow> (node_exn + unit) \<times> ('a, 'm) node_scheme" where
  "process_items env out ro [] n = (Inr (), n)"
| "process_items env out ro (e # es) n =
    then_do (process_one env out ro e n) (process_items env out ro es)"

definition process_batch_result ::
  "('a, ('a, 'm) node_scheme) node_env \<Rightarrow> scheduler_output \<Rightarrow> model_runner_output
    \<Rightarrow> ('a, 'm) node_scheme \<Rightarrow> (node_exn + unit) \<times> ('a, 'm) node_scheme" where
  "process_batch_result env out ro n = process_items env out ro (num_scheduled_tokens out) n"

definition pop_and_process ::
  "('a, ('a, 'm) node_scheme) node_env \<Rightarrow> ('a, 'm) node_scheme
    \<Rightarrow> (node_exn + unit) \<times> ('a, 'm) node_scheme" where
  "pop_and_process env n =
    (case n_result_queue n of
       [] \<Rightarrow> (Inr (), n)
     | b # bs \<Rightarrow>
         (let n1 = n\<lparr>n_result_queue := bs,
                     n_timeline := n_timeline n @ [(TL_process, step_id (br_output b))]\<rparr>;
              n2 = apply_ready_stats (br_ready b) n1 in
          then_do (process_batch_result env (br_output b) (br_runner_out b) n2)
            (\<lambda>n3. (Inr (), n3\<lparr>n_future_map := fm_publish (n_future_map n3)\<rparr>))))"

text \<open>\<^verbatim>\<open>_drain_results\<close>: processing never adds to the queue, so the loop runs once per entry.\<close>

primrec drain_times ::
  "nat \<Rightarrow> ('a, ('a, 'm) node_scheme) node_env \<Rightarrow> ('a, 'm) node_scheme
    \<Rightarrow> (node_exn + unit) \<times> ('a, 'm) node_scheme" where
  "drain_times 0 env n = (Inr (), n)"
| "drain_times (Suc k) env n = then_do (pop_and_process env n) (drain_times k env)"

definition drain_results ::
  "('a, ('a, 'm) node_scheme) node_env \<Rightarrow> ('a, 'm) node_scheme
    \<Rightarrow> (node_exn + unit) \<times> ('a, 'm) node_scheme" where
  "drain_results env n = drain_times (length (n_result_queue n)) env n"

section \<open>The event loops\<close>

definition stop_requested :: "('a, 's) node_env \<Rightarrow> 's \<Rightarrow> bool" where
  "stop_requested env n = (case ne_should_stop env of None \<Rightarrow> False | Some f \<Rightarrow> f n)"

definition run_before_schedule :: "('a, 's) node_env \<Rightarrow> 's \<Rightarrow> 's" where
  "run_before_schedule env n = (case ne_before_schedule env of None \<Rightarrow> n | Some f \<Rightarrow> f n)"

text \<open>What one turn of a loop decides: leave the loop, raise, or turn again.\<close>

datatype 's turn = Leave 's | Raise node_exn 's | Again 's

definition turn_of :: "(node_exn + unit) \<times> 's \<Rightarrow> ('s \<Rightarrow> 's turn) \<Rightarrow> 's turn" where
  "turn_of m f = (case fst m of Inl e \<Rightarrow> Raise e (snd m) | Inr _ \<Rightarrow> f (snd m))"

definition normal_turn ::
  "('a, ('a, 'm) node_scheme) node_env \<Rightarrow> ('a, 'm) node_scheme \<Rightarrow> ('a, 'm) node_scheme turn" where
  "normal_turn env n =
    (if \<not> has_work n then Leave n
     else if stop_requested env n then Leave n
     else
       (let (x, n1) = schedule (run_before_schedule env n) in
        case x of
          Inl e \<Rightarrow> Raise e n1
        | Inr out \<Rightarrow>
            if total_num_scheduled_tokens out = 0 then
              turn_of (drain_results env n1) (\<lambda>n2.
                if n_waiting n2 = [] \<and> n_running n2 = [] then Leave n2
                else if stop_requested env n2 then Leave n2
                else Again n2)
            else turn_of (then_do (run_batch env out n1) (pop_and_process env)) Again))"

definition should_disable_overlap :: "('a, 'm) node_scheme \<Rightarrow> bool" where
  "should_disable_overlap n \<longleftrightarrow> n_result_queue n \<noteq> [] \<and>
     (\<exists>rid \<in> set (n_running n). case n_reqs n rid of
        None \<Rightarrow> False
      | Some r \<Rightarrow> \<not> finished r \<and> py_len (prompt_token_ids r) \<le> num_computed_tokens r
          \<and> get_list (n_pending_drafts n) rid \<noteq> [] \<and> req_has_structured_output r)"

text \<open>The part of an overlap turn after the optional drain.\<close>

definition overlap_step ::
  "('a, ('a, 'm) node_scheme) node_env \<Rightarrow> bool \<Rightarrow> ('a, 'm) node_scheme \<Rightarrow> ('a, 'm) node_scheme turn" where
  "overlap_step env disable n1 =
    (let (x, n2) = schedule n1 in
     case x of
       Inl e \<Rightarrow> Raise e n2
     | Inr out \<Rightarrow>
         if total_num_scheduled_tokens out = 0 then
           turn_of (drain_results env n2) (\<lambda>n3.
             if \<not> has_work n3 then Leave n3
             else if stop_requested env n3 then Leave n3
             else Again n3)
         else
           turn_of (run_batch env out n2) (\<lambda>n3.
             turn_of (if \<not> disable \<and> 1 < length (n_result_queue n3)
                      then pop_and_process env n3 else (Inr (), n3)) Again))"

definition overlap_turn ::
  "('a, ('a, 'm) node_scheme) node_env \<Rightarrow> ('a, 'm) node_scheme \<Rightarrow> ('a, 'm) node_scheme turn" where
  "overlap_turn env n =
    (if stop_requested env n then Leave n
     else
       (let n0 = run_before_schedule env n; disable = should_disable_overlap n0 in
        turn_of (if disable then drain_results env n0 else (Inr (), n0)) (overlap_step env disable)))"

text \<open>The loops with fuel: \<open>None\<close> is a loop that has not ended after \<open>fuel\<close> turns.\<close>

primrec loop_turns :: "nat \<Rightarrow> ('s \<Rightarrow> 's turn) \<Rightarrow> 's \<Rightarrow> ((node_exn + unit) \<times> 's) option" where
  "loop_turns 0 f n = None"
| "loop_turns (Suc fuel) f n = (case f n of
     Leave n' \<Rightarrow> Some (Inr (), n')
   | Raise e n' \<Rightarrow> Some (Inl e, n')
   | Again n' \<Rightarrow> loop_turns fuel f n')"

definition event_loop_normal ::
  "nat \<Rightarrow> ('a, ('a, 'm) node_scheme) node_env \<Rightarrow> ('a, 'm) node_scheme
    \<Rightarrow> ((node_exn + unit) \<times> ('a, 'm) node_scheme) option" where
  "event_loop_normal fuel env n = loop_turns fuel (normal_turn env) n"

definition event_loop_overlap ::
  "nat \<Rightarrow> ('a, ('a, 'm) node_scheme) node_env \<Rightarrow> ('a, 'm) node_scheme
    \<Rightarrow> ((node_exn + unit) \<times> ('a, 'm) node_scheme) option" where
  "event_loop_overlap fuel env n =
     map_option (\<lambda>m. then_do m (drain_results env)) (loop_turns fuel (overlap_turn env) n)"

definition run_until_idle ::
  "nat \<Rightarrow> ('a, ('a, 'm) node_scheme) node_env \<Rightarrow> ('a, 'm) node_scheme
    \<Rightarrow> ((node_exn + unit) \<times> ('a, 'm) node_scheme) option" where
  "run_until_idle fuel env n =
     (if enable_overlap (n_role n) then event_loop_overlap fuel env n
      else event_loop_normal fuel env n)"

definition build_req_from_generate ::
  "string \<Rightarrow> string \<Rightarrow> int list \<Rightarrow> int \<Rightarrow> string \<Rightarrow> py_exn + req" where
  "build_req_from_generate rid model prompt max_new node =
    (if model = [] then Inl ValueError
     else Inr \<lparr>req_id = rid, served_model_name = model, prompt_token_ids = prompt,
       req_sampling = \<lparr>max_new_tokens = (if max_new = 0 then 4 else max_new),
         temperature = (1, 0), structured_output = None\<rparr>,
       node_id = node, num_computed_tokens = 0, output_token_ids = [], reused_blocks = 0,
       prefill_blocks = 0, finished = False, finish_reason = None, req_exec_mode = COLOCATED\<rparr>)"

end
