(* ===== verification/Node_Geometry.thy ===== *)
theory Node_Geometry
  imports Node_Scheduler
begin

text \<open>
  What one call of \<open>schedule\<close> decides. The accumulator of the two passes is represented by a
  list of abstract entries, one per scheduled request; every dictionary and io set of the
  scheduler output is a projection of that list, and each entry satisfies the guards under
  which the code admits it.
\<close>

record sched_entry =
  se_rid :: string
  se_k :: int
  se_mode :: forward_mode
  se_computed :: int
  se_qs :: int

abbreviation se_sum :: "sched_entry list \<Rightarrow> int" where
  "se_sum es \<equiv> sum_list (map se_k es)"

definition se_decode :: "string \<Rightarrow> sched_entry list \<Rightarrow> int" where
  "se_decode rid es = sum_list (map (\<lambda>e. if se_rid e = rid \<and> se_mode e = DECODE then se_k e else 0) es)"

definition se_write :: "sched_entry \<Rightarrow> req_io_set" where
  "se_write e = io_set (se_rid e) (se_qs e) (se_qs e + se_k e)"

definition se_reads :: "sched_entry list \<Rightarrow> req_io_set list" where
  "se_reads es = map (\<lambda>e. io_set (se_rid e) 0 (se_qs e)) (filter (\<lambda>e. se_mode e = DECODE \<or> 0 < se_qs e) es)"

definition acc_repr :: "(string \<rightharpoonup> int) \<Rightarrow> int \<Rightarrow> sched_entry list \<Rightarrow> sched_acc \<Rightarrow> bool" where
  "acc_repr infl B es acc \<longleftrightarrow>
     sa_num acc = map (\<lambda>e. (se_rid e, se_k e)) es
   \<and> sa_modes acc = map (\<lambda>e. (se_rid e, se_mode e)) es
   \<and> sa_computed_at acc = map (\<lambda>e. (se_rid e, se_computed e)) es
   \<and> sa_qstart acc = map (\<lambda>e. (se_rid e, se_qs e)) es
   \<and> sa_qend acc = map (\<lambda>e. (se_rid e, se_qs e + se_k e)) es
   \<and> sa_write acc = map se_write es
   \<and> sa_read acc = se_reads es
   \<and> sa_budget acc = B - se_sum es
   \<and> (\<forall>rid. get0 (sa_inflight acc) rid = get0 infl rid + se_decode rid es)"

text \<open>The guards of the code, per entry, over the state at the start of the passes.\<close>

definition decode_ok :: "('a, 'm) node_scheme \<Rightarrow> (string \<rightharpoonup> int) \<Rightarrow> sched_entry \<Rightarrow> req \<Rightarrow> bool" where
  "decode_ok n infl e r \<longleftrightarrow>
     se_mode e = DECODE \<and> se_k e = 1 \<and> py_len (prompt_token_ids r) \<le> num_computed_tokens r
   \<and> 0 < decode_left n (se_rid e) r (get0 infl (se_rid e))
   \<and> se_qs e = max 0 (py_len (all_token_ids r) + get0 infl (se_rid e) - 1)
   \<and> (0 < max_model_length (n_role n) \<longrightarrow>
        num_computed_tokens r + get0 infl (se_rid e) < max_model_length (n_role n))"

definition extend_ok :: "('a, 'm) node_scheme \<Rightarrow> sched_entry \<Rightarrow> req \<Rightarrow> bool" where
  "extend_ok n e r \<longleftrightarrow>
     se_mode e = EXTEND \<and> 0 < se_k e \<and> se_qs e = num_computed_tokens r
   \<and> num_computed_tokens r + se_k e \<le> py_len (prompt_token_ids r)
   \<and> \<not> has_unprocessed_prompt n (se_rid e) (py_len (prompt_token_ids r))
   \<and> (0 < long_prefill_token_threshold (n_role n) \<longrightarrow> se_k e \<le> long_prefill_token_threshold (n_role n))
   \<and> (0 < max_model_length (n_role n) \<longrightarrow>
        num_computed_tokens r + se_k e \<le> max_model_length (n_role n))"

definition entry_ok :: "('a, 'm) node_scheme \<Rightarrow> (string \<rightharpoonup> int) \<Rightarrow> sched_entry \<Rightarrow> bool" where
  "entry_ok n infl e \<longleftrightarrow> (\<exists>r. n_reqs n (se_rid e) = Some r \<and> \<not> finished r
     \<and> se_computed e = num_computed_tokens r \<and> (decode_ok n infl e r \<or> extend_ok n e r))"

definition entries_ok ::
  "('a, 'm) node_scheme \<Rightarrow> (string \<rightharpoonup> int) \<Rightarrow> int \<Rightarrow> string set \<Rightarrow> sched_entry list \<Rightarrow> bool" where
  "entries_ok n infl B D es \<longleftrightarrow> distinct (map se_rid es) \<and> se_rid ` set es \<subseteq> D
     \<and> se_sum es \<le> B \<and> (\<forall>e \<in> set es. entry_ok n infl e)"

lemma se_decode_append [simp]: "se_decode rid (es @ es') = se_decode rid es + se_decode rid es'"
  by (simp add: se_decode_def)

lemma se_decode_fresh: "rid \<notin> se_rid ` set es \<Longrightarrow> se_decode rid es = 0"
  by (induction es) (auto simp: se_decode_def)

lemma dict_set_map_fresh:
  "rid \<notin> se_rid ` set es \<Longrightarrow>
   dict_set rid v (map (\<lambda>e. (se_rid e, f e)) es) = map (\<lambda>e. (se_rid e, f e)) es @ [(rid, v)]"
  by (rule dict_set_fresh) auto

text \<open>Each pass either skips a request or appends one entry that satisfies the guards.\<close>

lemma pass_a_req_entry:
  assumes repr: "acc_repr infl B es acc" and fresh: "rid \<notin> se_rid ` set es"
    and r: "n_reqs n rid = Some r"
  shows "pass_a_req n rid r acc = acc \<or>
    (\<exists>e. se_rid e = rid \<and> entry_ok n infl e \<and> se_k e \<le> sa_budget acc
       \<and> acc_repr infl B (es @ [e]) (pass_a_req n rid r acc))"
proof (cases "pass_a_req n rid r acc = acc")
  case False
  have infl: "get0 (sa_inflight acc) rid = get0 infl rid"
    using repr se_decode_fresh [OF fresh] by (simp add: acc_repr_def)
  define i where "i = get0 infl rid"
  define left where "left = decode_left n rid r i"
  define room where "room = decode_room n r i (sa_budget acc) left"
  define qs where "qs = max 0 (py_len (all_token_ids r) + i - 1)"
  define e where "e = \<lparr>se_rid = rid, se_k = 1, se_mode = DECODE, se_computed = num_computed_tokens r,
    se_qs = qs\<rparr>"
  have g: "\<not> finished r" "py_len (prompt_token_ids r) \<le> num_computed_tokens r" "0 < left"
      "0 < room" "0 < min (min (min 1 left) (sa_budget acc)) room"
    using False
    by (auto simp: pass_a_req_def Let_def infl spec_enabled_def simp flip: i_def left_def room_def
        split: if_splits)
  then have k: "min (min (min 1 left) (sa_budget acc)) room = 1" "1 \<le> sa_budget acc" by auto
  have eq: "pass_a_req n rid r acc = acc\<lparr>
       sa_num := dict_set rid 1 (sa_num acc),
       sa_write := sa_write acc @ [io_set rid qs (qs + 1)],
       sa_modes := dict_set rid DECODE (sa_modes acc),
       sa_inflight := (sa_inflight acc)(rid \<mapsto> i + 1),
       sa_qstart := dict_set rid qs (sa_qstart acc),
       sa_qend := dict_set rid (qs + 1) (sa_qend acc),
       sa_budget := sa_budget acc - 1,
       sa_computed_at := dict_set rid (num_computed_tokens r) (sa_computed_at acc),
       sa_read := sa_read acc @ [io_set rid 0 qs],
       sa_cached := cached_append rid (num_computed_tokens r + i)
         (num_output_tokens r + i) (sa_cached acc)\<rparr>"
    using g by (simp add: pass_a_req_def Let_def infl spec_enabled_def k
        flip: i_def left_def room_def qs_def)
  have "acc_repr infl B (es @ [e]) (pass_a_req n rid r acc)"
    using repr unfolding acc_repr_def eq
    by (simp add: e_def dict_set_map_fresh [OF fresh] se_write_def se_reads_def se_decode_def i_def
        se_decode_fresh [OF fresh, unfolded se_decode_def])
  moreover have "entry_ok n infl e"
    using r g unfolding room_def decode_room_def Let_def
    by (auto simp: entry_ok_def decode_ok_def e_def qs_def left_def i_def split: if_splits)
  ultimately show ?thesis using k by (intro disjI2 exI [of _ e]) (simp add: e_def)
qed simp

lemma extend_size_bounds:
  assumes "k = extend_size n r b"
  shows "k \<le> b" "num_computed_tokens r + k \<le> py_len (prompt_token_ids r)"
    and "0 < long_prefill_token_threshold (n_role n) \<Longrightarrow> k \<le> long_prefill_token_threshold (n_role n)"
    and "0 < max_model_length (n_role n) \<Longrightarrow> num_computed_tokens r + k \<le> max_model_length (n_role n)"
  using assms by (auto simp: extend_size_def Let_def min_def)

lemma pass_b_req_entry:
  assumes repr: "acc_repr infl B es acc" and fresh: "rid \<notin> se_rid ` set es"
    and r: "n_reqs n rid = Some r"
  shows "pass_b_req n rid r acc = acc \<or>
    (\<exists>e. se_rid e = rid \<and> entry_ok n infl e \<and> se_k e \<le> sa_budget acc
       \<and> acc_repr infl B (es @ [e]) (pass_b_req n rid r acc))"
proof (cases "pass_b_req n rid r acc = acc")
  case False
  define k where "k = extend_size n r (sa_budget acc)"
  define e where "e = \<lparr>se_rid = rid, se_k = k, se_mode = EXTEND,
    se_computed = num_computed_tokens r, se_qs = num_computed_tokens r\<rparr>"
  have g: "\<not> finished r" "num_computed_tokens r < py_len (prompt_token_ids r)"
      "\<not> has_unprocessed_prompt n rid (py_len (prompt_token_ids r))" "0 < k"
    using False by (auto simp: pass_b_req_def Let_def k_def split: if_splits)
  note ks = extend_size_bounds [OF k_def]
  have "acc_repr infl B (es @ [e]) (pass_b_req n rid r acc)"
    using repr g unfolding acc_repr_def pass_b_req_def Let_def k_def [symmetric]
    by (simp add: e_def dict_set_map_fresh [OF fresh] se_write_def se_reads_def se_decode_def)
  moreover have "entry_ok n infl e"
    using r g ks by (auto simp: entry_ok_def extend_ok_def e_def)
  ultimately show ?thesis using ks(1) by (intro disjI2 exI [of _ e]) (simp add: e_def)
qed simp

lemma acc_repr_keys: "acc_repr infl B es acc \<Longrightarrow> set (dict_keys (sa_num acc)) = se_rid ` set es"
  by (auto simp: acc_repr_def image_image)

lemma entries_ok_snoc:
  assumes "entries_ok n infl B D es" "acc_repr infl B es acc" "entry_ok n infl e"
    "se_rid e \<notin> se_rid ` set es" "se_k e \<le> sa_budget acc" "se_rid e \<in> D"
  shows "entries_ok n infl B D (es @ [e])"
  using assms by (auto simp: entries_ok_def acc_repr_def)

lemma entries_ok_mono: "entries_ok n infl B D es \<Longrightarrow> D \<subseteq> D' \<Longrightarrow> entries_ok n infl B D' es"
  by (auto simp: entries_ok_def)

lemma pass_a_entries:
  assumes "set rids \<subseteq> dom (n_reqs n)" "distinct rids" "set rids \<inter> se_rid ` set es = {}"
    "acc_repr infl B es acc" "entries_ok n infl B D es" "set rids \<subseteq> D"
  shows "\<exists>acc' es'. pass_a n rids acc = Inr acc' \<and> acc_repr infl B es' acc' \<and> entries_ok n infl B D es'"
  using assms
proof (induction rids arbitrary: es acc)
  case (Cons rid rids)
  then obtain r where r: "n_reqs n rid = Some r" by auto
  have fresh: "rid \<notin> se_rid ` set es" using Cons.prems(3) by auto
  consider (stop) "sa_budget acc \<le> 0" | (skip) "0 < sa_budget acc" "pass_a_req n rid r acc = acc"
    | (add) e where "0 < sa_budget acc" "se_rid e = rid" "entry_ok n infl e" "se_k e \<le> sa_budget acc"
        "acc_repr infl B (es @ [e]) (pass_a_req n rid r acc)"
    using pass_a_req_entry [OF Cons.prems(4) fresh r] not_le_imp_less [of "sa_budget acc" 0] by blast
  then show ?case
  proof cases
    case stop
    then show ?thesis using Cons.prems by auto
  next
    case skip
    then show ?thesis using Cons.IH [of es acc] Cons.prems r by auto
  next
    case add
    have "entries_ok n infl B D (es @ [e])"
      using entries_ok_snoc [OF Cons.prems(5,4) add(3)] fresh add(2,4) Cons.prems(6) by auto
    then show ?thesis
      using Cons.IH [of "es @ [e]" "pass_a_req n rid r acc"] Cons.prems add r by auto
  qed
qed auto

lemma pass_b_entries:
  assumes "set rids \<subseteq> dom (n_reqs n)"
    "acc_repr infl B es acc" "entries_ok n infl B D es" "set rids \<subseteq> D"
  shows "\<exists>acc' es'. pass_b n rids acc = Inr acc' \<and> acc_repr infl B es' acc' \<and> entries_ok n infl B D es'"
  using assms
proof (induction rids arbitrary: es acc)
  case (Cons rid rids)
  then obtain r where r: "n_reqs n rid = Some r" by auto
  have keys: "rid \<in> set (dict_keys (sa_num acc)) \<longleftrightarrow> rid \<in> se_rid ` set es"
    using acc_repr_keys [OF Cons.prems(2)] by simp
  consider (stop) "sa_budget acc \<le> 0" | (dup) "0 < sa_budget acc" "rid \<in> se_rid ` set es"
    | (skip) "0 < sa_budget acc" "rid \<notin> se_rid ` set es" "pass_b_req n rid r acc = acc"
    | (add) e where "0 < sa_budget acc" "rid \<notin> se_rid ` set es" "se_rid e = rid" "entry_ok n infl e"
        "se_k e \<le> sa_budget acc" "acc_repr infl B (es @ [e]) (pass_b_req n rid r acc)"
    using pass_b_req_entry [OF Cons.prems(2) _ r] by (meson linorder_not_le)
  then show ?case
  proof cases
    case stop
    then show ?thesis using Cons.prems by auto
  next
    case dup
    then have "rid \<in> set (dict_keys (sa_num acc))" using keys by blast
    then show ?thesis using Cons.IH [of es acc] Cons.prems dup(1) by simp
  next
    case skip
    then have "rid \<notin> set (dict_keys (sa_num acc))" using keys by blast
    then show ?thesis using Cons.IH [of es acc] Cons.prems skip r by simp
  next
    case add
    then have "rid \<notin> set (dict_keys (sa_num acc))" using keys by blast
    moreover have "entries_ok n infl B D (es @ [e])"
      using entries_ok_snoc [OF Cons.prems(3,2) add(4)] add(2,3,5) Cons.prems(4) by auto
    ultimately show ?thesis
      using Cons.IH [of "es @ [e]" "pass_b_req n rid r acc"] Cons.prems add r by simp
  qed
qed auto

lemma acc_repr_init: "acc_repr infl B [] (acc_init B infl)"
  by (simp add: acc_repr_def acc_init_def se_reads_def se_decode_def)

lemma sched_passes_entries:
  assumes "set (n_running n) \<subseteq> dom (n_reqs n)" "distinct (n_running n)"
    "B = max 0 (max_num_scheduled_tokens (n_role n))" "infl = n_inflight_decode n"
  shows "\<exists>acc es. sched_passes n = Inr acc \<and> acc_repr infl B es acc
    \<and> entries_ok n infl B (set (n_running n)) es"
proof -
  have "entries_ok n infl B (set (n_running n)) []" using assms(3) by (simp add: entries_ok_def)
  then obtain acc es where a: "pass_a n (n_running n) (acc_init B infl) = Inr acc"
    "acc_repr infl B es acc" "entries_ok n infl B (set (n_running n)) es"
    using pass_a_entries [OF assms(1,2) _ acc_repr_init] by fastforce
  then show ?thesis
    using pass_b_entries [OF assms(1) a(2,3)] by (auto simp: sched_passes_def assms(3,4))
qed

section \<open>The scheduler output as a projection of its entries\<close>

definition out_repr :: "sched_entry list \<Rightarrow> scheduler_output \<Rightarrow> bool" where
  "out_repr es out \<longleftrightarrow>
     num_scheduled_tokens out = map (\<lambda>e. (se_rid e, se_k e)) es
   \<and> total_num_scheduled_tokens out = se_sum es
   \<and> req_forward_modes out = map (\<lambda>e. (se_rid e, se_mode e)) es
   \<and> req_num_computed_at_schedule out = map (\<lambda>e. (se_rid e, se_computed e)) es
   \<and> req_query_start out = map (\<lambda>e. (se_rid e, se_qs e)) es
   \<and> req_query_end out = map (\<lambda>e. (se_rid e, se_qs e + se_k e)) es
   \<and> write_set out = map se_write es
   \<and> read_set out = se_reads es"

lemma dict_project_self:
  "distinct (map se_rid es) \<Longrightarrow>
   dict_project (map se_rid es) (map (\<lambda>e. (se_rid e, f e)) es) = map (\<lambda>e. (se_rid e, f e)) es"
  unfolding dict_project_def by (induction es) (auto simp: image_iff)

lemma build_output_repr:
  assumes "acc_repr infl B es acc" "distinct (map se_rid es)"
  shows "out_repr es (build_output n sid acc)"
proof -
  have keys: "dict_keys (map (\<lambda>e. (se_rid e, f e)) es) = map se_rid es" for f :: "sched_entry \<Rightarrow> int"
    by (simp add: comp_def)
  show ?thesis using assms
    by (simp add: out_repr_def build_output_def Let_def acc_repr_def keys dict_project_self comp_def)
qed

lemma idle_step_id [simp]: "step_id (mk_scheduler_output sid m) = sid"
  by (simp add: mk_scheduler_output_def)

lemma idle_repr: "out_repr [] (mk_scheduler_output sid m)"
  by (simp add: out_repr_def mk_scheduler_output_def se_reads_def)

lemma fill_running_spec:
  "fill_running cap w r = (w', r') \<Longrightarrow>
   r' @ w' = r @ w \<and> (py_len r \<le> cap \<longrightarrow> py_len r' \<le> cap) \<and> (w' = [] \<or> cap \<le> py_len r')
   \<and> (0 < cap \<and> r @ w \<noteq> [] \<longrightarrow> r' \<noteq> [])"
  by (induction cap w r rule: fill_running.induct) (auto split: if_splits)

lemma fill_running_prefix:
  "fill_running cap w r = (w', r') \<Longrightarrow> set r \<subseteq> set r'"
  by (induction cap w r rule: fill_running.induct) (auto split: if_splits)

lemma begin_step_simps [simp]:
  "n_reqs (begin_step n) = n_reqs n" "n_role (begin_step n) = n_role n"
  "n_inflight_decode (begin_step n) = n_inflight_decode n"
  "n_mock_remaining (begin_step n) = n_mock_remaining n"
  "n_result_queue (begin_step n) = n_result_queue n" "n_pool (begin_step n) = n_pool n"
  "n_step_id (begin_step n) = n_step_id n + 1" "n_timeline (begin_step n) = n_timeline n"
  by (simp_all add: begin_step_def split: prod.splits)

lemma begin_step_queues:
  "n_running (begin_step n) @ n_waiting (begin_step n) = n_running n @ n_waiting n"
  "py_len (n_running n) \<le> max_running_reqs (n_role n) \<Longrightarrow>
     py_len (n_running (begin_step n)) \<le> max_running_reqs (n_role n)"
  "0 < max_running_reqs (n_role n) \<Longrightarrow> n_running n @ n_waiting n \<noteq> [] \<Longrightarrow> n_running (begin_step n) \<noteq> []"
  using fill_running_spec [of "max_running_reqs (n_role n)" "n_waiting n" "n_running n"]
  by (auto simp: begin_step_def split: prod.splits)

lemma begin_step_running: "set (n_running n) \<subseteq> set (n_running (begin_step n))"
  by (auto simp: begin_step_def split: prod.splits dest: fill_running_prefix)

definition queues_ok :: "('a, 'm) node_scheme \<Rightarrow> bool" where
  "queues_ok n \<longleftrightarrow> distinct (n_running n @ n_waiting n)
     \<and> set (n_running n @ n_waiting n) \<subseteq> dom (n_reqs n)"

lemma begin_step_queues_ok: "queues_ok n \<Longrightarrow> queues_ok (begin_step n)"
  by (simp add: queues_ok_def begin_step_queues(1))

text \<open>The specification of one call of \<open>schedule\<close>.\<close>

lemma schedule_spec:
  assumes "queues_ok n"
  obtains out es infl where
    "schedule n = (Inr out, (begin_step n)\<lparr>n_inflight_decode := infl\<rparr>)"
    "\<And>rid. get0 infl rid = get0 (n_inflight_decode n) rid + se_decode rid es"
    "out_repr es out" "step_id out = n_step_id n + 1"
    "entries_ok (begin_step n) (n_inflight_decode n)
       (max 0 (max_num_scheduled_tokens (n_role n))) (set (n_running (begin_step n))) es"
    "n_running (begin_step n) = [] \<longrightarrow> es = []"
    "n_running (begin_step n) \<noteq> [] \<longrightarrow> (\<exists>acc. sched_passes (begin_step n) = Inr acc \<and>
       acc_repr (n_inflight_decode n) (max 0 (max_num_scheduled_tokens (n_role n))) es acc)"
proof (cases "n_running (begin_step n) = []")
  case True
  have "schedule n = (Inr (mk_scheduler_output (n_step_id n + 1) FM_IDLE),
      (begin_step n)\<lparr>n_inflight_decode := n_inflight_decode n\<rparr>)"
    using True
    by (simp add: schedule_def Let_def)
  then show ?thesis
    by (rule that [where es = "[]"]) (simp_all add: True idle_repr se_decode_def entries_ok_def)
next
  case False
  let ?n = "begin_step n" and ?B = "max 0 (max_num_scheduled_tokens (n_role n))"
  have "set (n_running ?n) \<subseteq> dom (n_reqs ?n)" "distinct (n_running ?n)"
    using begin_step_queues_ok [OF assms] by (auto simp: queues_ok_def)
  then obtain acc es where p: "sched_passes ?n = Inr acc" "acc_repr (n_inflight_decode n) ?B es acc"
    "entries_ok ?n (n_inflight_decode n) ?B (set (n_running ?n)) es"
    using sched_passes_entries [of ?n] by fastforce
  define out where "out = (if sa_num acc = [] then mk_scheduler_output (n_step_id n + 1) FM_IDLE
    else build_output (?n\<lparr>n_inflight_decode := sa_inflight acc\<rparr>) (n_step_id n + 1) acc)"
  have sch: "schedule n = (Inr out, ?n\<lparr>n_inflight_decode := sa_inflight acc\<rparr>)"
    using False p(1) by (simp add: schedule_def Let_def out_def)
  have repr: "out_repr es out"
    using build_output_repr [OF p(2)] p(3) p(2) idle_repr
    by (auto simp: out_def entries_ok_def acc_repr_def)
  have sid: "step_id out = n_step_id n + 1"
    by (simp add: out_def build_output_def Let_def)
  show ?thesis
    by (rule that [OF sch _ repr sid p(3)]) (use p False in \<open>auto simp: acc_repr_def\<close>)
qed

end
