(* ===== verification/Node_Invariant.thy ===== *)
theory Node_Invariant
  imports Node_Geometry
begin

text \<open>
  The scheduler's invariant. The tokens that are scheduled and not yet processed form a list
  of pending entries, in the order they were scheduled; per request the invariant relates
  that list to the host request: at most one unprocessed prompt chunk, which starts where the
  request stands; \<open>n_inflight_decode\<close> counts exactly the pending generation tokens; produced
  plus pending tokens never exceed the request's quota.

  The locale \<open>node_services\<close> is what the scheduler relies on: an executor that answers
  with no more tokens than were scheduled, and callbacks that only release requests.
\<close>

section \<open>Pending entries\<close>

type_synonym pending = "(string \<times> int \<times> int) list"

definition entries_of :: "scheduler_output \<Rightarrow> pending" where
  "entries_of out = map (\<lambda>(rid, k). (rid, k, dict_get (req_num_computed_at_schedule out) rid 0))
     (num_scheduled_tokens out)"

definition pending_of :: "('a, 'm) node_scheme \<Rightarrow> pending" where
  "pending_of n = concat (map (\<lambda>br. entries_of (br_output br)) (n_result_queue n))"

definition pend :: "string \<Rightarrow> pending \<Rightarrow> (int \<times> int) list" where
  "pend rid P = map snd (filter (\<lambda>e. fst e = rid) P)"

lemma pend_simps [simp]:
  "pend rid [] = []"
  "pend rid (e # P) = (if fst e = rid then snd e # pend rid P else pend rid P)"
  "pend rid (P @ Q) = pend rid P @ pend rid Q"
  by (simp_all add: pend_def)

lemma has_unprocessed_prompt_iff:
  "has_unprocessed_prompt n rid k \<longleftrightarrow> (\<exists>(j, c) \<in> set (pend rid (pending_of n)). c < k)"
  by (force simp: has_unprocessed_prompt_def pending_of_def entries_of_def pend_def)

section \<open>The invariant\<close>

definition quota_ok :: "('a, 'm) node_scheme \<Rightarrow> string \<Rightarrow> req \<Rightarrow> bool" where
  "quota_ok n rid r \<longleftrightarrow>
    (if use_runner_tokens n
     then num_output_tokens r + get0 (n_inflight_decode n) rid \<le> max_new_tokens (req_sampling r)
     else get0 (n_inflight_decode n) rid \<le> py_len (get_list (n_mock_remaining n) rid)
       \<and> output_token_ids r @ get_list (n_mock_remaining n) rid =
           (if model_backend (n_role n) = ''mock''
            then mock_decode_tokens (prompt_token_ids r) (max_new_tokens (req_sampling r)) else []))"

definition phase_ok :: "('a, 'm) node_scheme \<Rightarrow> string \<Rightarrow> req \<Rightarrow> (int \<times> int) list \<Rightarrow> bool" where
  "phase_ok n rid r ps \<longleftrightarrow>
    (let plen = py_len (prompt_token_ids r); computed = num_computed_tokens r in
     if computed < plen then
       0 \<le> computed \<and> output_token_ids r = [] \<and> \<not> finished r \<and> get0 (n_inflight_decode n) rid = 0
       \<and> (ps = [] \<or> (\<exists>k. ps = [(k, computed)] \<and> 0 < k \<and> computed + k \<le> plen))
     else computed = plen + num_output_tokens r
       \<and> (\<forall>(k, c) \<in> set ps. k = 1 \<and> plen \<le> c) \<and> get0 (n_inflight_decode n) rid = py_len ps)"

definition req_inv :: "('a, 'm) node_scheme \<Rightarrow> string \<Rightarrow> req \<Rightarrow> (int \<times> int) list \<Rightarrow> bool" where
  "req_inv n rid r ps \<longleftrightarrow> req_id r = rid \<and> 0 < max_new_tokens (req_sampling r)
     \<and> (0 < max_model_length (n_role n) \<longrightarrow>
          py_len (prompt_token_ids r) + max_new_tokens (req_sampling r) \<le> max_model_length (n_role n))
     \<and> phase_ok n rid r ps \<and> quota_ok n rid r
     \<and> (if finished r then num_output_tokens r = max_new_tokens (req_sampling r) \<and> ps = []
        else num_output_tokens r < max_new_tokens (req_sampling r))"

definition pending_inv :: "pending \<Rightarrow> ('a, 'm) node_scheme \<Rightarrow> bool" where
  "pending_inv P n \<longleftrightarrow> queues_ok n
     \<and> (\<forall>rid r. n_reqs n rid = Some r \<longrightarrow>
          req_inv n rid r (pend rid P) \<and> (finished r \<longleftrightarrow> rid \<notin> set (n_running n @ n_waiting n)))
     \<and> (\<forall>rid. rid \<notin> set (n_running n) \<longrightarrow> pend rid P = [] \<and> get0 (n_inflight_decode n) rid = 0)"

text \<open>Every scheduled request of an output carries the position it was scheduled at.\<close>

definition out_ok :: "scheduler_output \<Rightarrow> bool" where
  "out_ok out \<longleftrightarrow> distinct (dict_keys (num_scheduled_tokens out))
     \<and> set (dict_keys (num_scheduled_tokens out)) \<subseteq> set (dict_keys (req_num_computed_at_schedule out))"

text \<open>An executor's answer that stays within what was scheduled.\<close>

definition answer_ok :: "scheduler_output \<Rightarrow> model_runner_output \<Rightarrow> bool" where
  "answer_ok out ro \<longleftrightarrow>
    (\<forall>(rid, k) \<in> set (num_scheduled_tokens out). py_len (get_list (next_token_ids ro) rid) \<le> k)"

definition node_inv :: "('a, 'm) node_scheme \<Rightarrow> bool" where
  "node_inv n \<longleftrightarrow> pending_inv (pending_of n) n
     \<and> (\<forall>br \<in> set (n_result_queue n). out_ok (br_output br)
          \<and> (use_runner_tokens n \<longrightarrow> answer_ok (br_output br) (br_runner_out br)))
     \<and> py_len (n_running n) \<le> max 0 (max_running_reqs (n_role n))"

section \<open>Admission\<close>

text \<open>A request as the front end builds it, and a hint as a prefix lookup gives it.\<close>

definition fresh_req :: "req \<Rightarrow> bool" where
  "fresh_req r \<longleftrightarrow> output_token_ids r = [] \<and> \<not> finished r \<and> num_computed_tokens r = 0
     \<and> 0 < max_new_tokens (req_sampling r)"

definition hint_ok :: "prefix_hint option \<Rightarrow> bool" where
  "hint_ok h = (case h of None \<Rightarrow> True | Some h \<Rightarrow> 0 \<le> computed_tokens h)"

lemma build_req_fresh:
  "build_req_from_generate rid m p k nd = Inr r \<Longrightarrow> 0 \<le> k \<Longrightarrow> fresh_req r"
  by (auto simp: build_req_from_generate_def fresh_req_def split: if_splits)

lemma admit_hint_simps [simp]:
  "req_id (admit_hint h r) = req_id r" "prompt_token_ids (admit_hint h r) = prompt_token_ids r"
  "req_sampling (admit_hint h r) = req_sampling r"
  "output_token_ids (admit_hint h r) = output_token_ids r" "finished (admit_hint h r) = finished r"
  by (simp_all add: admit_hint_def Let_def split: option.splits)

lemma admit_hint_computed:
  assumes "fresh_req r" "hint_ok h"
  shows "0 \<le> num_computed_tokens (admit_hint h r)
    \<and> num_computed_tokens (admit_hint h r) \<le> py_len (prompt_token_ids r)"
  using assms
  by (auto simp: admit_hint_def apply_prefix_hint_def Let_def hint_ok_def fresh_req_def split: option.splits)

lemma add_request_pending_inv:
  assumes inv: "pending_inv P n" and fr: "fresh_req r" "hint_ok h"
    and add: "add_request r h n = (Inr (), n')"
  shows "pending_inv P n'"
proof -
  let ?rid = "req_id r" and ?r = "admit_hint h r"
  have new: "n_reqs n ?rid = None" using add by (auto simp: add_request_def Let_def split: if_splits)
  then have out: "?rid \<notin> set (n_running n @ n_waiting n)"
    using inv by (auto simp: pending_inv_def queues_ok_def)
  then have none: "pend ?rid P = []" "get0 (n_inflight_decode n) ?rid = 0"
    using inv by (auto simp: pending_inv_def)
  have n': "n_reqs n' = (n_reqs n)(?rid \<mapsto> ?r)" "n_waiting n' = n_waiting n @ [?rid]"
    "n_running n' = n_running n" "n_role n' = n_role n" "n_inflight_decode n' = n_inflight_decode n"
    "n_mock_remaining n' = (n_mock_remaining n)(?rid \<mapsto>
         (if model_backend (n_role n) = ''mock''
          then mock_decode_tokens (prompt_token_ids r) (max_new_tokens (req_sampling r)) else []))"
    and mml: "0 < max_model_length (n_role n) \<Longrightarrow>
      py_len (prompt_token_ids r) + max_new_tokens (req_sampling r) \<le> max_model_length (n_role n)"
    using add by (auto simp: add_request_def Let_def split: if_splits)
  have "req_inv n' ?rid ?r []"
    using fr admit_hint_computed [OF fr] mml none(2)
    by (auto simp: req_inv_def phase_ok_def quota_ok_def Let_def n' use_runner_tokens_def get_list_def
        num_output_tokens_def fresh_req_def)
  moreover have "req_inv n' rid r' ps \<longleftrightarrow> req_inv n rid r' ps" if "rid \<noteq> ?rid" for rid r' ps
    using that by (simp add: req_inv_def phase_ok_def quota_ok_def Let_def n' use_runner_tokens_def get_list_def)
  ultimately show ?thesis
    using inv out none fr(1) unfolding pending_inv_def queues_ok_def n'
    by (auto simp: fresh_req_def split: if_splits)
qed

section \<open>Scheduling\<close>

definition se_pending :: "sched_entry list \<Rightarrow> pending" where
  "se_pending es = map (\<lambda>e. (se_rid e, se_k e, se_computed e)) es"

lemma map_of_entries:
  "distinct (map se_rid es) \<Longrightarrow> e \<in> set es \<Longrightarrow> map_of (map (\<lambda>e. (se_rid e, f e)) es) (se_rid e) = Some (f e)"
  by (induction es) (auto simp: image_iff)

lemma entries_of_repr:
  "out_repr es out \<Longrightarrow> distinct (map se_rid es) \<Longrightarrow> entries_of out = se_pending es"
  by (auto simp: entries_of_def se_pending_def out_repr_def dict_get_def map_of_entries)

lemma out_ok_repr: "out_repr es out \<Longrightarrow> distinct (map se_rid es) \<Longrightarrow> out_ok out"
  by (simp add: out_ok_def out_repr_def comp_def)

lemma se_decode_in:
  "distinct (map se_rid es) \<Longrightarrow> e \<in> set es \<Longrightarrow>
   se_decode (se_rid e) es = (if se_mode e = DECODE then se_k e else 0)"
proof (induction es)
  case (Cons a es)
  then show ?case
    using se_decode_fresh [of "se_rid e" es] by (auto simp: se_decode_def image_iff)
qed simp

lemma pend_fresh: "rid \<notin> se_rid ` set es \<Longrightarrow> pend rid (se_pending es) = []"
  by (induction es) (auto simp: se_pending_def)

lemma pend_in:
  "distinct (map se_rid es) \<Longrightarrow> e \<in> set es \<Longrightarrow> pend (se_rid e) (se_pending es) = [(se_k e, se_computed e)]"
proof (induction es)
  case (Cons a es)
  then show ?case using pend_fresh [of "se_rid e" es] by (auto simp: se_pending_def image_iff)
qed simp

text \<open>The invariant of one request only reads the role, the mock tokens and the in-flight count.\<close>

lemma req_inv_cong:
  assumes "n_role n' = n_role n" "n_mock_remaining n' = n_mock_remaining n"
    "get0 (n_inflight_decode n') rid = get0 (n_inflight_decode n) rid"
  shows "req_inv n' rid r ps \<longleftrightarrow> req_inv n rid r ps"
  using assms by (simp add: req_inv_def phase_ok_def quota_ok_def use_runner_tokens_def Let_def)

lemma req_inv_decode:
  assumes inv: "req_inv n rid r ps" and d: "decode_ok n infl e r" "se_rid e = rid"
    and infl: "infl = n_inflight_decode n"
    and n': "n_role n' = n_role n" "n_mock_remaining n' = n_mock_remaining n"
      "get0 (n_inflight_decode n') rid = get0 (n_inflight_decode n) rid + 1"
    and fin: "\<not> finished r"
  shows "req_inv n' rid r (ps @ [(se_k e, num_computed_tokens r)])"
  using assms
  by (auto simp: req_inv_def phase_ok_def quota_ok_def use_runner_tokens_def Let_def decode_ok_def
      decode_left_def split: if_splits)

lemma req_inv_extend:
  assumes inv: "req_inv n rid r ps" and d: "extend_ok m e r" "se_rid e = rid"
    and no: "\<not> (\<exists>(j, c) \<in> set ps. c < py_len (prompt_token_ids r))"
    and n': "n_role n' = n_role n" "n_mock_remaining n' = n_mock_remaining n"
      "get0 (n_inflight_decode n') rid = get0 (n_inflight_decode n) rid"
  shows "req_inv n' rid r (ps @ [(se_k e, num_computed_tokens r)])"
proof -
  have lt: "num_computed_tokens r < py_len (prompt_token_ids r)"
    using d by (auto simp: extend_ok_def)
  then have "ps = []" using inv no by (auto simp: req_inv_def phase_ok_def Let_def)
  then show ?thesis using inv d n' lt
    by (auto simp: req_inv_def phase_ok_def quota_ok_def use_runner_tokens_def Let_def extend_ok_def)
qed

lemma schedule_pending_inv:
  assumes inv: "pending_inv (pending_of n) n" and sch: "schedule n = (Inr out, n')"
  shows "pending_inv (pending_of n @ entries_of out) n'" "out_ok out"
proof -
  have qok: "queues_ok n" using inv by (simp add: pending_inv_def)
  obtain es infl where s:
    "n' = (begin_step n)\<lparr>n_inflight_decode := infl\<rparr>"
    "\<And>rid. get0 infl rid = get0 (n_inflight_decode n) rid + se_decode rid es"
    "out_repr es out"
    "entries_ok (begin_step n) (n_inflight_decode n)
       (max 0 (max_num_scheduled_tokens (n_role n))) (set (n_running (begin_step n))) es"
    by (rule schedule_spec [OF qok]) (use sch in auto)
  have dist: "distinct (map se_rid es)" and sub: "se_rid ` set es \<subseteq> set (n_running (begin_step n))"
    using s(4) by (auto simp: entries_ok_def)
  have ents: "entries_of out = se_pending es" by (rule entries_of_repr [OF s(3) dist])
  show "out_ok out" by (rule out_ok_repr [OF s(3) dist])
  have sets: "set (n_running (begin_step n) @ n_waiting (begin_step n)) = set (n_running n @ n_waiting n)"
    by (simp only: begin_step_queues(1))
  note run = begin_step_running [of n]
  show "pending_inv (pending_of n @ entries_of out) n'"
    unfolding pending_inv_def
  proof (intro conjI allI impI)
    show "queues_ok n'" using begin_step_queues_ok [OF qok] by (simp add: s(1) queues_ok_def)
  next
    fix rid r assume "n_reqs n' rid = Some r"
    then have r: "n_reqs n rid = Some r" by (simp add: s(1))
    then have old: "req_inv n rid r (pend rid (pending_of n))"
      and fin: "finished r \<longleftrightarrow> rid \<notin> set (n_running n @ n_waiting n)"
      using inv by (auto simp: pending_inv_def)
    show "finished r \<longleftrightarrow> rid \<notin> set (n_running n' @ n_waiting n')"
      using fin sets by (simp add: s(1))
    show "req_inv n' rid r (pend rid (pending_of n @ entries_of out))"
    proof (cases "rid \<in> se_rid ` set es")
      case False
      then show ?thesis using old se_decode_fresh [OF False] s(2)
        by (simp add: ents pend_fresh) (subst req_inv_cong [of _ n], auto simp: s(1))
    next
      case True
      then obtain e where e: "e \<in> set es" "se_rid e = rid" by auto
      then have eo: "\<not> finished r" "se_computed e = num_computed_tokens r"
        "decode_ok (begin_step n) (n_inflight_decode n) e r \<or> extend_ok (begin_step n) e r"
        using s(4) r by (auto simp: entries_ok_def entry_ok_def)
      have pd: "pend rid (pending_of n @ entries_of out) = pend rid (pending_of n) @ [(se_k e, num_computed_tokens r)]"
        using pend_in [OF dist e(1)] e(2) eo(2) by (simp add: ents)
      have dec: "get0 infl rid = get0 (n_inflight_decode n) rid + (if se_mode e = DECODE then se_k e else 0)"
        using se_decode_in [OF dist e(1)] e(2) s(2) by simp
      show ?thesis using eo(3)
      proof
        assume d: "decode_ok (begin_step n) (n_inflight_decode n) e r"
        then have "decode_ok n (n_inflight_decode n) e r"
          by (auto simp: decode_ok_def decode_left_def use_runner_tokens_def split: if_splits)
        then show ?thesis unfolding pd
          by (rule req_inv_decode [OF old _ e(2) refl])
            (use d dec eo(1) in \<open>auto simp: s(1) decode_ok_def\<close>)
      next
        assume d: "extend_ok (begin_step n) e r"
        have "has_unprocessed_prompt (begin_step n) rid k = has_unprocessed_prompt n rid k" for k
          by (simp add: has_unprocessed_prompt_def)
        then have no: "\<not> (\<exists>(j, c) \<in> set (pend rid (pending_of n)). c < py_len (prompt_token_ids r))"
          using d e(2) by (auto simp: extend_ok_def simp flip: has_unprocessed_prompt_iff)
        show ?thesis unfolding pd
          by (rule req_inv_extend [OF old d e(2) no]) (use d dec in \<open>auto simp: s(1) extend_ok_def\<close>)
      qed
    qed
  next
    fix rid assume "rid \<notin> set (n_running n')"
    then have no: "rid \<notin> set (n_running (begin_step n))" by (simp add: s(1))
    then have "rid \<notin> se_rid ` set es" "rid \<notin> set (n_running n)" using sub run by auto
    then show "pend rid (pending_of n @ entries_of out) = []" "get0 (n_inflight_decode n') rid = 0"
      using inv s(2) [of rid] by (auto simp: pending_inv_def ents pend_fresh se_decode_fresh s(1))
  qed
qed

section \<open>Running a batch\<close>

lemma pend_entries_of:
  assumes "distinct (dict_keys (num_scheduled_tokens out))"
  shows "pend rid (entries_of out) = (case map_of (num_scheduled_tokens out) rid of
     None \<Rightarrow> [] | Some k \<Rightarrow> [(k, dict_get (req_num_computed_at_schedule out) rid 0)])"
proof -
  have "pend rid (map (\<lambda>(r, k). (r, k, f r)) d) = (case map_of d rid of None \<Rightarrow> [] | Some k \<Rightarrow> [(k, f rid)])"
    if "distinct (dict_keys d)" for d :: "(string, int) dict" and f
    using that
  proof (induction d)
    case (Cons e d)
    have "map_of d (fst e) = None" using Cons.prems by (simp add: map_of_eq_None_iff)
    then show ?case using Cons by (auto split: option.splits prod.splits)
  qed simp
  then show ?thesis using assms by (simp add: entries_of_def)
qed

lemma keep_keys_simps:
  "map_of (keep_keys K d) r = (if r \<in> K then map_of d r else None)"
  "set (dict_keys (keep_keys K d)) = set (dict_keys d) \<inter> K"
  "distinct (dict_keys d) \<Longrightarrow> distinct (dict_keys (keep_keys K d))"
  by (induction d) (auto simp: keep_keys_def)

definition keep_of :: "scheduler_output \<Rightarrow> ready_handle \<Rightarrow> string set" where
  "keep_of out ready =
    (if effective_read_set ready = None \<and> effective_write_set ready = None
     then set (dict_keys (num_scheduled_tokens out))
     else io_req_id ` set (case effective_read_set ready of None \<Rightarrow> read_set out | Some ios \<Rightarrow> ios)
        \<union> io_req_id ` set (case effective_write_set ready of None \<Rightarrow> write_set out | Some ios \<Rightarrow> ios))"

lemma respect_eq:
  "respect_effective_sets out ready n =
    (let K = keep_of out ready; N = set (dict_keys (num_scheduled_tokens out));
         n1 = n\<lparr>n_inflight_decode := rollback_inflight out (N - K) (n_inflight_decode n)\<rparr> in
     if N \<subseteq> K then (out, n)
     else if keep_keys K (num_scheduled_tokens out) = []
     then (mk_scheduler_output (step_id out) FM_IDLE, n1)
     else (filter_output out K
       (case effective_read_set ready of None \<Rightarrow> read_set out | Some ios \<Rightarrow> ios)
       (case effective_write_set ready of None \<Rightarrow> write_set out | Some ios \<Rightarrow> ios), n1))"
proof (cases "effective_read_set ready = None \<and> effective_write_set ready = None")
  case True
  then show ?thesis by (simp add: respect_effective_sets_def keep_of_def)
next
  case False
  define K where "K = keep_of out ready"
  have K: "io_req_id ` set (case effective_read_set ready of None \<Rightarrow> read_set out | Some ios \<Rightarrow> ios)
      \<union> io_req_id ` set (case effective_write_set ready of None \<Rightarrow> write_set out | Some ios \<Rightarrow> ios) = K"
    by (simp only: K_def keep_of_def if_not_P [OF False])
  show ?thesis unfolding respect_effective_sets_def Let_def K Diff_eq_empty_iff if_not_P [OF False]
    by (simp only: K_def)
qed

lemma respect_node:
  assumes "respect_effective_sets out ready n = (out', n')"
  shows "n' = n\<lparr>n_inflight_decode := n_inflight_decode n'\<rparr>"
  using assms unfolding respect_eq Let_def by (auto split: if_splits)

lemma respect_step_id:
  assumes "respect_effective_sets out ready n = (out', n')"
  shows "step_id out' = step_id out" "n_pool n' = n_pool n"
  using assms unfolding respect_eq Let_def
  by (auto simp: filter_output_def Let_def mk_scheduler_output_def split: if_splits)

lemma keep_keys_all: "set (dict_keys d) \<subseteq> K \<Longrightarrow> keep_keys K d = d"
  by (auto simp: keep_keys_def intro!: filter_True)

lemma respect_spec:
  assumes "respect_effective_sets out ready n = (out', n')" and ok: "out_ok out"
  shows "num_scheduled_tokens out' = keep_keys (keep_of out ready) (num_scheduled_tokens out)"
    "\<And>rid. rid \<in> set (dict_keys (num_scheduled_tokens out')) \<Longrightarrow>
       dict_get (req_num_computed_at_schedule out') rid 0 = dict_get (req_num_computed_at_schedule out) rid 0"
    "step_id out' = step_id out" "out_ok out'"
    "\<And>rid. get0 (n_inflight_decode n') rid =
       (if rid \<in> set (dict_keys (num_scheduled_tokens out)) - keep_of out ready
           \<and> dict_get (num_scheduled_tokens out) rid 0 \<noteq> 0
        then max 0 (get0 (n_inflight_decode n) rid - dict_get (num_scheduled_tokens out) rid 0)
        else get0 (n_inflight_decode n) rid)"
proof -
  let ?K = "keep_of out ready" and ?N = "set (dict_keys (num_scheduled_tokens out))"
  have num: "num_scheduled_tokens (filter_output out K er ew) = keep_keys K (num_scheduled_tokens out)"
    "req_num_computed_at_schedule (filter_output out K er ew) = keep_keys K (req_num_computed_at_schedule out)"
    "step_id (filter_output out K er ew) = step_id out" for K er ew
    by (simp_all add: filter_output_def Let_def)
  consider (same) "out' = out" "n' = n" "?N \<subseteq> ?K"
    | (idle) "out' = mk_scheduler_output (step_id out) FM_IDLE" "keep_keys ?K (num_scheduled_tokens out) = []"
        "n' = n\<lparr>n_inflight_decode := rollback_inflight out (?N - ?K) (n_inflight_decode n)\<rparr>"
    | (filt) er ew where "out' = filter_output out ?K er ew"
        "n' = n\<lparr>n_inflight_decode := rollback_inflight out (?N - ?K) (n_inflight_decode n)\<rparr>"
    using assms(1) unfolding respect_eq Let_def by (metis (no_types, lifting) prod.inject)
  note cases = this
  have K0: "keep_keys ?K (num_scheduled_tokens out) = num_scheduled_tokens out" if "?N \<subseteq> ?K"
    using that by (rule keep_keys_all)
  show N: "num_scheduled_tokens out' = keep_keys ?K (num_scheduled_tokens out)"
    by (cases rule: cases) (simp_all add: K0 num mk_scheduler_output_def)
  show "step_id out' = step_id out"
    by (cases rule: cases) (simp_all add: num)
  show C: "dict_get (req_num_computed_at_schedule out') rid 0 = dict_get (req_num_computed_at_schedule out) rid 0"
    if "rid \<in> set (dict_keys (num_scheduled_tokens out'))" for rid
  proof -
    have "rid \<in> ?K" using that unfolding N keep_keys_simps(2) by blast
    then show ?thesis using that
      by (cases rule: cases) (simp_all add: num dict_get_def keep_keys_simps(1) mk_scheduler_output_def)
  qed
  show "out_ok out'"
  proof (cases rule: cases)
    case filt
    show ?thesis using ok keep_keys_simps(3)
      unfolding filt(1) out_ok_def num keep_keys_simps(2) by blast
  qed (use ok in \<open>simp_all add: out_ok_def mk_scheduler_output_def\<close>)
  show "get0 (n_inflight_decode n') rid =
       (if rid \<in> ?N - ?K \<and> dict_get (num_scheduled_tokens out) rid 0 \<noteq> 0
        then max 0 (get0 (n_inflight_decode n) rid - dict_get (num_scheduled_tokens out) rid 0)
        else get0 (n_inflight_decode n) rid)" for rid
  proof -
    have roll: "get0 (rollback_inflight out D infl) rid =
        (if rid \<in> D \<and> dict_get (num_scheduled_tokens out) rid 0 \<noteq> 0
         then max 0 (get0 infl rid - dict_get (num_scheduled_tokens out) rid 0) else get0 infl rid)"
      for D infl
      by (simp add: get0_def rollback_inflight_def Let_def)
    show ?thesis
    proof (cases rule: cases)
      case same
      have "rid \<notin> ?N - ?K" using same(3) by blast
      then show ?thesis unfolding same(2) by (simp only: if_False simp_thms)
    next
      case idle
      show ?thesis unfolding idle(3) by (simp add: roll)
    next
      case filt
      show ?thesis unfolding filt(2) by (simp add: roll)
    qed
  qed
qed

lemma req_inv_drop:
  assumes inv: "req_inv n rid r (ps @ [(k, c)])"
    and n': "n_role n' = n_role n" "n_mock_remaining n' = n_mock_remaining n"
      "get0 (n_inflight_decode n') rid =
         (if k \<noteq> 0 then max 0 (get0 (n_inflight_decode n) rid - k) else get0 (n_inflight_decode n) rid)"
  shows "req_inv n' rid r ps"
proof (cases "num_computed_tokens r < py_len (prompt_token_ids r)")
  case True
  then have "ps = []" "get0 (n_inflight_decode n) rid = 0" "0 < k"
    using inv by (auto simp: req_inv_def phase_ok_def Let_def append_eq_Cons_conv)
  then have "get0 (n_inflight_decode n') rid = get0 (n_inflight_decode n) rid" using n'(3) by simp
  then show ?thesis using inv True \<open>ps = []\<close> n'(1,2)
    by (auto simp: req_inv_def phase_ok_def quota_ok_def use_runner_tokens_def Let_def split: if_splits)
next
  case False
  then have "k = 1" "get0 (n_inflight_decode n) rid = py_len ps + 1"
    using inv by (auto simp: req_inv_def phase_ok_def Let_def)
  then have "get0 (n_inflight_decode n') rid = py_len ps" using n'(3) by simp
  then show ?thesis using inv False n'(1,2)
    by (auto simp: req_inv_def phase_ok_def quota_ok_def use_runner_tokens_def Let_def split: if_splits)
qed

lemma respect_pending_inv:
  assumes inv: "pending_inv (P @ entries_of out) n" and ok: "out_ok out"
    and res: "respect_effective_sets out ready n = (out', n')"
  shows "pending_inv (P @ entries_of out') n'"
proof -
  let ?K = "keep_of out ready" and ?N = "set (dict_keys (num_scheduled_tokens out))"
  note spec = respect_spec [OF res ok]
  have n': "n_reqs n' = n_reqs n" "n_running n' = n_running n" "n_waiting n' = n_waiting n"
    "n_role n' = n_role n" "n_mock_remaining n' = n_mock_remaining n"
    by (subst respect_node [OF res], simp)+
  have dist: "distinct (dict_keys (num_scheduled_tokens out))"
    "distinct (dict_keys (num_scheduled_tokens out'))"
    using ok spec(4) by (auto simp: out_ok_def)
  have mem: "rid \<in> set (dict_keys (num_scheduled_tokens out')) \<longleftrightarrow> rid \<in> ?N \<inter> ?K" for rid
    by (simp only: spec(1) keep_keys_simps(2))
  have pd: "pend rid (entries_of out') = (if rid \<in> ?K then pend rid (entries_of out) else [])" for rid
  proof (cases "map_of (num_scheduled_tokens out) rid")
    case None
    then show ?thesis unfolding pend_entries_of [OF dist(1)] pend_entries_of [OF dist(2)]
      by (simp add: spec(1) keep_keys_simps(1))
  next
    case (Some k)
    then have "rid \<in> ?N" by (auto dest!: map_of_SomeD intro: rev_image_eqI)
    then show ?thesis using Some spec(2) [of rid] mem [of rid]
      unfolding pend_entries_of [OF dist(1)] pend_entries_of [OF dist(2)]
      by (simp add: spec(1) keep_keys_simps(1))
  qed
  show ?thesis unfolding pending_inv_def
  proof (intro conjI allI impI)
    show "queues_ok n'" using inv by (simp add: pending_inv_def queues_ok_def n')
  next
    fix rid r assume "n_reqs n' rid = Some r"
    then have r: "n_reqs n rid = Some r" by (simp add: n')
    then have old: "req_inv n rid r (pend rid P @ pend rid (entries_of out))"
      and fin: "finished r \<longleftrightarrow> rid \<notin> set (n_running n @ n_waiting n)"
      using inv by (auto simp: pending_inv_def)
    show "finished r \<longleftrightarrow> rid \<notin> set (n_running n' @ n_waiting n')" using fin by (simp add: n')
    show "req_inv n' rid r (pend rid (P @ entries_of out'))"
    proof (cases "rid \<in> ?N - ?K")
      case False
      then have "get0 (n_inflight_decode n') rid = get0 (n_inflight_decode n) rid"
        "pend rid (entries_of out') = pend rid (entries_of out)"
        using spec(5) [of rid] pd [of rid]
        by (auto simp: pend_entries_of [OF dist(1)] split: option.splits dest!: map_of_SomeD intro: rev_image_eqI)
      then show ?thesis using old req_inv_cong [of n' n rid] by (simp add: n')
    next
      case True
      then obtain k where k: "map_of (num_scheduled_tokens out) rid = Some k"
        by (metis DiffD1 map_of_eq_None_iff not_None_eq set_map)
      then have a: "req_inv n rid r (pend rid P @ [(k, dict_get (req_num_computed_at_schedule out) rid 0)])"
        using old by (simp add: pend_entries_of [OF dist(1)])
      have b: "get0 (n_inflight_decode n') rid =
          (if k \<noteq> 0 then max 0 (get0 (n_inflight_decode n) rid - k) else get0 (n_inflight_decode n) rid)"
        using True k spec(5) [of rid] by (simp add: dict_get_def)
      have "req_inv n' rid r (pend rid P)" by (rule req_inv_drop [OF a n'(4,5) b])
      then show ?thesis using True pd [of rid] by simp
    qed
  next
    fix rid assume "rid \<notin> set (n_running n')"
    then have "pend rid (P @ entries_of out) = []" "get0 (n_inflight_decode n) rid = 0"
      using inv by (auto simp: pending_inv_def n')
    then show "pend rid (P @ entries_of out') = []" "get0 (n_inflight_decode n') rid = 0"
      using pd [of rid] spec(5) [of rid]
      by (auto simp: pend_entries_of [OF dist(1)] dict_get_def split: option.splits)
  qed
qed

end
