(* ===== verification/Node_Steps.thy ===== *)
theory Node_Steps
  imports Node_Invariant
begin

text \<open>
  Every operation of the scheduler keeps its invariant: running a batch, processing a
  result, draining the queue and the turns of both event loops, under the contract
  \<open>node_services\<close> of the executor and the callbacks.
\<close>

section \<open>Updating one request\<close>

lemma req_inv_local:
  assumes "n_role n' = n_role n" "get_list (n_mock_remaining n') rid = get_list (n_mock_remaining n) rid"
    "get0 (n_inflight_decode n') rid = get0 (n_inflight_decode n) rid"
  shows "req_inv n' rid r ps \<longleftrightarrow> req_inv n rid r ps"
  using assms by (simp add: req_inv_def phase_ok_def quota_ok_def use_runner_tokens_def Let_def)

lemma pending_invD:
  "pending_inv P n \<Longrightarrow> n_reqs n rid = Some r \<Longrightarrow>
   req_inv n rid r (pend rid P) \<and> (finished r \<longleftrightarrow> rid \<notin> set (n_running n @ n_waiting n))"
  "pending_inv P n \<Longrightarrow> rid \<notin> set (n_running n) \<Longrightarrow> pend rid P = [] \<and> get0 (n_inflight_decode n) rid = 0"
  "pending_inv P n \<Longrightarrow> queues_ok n"
  by (simp_all add: pending_inv_def)

lemma pending_inv_cong:
  assumes "n_role n' = n_role n" "n_reqs n' = n_reqs n" "n_running n' = n_running n"
    "n_waiting n' = n_waiting n" "n_mock_remaining n' = n_mock_remaining n"
    "n_inflight_decode n' = n_inflight_decode n"
  shows "pending_inv P n' \<longleftrightarrow> pending_inv P n"
  using assms req_inv_local [of n' n] by (simp add: pending_inv_def queues_ok_def)

text \<open>The oldest pending entry of a running request is processed and the request goes on.\<close>

lemma pending_inv_continue:
  assumes inv: "pending_inv ((rid, k, c) # P) n" and r: "n_reqs n rid = Some r"
    and n': "n_reqs n' = (n_reqs n)(rid \<mapsto> r')" "n_running n' = n_running n"
      "n_waiting n' = n_waiting n" "n_role n' = n_role n"
    and others: "\<And>x. x \<noteq> rid \<Longrightarrow> get_list (n_mock_remaining n') x = get_list (n_mock_remaining n) x
        \<and> get0 (n_inflight_decode n') x = get0 (n_inflight_decode n) x"
    and new: "req_inv n' rid r' (pend rid P)" "\<not> finished r'"
  shows "pending_inv P n'"
proof -
  have run: "rid \<in> set (n_running n)"
    using pending_invD(2) [OF inv, of rid] by auto
  have "queues_ok n'" using inv r by (auto simp: pending_inv_def queues_ok_def n')
  moreover have "req_inv n' x y (pend x P) \<and> (finished y \<longleftrightarrow> x \<notin> set (n_running n' @ n_waiting n'))"
    if "n_reqs n' x = Some y" for x y
  proof (cases "x = rid")
    case True
    then show ?thesis using that new run by (simp add: n')
  next
    case False
    then have "n_reqs n x = Some y" using that by (simp add: n')
    then show ?thesis using pending_invD(1) [OF inv, of x y] False req_inv_local [of n' n x y] others [OF False]
      by (simp add: n')
  qed
  moreover have "pend x P = [] \<and> get0 (n_inflight_decode n') x = 0" if "x \<notin> set (n_running n')" for x
  proof -
    have "x \<noteq> rid" using that run by (auto simp: n')
    then show ?thesis using pending_invD(2) [OF inv, of x] that others [of x]
      by (auto simp: n' split: if_splits)
  qed
  ultimately show ?thesis by (simp add: pending_inv_def)
qed

text \<open>The request finishes: it leaves the running list and may be released.\<close>

lemma pending_inv_finish:
  assumes inv: "pending_inv ((rid, k, c) # P) n" and r: "n_reqs n rid = Some r"
    and n': "n_reqs n' = (n_reqs n)(rid := z)" "z = None \<or> z = Some r'" "n_running n' = remove1 rid (n_running n)"
      "n_waiting n' = n_waiting n" "n_role n' = n_role n"
    and others: "\<And>x. x \<noteq> rid \<Longrightarrow> get_list (n_mock_remaining n') x = get_list (n_mock_remaining n) x
        \<and> get0 (n_inflight_decode n') x = get0 (n_inflight_decode n) x"
    and new: "pend rid P = []" "get0 (n_inflight_decode n') rid = 0" "req_inv n' rid r' []" "finished r'"
  shows "pending_inv P n'"
proof -
  have run: "rid \<in> set (n_running n)"
    using pending_invD(2) [OF inv, of rid] by auto
  have dist: "distinct (n_running n)" "rid \<notin> set (n_waiting n)"
    using inv run by (auto simp: pending_inv_def queues_ok_def)
  have running: "set (n_running n') = set (n_running n) - {rid}" using dist by (simp add: n' set_remove1_eq)
  have "queues_ok n'" using inv dist running
    by (auto simp: pending_inv_def queues_ok_def n' distinct_remove1 dest: notin_set_remove1)
  moreover have "req_inv n' x y (pend x P) \<and> (finished y \<longleftrightarrow> x \<notin> set (n_running n' @ n_waiting n'))"
    if "n_reqs n' x = Some y" for x y
  proof (cases "x = rid")
    case True
    then have "y = r'" using that n'(1,2) by auto
    then show ?thesis using True new running dist by (simp add: n'(4))
  next
    case False
    then have "n_reqs n x = Some y" using that by (simp add: n')
    then show ?thesis
      using pending_invD(1) [OF inv, of x y] False req_inv_local [of n' n x y] others [OF False] running
      by (simp add: n'(4,5))
  qed
  moreover have "pend x P = [] \<and> get0 (n_inflight_decode n') x = 0" if "x \<notin> set (n_running n')" for x
  proof (cases "x = rid")
    case False
    then have "x \<notin> set (n_running n)" using that running by auto
    then show ?thesis using pending_invD(2) [OF inv, of x] False others [of x] by auto
  qed (use new in simp)
  ultimately show ?thesis by (simp add: pending_inv_def)
qed

section \<open>What the scheduler relies on\<close>

definition out_pos :: "scheduler_output \<Rightarrow> bool" where
  "out_pos out \<longleftrightarrow> (\<forall>(rid, k) \<in> set (num_scheduled_tokens out). 0 < k)"

definition releases_only :: "req \<Rightarrow> ('a, 'm) node_scheme \<Rightarrow> ('a, 'm) node_scheme \<Rightarrow> bool" where
  "releases_only r n n' \<longleftrightarrow>
     (n_reqs n' = n_reqs n \<or> n_reqs n' = (n_reqs n)(req_id r := None))
   \<and> n_waiting n' = n_waiting n \<and> n_running n' = n_running n \<and> n_role n' = n_role n
   \<and> n_mock_remaining n' = n_mock_remaining n \<and> n_inflight_decode n' = n_inflight_decode n
   \<and> n_result_queue n' = n_result_queue n \<and> n_pool n' = n_pool n \<and> n_step_id n' = n_step_id n"

locale node_services =
  fixes env :: "('a, ('a, 'm) node_scheme) node_env"
  assumes exec_bounded:
      "out_pos out \<Longrightarrow> ne_exec env out h rs = Inr ro \<Longrightarrow> answer_ok out ro"
    and finished_releases: "ne_on_finished env = Some f \<Longrightarrow> releases_only r n (f r n)"
    and before_keeps: "ne_before_schedule env = Some b \<Longrightarrow> node_inv n \<Longrightarrow> node_inv (b n)"

lemma then_do_ok:
  "then_do m f = (Inr u, s) \<longleftrightarrow> (\<exists>v s'. m = (Inr v, s') \<and> f s' = (Inr u, s))"
  by (cases m; cases "fst m") (auto simp: then_do_def)

text \<open>States that differ only in the pool, the drafts, the token relay and the timeline.\<close>

definition core_eq :: "('a, 'm) node_scheme \<Rightarrow> ('a, 'm) node_scheme \<Rightarrow> bool" where
  "core_eq n n' \<longleftrightarrow> n_role n' = n_role n \<and> n_reqs n' = n_reqs n \<and> n_running n' = n_running n
     \<and> n_waiting n' = n_waiting n \<and> n_mock_remaining n' = n_mock_remaining n
     \<and> n_inflight_decode n' = n_inflight_decode n \<and> n_result_queue n' = n_result_queue n
     \<and> n_step_id n' = n_step_id n"

lemma core_eq_pending_inv: "core_eq n n' \<Longrightarrow> pending_inv P n' \<longleftrightarrow> pending_inv P n"
  by (rule pending_inv_cong) (simp_all add: core_eq_def)

lemma commit_extent_ok: "commit_extent env rid k n = (x, n') \<Longrightarrow> core_eq n n'"
  by (auto simp: commit_extent_def core_eq_def split: prod.splits)

lemma core_eq_trans: "core_eq a b \<Longrightarrow> core_eq b c \<Longrightarrow> core_eq a c"
  by (simp add: core_eq_def)

lemma commit_then_core_eq:
  assumes "then_do (commit_extent env rid k m) f = (Inr u, n')" "\<And>s. core_eq s (snd (f s))"
  shows "core_eq m n'"
proof -
  obtain v s where "commit_extent env rid k m = (Inr v, s)" "f s = (Inr u, n')"
    using assms(1) unfolding then_do_ok by blast
  then show ?thesis using commit_extent_ok assms(2) [of s] core_eq_trans by fastforce
qed

lemma set_req_simps [simp]:
  "n_reqs (set_req rid r n) = (n_reqs n)(rid \<mapsto> r)" "n_running (set_req rid r n) = n_running n"
  "n_waiting (set_req rid r n) = n_waiting n" "n_role (set_req rid r n) = n_role n"
  "n_mock_remaining (set_req rid r n) = n_mock_remaining n"
  "n_inflight_decode (set_req rid r n) = n_inflight_decode n"
  "n_result_queue (set_req rid r n) = n_result_queue n" "n_pool (set_req rid r n) = n_pool n"
  "n_step_id (set_req rid r n) = n_step_id n"
  by (simp_all add: set_req_def)

text \<open>What processing never touches.\<close>

definition same_frame :: "('a, 'm) node_scheme \<Rightarrow> ('a, 'm) node_scheme \<Rightarrow> bool" where
  "same_frame n n' \<longleftrightarrow> n_role n' = n_role n \<and> n_result_queue n' = n_result_queue n
     \<and> n_waiting n' = n_waiting n \<and> n_step_id n' = n_step_id n
     \<and> length (n_running n') \<le> length (n_running n)"

lemma same_frame_refl [simp]: "same_frame n n"
  by (simp add: same_frame_def)

lemma same_frame_trans: "same_frame a b \<Longrightarrow> same_frame b c \<Longrightarrow> same_frame a c"
  by (auto simp: same_frame_def)

lemma prompt_entry_facts:
  assumes "req_inv n rid r ((k, c) # ps)" "c < py_len (prompt_token_ids r)"
  shows "c = num_computed_tokens r" "ps = []" "0 < k" "c + k \<le> py_len (prompt_token_ids r)"
    "output_token_ids r = []" "0 \<le> c" "get0 (n_inflight_decode n) rid = 0" "\<not> finished r"
proof -
  have ph: "phase_ok n rid r ((k, c) # ps)" using assms(1) by (simp add: req_inv_def)
  have lt: "num_computed_tokens r < py_len (prompt_token_ids r)"
  proof (rule ccontr)
    assume "\<not> num_computed_tokens r < py_len (prompt_token_ids r)"
    from ph [unfolded phase_ok_def Let_def if_not_P [OF this]] show False using assms(2) by simp
  qed
  from ph [unfolded phase_ok_def Let_def if_P [OF lt]]
  show "c = num_computed_tokens r" "ps = []" "0 < k" "c + k \<le> py_len (prompt_token_ids r)"
    "output_token_ids r = []" "0 \<le> c" "get0 (n_inflight_decode n) rid = 0" "\<not> finished r"
    by simp_all
qed

lemma process_prompt_inv:
  assumes inv: "pending_inv ((rid, k, c) # P) n" and r: "n_reqs n rid = Some r"
    and c: "c < py_len (prompt_token_ids r)"
    and res: "process_prompt env ro rid r c k n = (Inr u, n')"
  shows "pending_inv P n' \<and> same_frame n n'"
proof -
  have old: "req_inv n rid r ((k, c) # pend rid P)"
    using pending_invD(1) [OF inv r] by simp
  note ph = prompt_entry_facts [OF old c]
  define r' where "r' = r\<lparr>num_computed_tokens := c + k\<rparr>"
  have m: "min (py_len (prompt_token_ids r)) (c + k) = c + k" using ph(4) by simp
  have eq: "core_eq (set_req rid r' n) n'"
    by (rule commit_then_core_eq [OF res [unfolded process_prompt_def Let_def m, folded r'_def]])
      (simp add: core_eq_def)
  have n': "n_role n' = n_role n" "n_mock_remaining n' = n_mock_remaining n"
    "n_inflight_decode n' = n_inflight_decode n"
    using eq by (simp_all add: core_eq_def)
  have "phase_ok n' rid r' []"
    using ph by (simp add: phase_ok_def Let_def r'_def n' num_output_tokens_def)
  moreover have out: "num_output_tokens r' = num_output_tokens r"
    by (simp add: num_output_tokens_def r'_def)
  moreover have "quota_ok n rid r" using old by (simp add: req_inv_def)
  then have "quota_ok n' rid r'"
    unfolding quota_ok_def use_runner_tokens_def n' out by (simp add: r'_def)
  ultimately have "req_inv n' rid r' []"
    using old ph(8) by (simp add: req_inv_def n') (simp add: r'_def)
  then have "req_inv n' rid r' (pend rid P)" by (simp only: ph(2))
  moreover have "n_reqs n' = (n_reqs n)(rid \<mapsto> r')" "n_running n' = n_running n"
    "n_waiting n' = n_waiting n"
    using eq by (simp_all add: core_eq_def)
  moreover have "\<not> finished r'" using ph(8) by (simp add: r'_def)
  ultimately have "pending_inv P n'"
    by (intro pending_inv_continue [OF inv r _ _ _ n'(1)]) (simp_all only: n' simp_thms)
  then show ?thesis using eq by (simp add: core_eq_def same_frame_def)
qed

section \<open>Processing a generation step\<close>

lemma length_mock_decode_tokens: "py_len (mock_decode_tokens p k) = max 0 k"
  by (simp add: mock_decode_tokens_def Let_def)

lemma push_tokens_simps [simp]:
  "req_id (push_tokens ts r) = req_id r" "prompt_token_ids (push_tokens ts r) = prompt_token_ids r"
  "req_sampling (push_tokens ts r) = req_sampling r" "finished (push_tokens ts r) = finished r"
  "output_token_ids (push_tokens ts r) = output_token_ids r @ ts"
  "num_computed_tokens (push_tokens ts r) = num_computed_tokens r + py_len ts"
  "num_output_tokens (push_tokens ts r) = num_output_tokens r + py_len ts"
  by (simp_all add: push_tokens_def num_output_tokens_def)

lemma decode_entry_facts:
  assumes "req_inv n rid r ((k, c) # ps)" "py_len (prompt_token_ids r) \<le> c"
  shows "k = 1" "py_len (prompt_token_ids r) \<le> num_computed_tokens r"
    "get0 (n_inflight_decode n) rid = py_len ps + 1" "\<not> finished r"
proof -
  have ph: "phase_ok n rid r ((k, c) # ps)"
    and fin: "finished r \<longrightarrow> (k, c) # ps = []"
    using assms(1) unfolding req_inv_def by (auto split: if_splits)
  show "\<not> finished r" using fin by simp
  show plen: "py_len (prompt_token_ids r) \<le> num_computed_tokens r"
    using ph assms(2) unfolding phase_ok_def Let_def by (simp split: if_splits)
  then have "\<not> num_computed_tokens r < py_len (prompt_token_ids r)" by simp
  from ph [unfolded phase_ok_def Let_def if_not_P [OF this]]
  show "k = 1" "get0 (n_inflight_decode n) rid = py_len ps + 1" by simp_all
qed

lemma produced_tokens_bound:
  assumes inv: "req_inv n rid r ((k, c) # ps)" "py_len (prompt_token_ids r) \<le> c"
    and ans: "use_runner_tokens n \<Longrightarrow> py_len (get_list (next_token_ids ro) rid) \<le> k"
  shows "length (produced_tokens ro rid r n) \<le> 1"
proof (cases "use_runner_tokens n")
  case True
  have "length (get_list (next_token_ids ro) rid) \<le> 1"
    using ans [OF True] decode_entry_facts(1) [OF inv] by simp
  then show ?thesis using True length_py_take_le [of _ "get_list (next_token_ids ro) rid"]
    by (auto simp: produced_tokens_def Let_def intro: order_trans)
qed (simp add: produced_tokens_def split: list.splits)

text \<open>The quota after the tokens of one processed entry: pending plus produced stays within
  the request's allowance, so a request that reaches it has nothing pending.\<close>

lemma produced_tokens_quota:
  assumes inv: "req_inv n rid r ((k, c) # ps)" "py_len (prompt_token_ids r) \<le> c"
    and ans: "use_runner_tokens n \<Longrightarrow> py_len (get_list (next_token_ids ro) rid) \<le> k"
    and ts: "ts = produced_tokens ro rid r n"
    and n1: "n_role n1 = n_role n" "get0 (n_inflight_decode n1) rid = py_len ps"
      "get_list (n_mock_remaining n1) rid =
         (if use_runner_tokens n \<or> ts = [] then get_list (n_mock_remaining n) rid
          else tl (get_list (n_mock_remaining n) rid))"
  shows "quota_ok n1 rid (push_tokens ts r)"
    and "num_output_tokens (push_tokens ts r) \<le> max_new_tokens (req_sampling r)"
    and "num_output_tokens (push_tokens ts r) = max_new_tokens (req_sampling r) \<Longrightarrow> ps = []"
proof -
  note e = decode_entry_facts [OF inv]
  have len: "length ts \<le> 1" using produced_tokens_bound [OF inv ans] ts by simp
  have q: "quota_ok n rid r" "0 < max_new_tokens (req_sampling r)"
    using inv(1) by (auto simp: req_inv_def)
  have mock: "ts = [hd (get_list (n_mock_remaining n) rid)]"
    "get_list (n_mock_remaining n) rid \<noteq> []" "model_backend (n_role n) = ''mock''"
    if "\<not> use_runner_tokens n"
    using that q(1) e(3) unfolding ts
    by (cases "get_list (n_mock_remaining n) rid"; auto simp: quota_ok_def produced_tokens_def split: if_splits)+
  show qn: "quota_ok n1 rid (push_tokens ts r)"
  proof (cases "use_runner_tokens n")
    case True
    then show ?thesis using q(1) len e(3) n1 by (auto simp: quota_ok_def use_runner_tokens_def)
  next
    case False
    then show ?thesis using q(1) e(3) n1 mock [OF False]
      by (auto simp: quota_ok_def use_runner_tokens_def split: if_splits)
  qed
  have tot: "num_output_tokens (push_tokens ts r) + py_len ps \<le> max_new_tokens (req_sampling r)"
  proof (cases "use_runner_tokens n")
    case True
    then show ?thesis using qn n1 by (simp add: quota_ok_def use_runner_tokens_def)
  next
    case False
    have "py_len (output_token_ids (push_tokens ts r) @ get_list (n_mock_remaining n1) rid)
        = max_new_tokens (req_sampling r)"
      using qn False n1(1) mock(3) [OF False] length_mock_decode_tokens q(2)
      by (simp add: quota_ok_def use_runner_tokens_def)
    then show ?thesis using qn False n1 by (simp add: quota_ok_def use_runner_tokens_def num_output_tokens_def)
  qed
  then show "num_output_tokens (push_tokens ts r) \<le> max_new_tokens (req_sampling r)" by simp
  show "ps = []" if "num_output_tokens (push_tokens ts r) = max_new_tokens (req_sampling r)"
    using tot that by simp
qed

lemma commit_thenE:
  assumes "then_do (commit_extent env rid k m) f = (Inr u, n')"
  obtains s where "core_eq m s" "f s = (Inr u, n')"
  using assms unfolding then_do_ok by (blast dest: commit_extent_ok)

context node_services
begin

lemma finish_req_spec:
  assumes fin: "finish_req env rid m = (Inr u, n')" and r: "n_reqs m rid = Some r" "req_id r = rid"
  obtains z where "n_reqs n' = (n_reqs m)(rid := z)" "z = None \<or> z = Some r"
    "n_running n' = remove1 rid (n_running m)" "n_waiting n' = n_waiting m" "n_role n' = n_role m"
    "n_mock_remaining n' = n_mock_remaining m" "n_inflight_decode n' = (n_inflight_decode m)(rid := None)"
    "n_result_queue n' = n_result_queue m" "n_step_id n' = n_step_id m"
proof -
  obtain p where n2: "n' = (case ne_on_finished env of None \<Rightarrow> p | Some f \<Rightarrow> f r p)"
    and p: "n_reqs p = n_reqs m" "n_running p = remove1 rid (n_running m)" "n_waiting p = n_waiting m"
      "n_role p = n_role m" "n_mock_remaining p = n_mock_remaining m"
      "n_inflight_decode p = (n_inflight_decode m)(rid := None)" "n_result_queue p = n_result_queue m"
      "n_step_id p = n_step_id m"
    using fin r(1) by (auto simp: finish_req_def Let_def split: prod.splits sum.splits)
  have "releases_only r p n'"
    using n2 finished_releases by (cases "ne_on_finished env") (auto simp: releases_only_def)
  then have rel: "n_reqs n' = n_reqs m \<or> n_reqs n' = (n_reqs m)(rid := None)"
    "n_running n' = n_running p" "n_waiting n' = n_waiting p" "n_role n' = n_role p"
    "n_mock_remaining n' = n_mock_remaining p" "n_inflight_decode n' = n_inflight_decode p"
    "n_result_queue n' = n_result_queue p" "n_step_id n' = n_step_id p"
    by (simp_all add: releases_only_def p(1) r(2))
  define z where "z = n_reqs n' rid"
  have "n_reqs n' = (n_reqs m)(rid := z)" "z = None \<or> z = Some r"
    using rel(1) r(1) by (auto simp: z_def)
  then show thesis by (rule that) (simp_all only: rel(2-) p)
qed

lemma process_decode_inv:
  assumes inv: "pending_inv ((rid, k, c) # P) n" and r: "n_reqs n rid = Some r"
    and c: "py_len (prompt_token_ids r) \<le> c"
    and ans: "use_runner_tokens n \<Longrightarrow> py_len (get_list (next_token_ids ro) rid) \<le> k"
    and res: "process_decode env ro rid r spec k n = (Inr u, n')"
  shows "pending_inv P n' \<and> same_frame n n'"
proof -
  have old: "req_inv n rid r ((k, c) # pend rid P)" using pending_invD(1) [OF inv r] by simp
  note e = decode_entry_facts [OF old c]
  define ts where "ts = produced_tokens ro rid r n"
  define r1 where "r1 = push_tokens ts r"
  define n1 where "n1 = record_tokens ro rid r spec k n"
  have n1: "n_reqs n1 = (n_reqs n)(rid \<mapsto> r1)" "n_running n1 = n_running n" "n_waiting n1 = n_waiting n"
    "n_role n1 = n_role n" "n_result_queue n1 = n_result_queue n" "n_step_id n1 = n_step_id n"
    "n_inflight_decode n1 = (n_inflight_decode n)(rid \<mapsto> py_len (pend rid P))"
    "n_mock_remaining n1 = (if use_runner_tokens n \<or> ts = [] then n_mock_remaining n
        else (n_mock_remaining n)(rid \<mapsto> tl (get_list (n_mock_remaining n) rid)))"
    using e(1,3) by (simp_all add: n1_def record_tokens_def Let_def ts_def r1_def)
  obtain s where s: "core_eq n1 s" "finish_if_done env rid r1 (keep_drafts ro rid r1 s) = (Inr u, n')"
    by (rule commit_thenE [OF res [unfolded process_decode_def Let_def, folded ts_def, folded r1_def n1_def]])
  define m where "m = keep_drafts ro rid r1 s"
  have "core_eq s m" by (simp add: m_def keep_drafts_def core_eq_def)
  then have m: "core_eq n1 m" using s(1) core_eq_trans by blast
  have others: "get_list (n_mock_remaining n1) x = get_list (n_mock_remaining n) x
      \<and> get0 (n_inflight_decode n1) x = get0 (n_inflight_decode n) x" if "x \<noteq> rid" for x
    using that by (simp add: n1 get_list_def)
  have mock: "get_list (n_mock_remaining n1) rid = (if use_runner_tokens n \<or> ts = []
      then get_list (n_mock_remaining n) rid else tl (get_list (n_mock_remaining n) rid))"
    by (simp add: n1 get_list_def)
  have infl: "get0 (n_inflight_decode n1) rid = py_len (pend rid P)" by (simp add: n1)
  note q = produced_tokens_quota [OF old c ans ts_def n1(4) infl mock, folded r1_def]
  have rest: "num_computed_tokens r = py_len (prompt_token_ids r) + num_output_tokens r"
    "\<forall>(k, c) \<in> set (pend rid P). k = 1 \<and> py_len (prompt_token_ids r) \<le> c"
    using old e(2) by (auto simp: req_inv_def phase_ok_def Let_def)
  have phase: "phase_ok n1 rid r1 (pend rid P)"
    using rest infl e(2) by (simp add: phase_ok_def Let_def r1_def)
  have base: "req_id r1 = rid" "0 < max_new_tokens (req_sampling r1)"
    "0 < max_model_length (n_role n1) \<longrightarrow>
       py_len (prompt_token_ids r1) + max_new_tokens (req_sampling r1) \<le> max_model_length (n_role n1)"
    using old by (simp_all add: req_inv_def r1_def n1(4))
  show ?thesis
  proof (cases "max_new_tokens (req_sampling r1) \<le> num_output_tokens r1")
    case False
    then have n': "n' = m" using s(2) by (simp add: finish_if_done_def m_def)
    have "req_inv n1 rid r1 (pend rid P)"
      using base phase q(1) False e(4) by (simp add: req_inv_def r1_def)
    then have new: "req_inv m rid r1 (pend rid P)"
      using m req_inv_local [of m n1 rid r1] by (simp add: core_eq_def)
    have "pending_inv P m"
      by (rule pending_inv_continue [OF inv r _ _ _ _ _ new])
        (use m others e(4) in \<open>simp_all add: core_eq_def n1(1-4) r1_def\<close>)
    then show ?thesis using m by (simp add: n' same_frame_def core_eq_def n1)
  next
    case True
    define rf where "rf = r1\<lparr>finished := True, finish_reason := Some ''length''\<rparr>"
    have eqm: "num_output_tokens r1 = max_new_tokens (req_sampling r1)" and none: "pend rid P = []"
      using True q(2,3) by (simp_all add: r1_def)
    have fin: "finish_req env rid (set_req rid rf m) = (Inr u, n')"
      using s(2) True by (simp add: finish_if_done_def m_def rf_def)
    obtain z where z: "n_reqs n' = (n_reqs n)(rid := z)" "z = None \<or> z = Some rf"
      "n_running n' = remove1 rid (n_running n)" "n_waiting n' = n_waiting n" "n_role n' = n_role n"
      "n_mock_remaining n' = n_mock_remaining n1" "n_inflight_decode n' = (n_inflight_decode n1)(rid := None)"
      "n_result_queue n' = n_result_queue n" "n_step_id n' = n_step_id n"
    proof -
      have "n_reqs (set_req rid rf m) rid = Some rf" "req_id rf = rid" using base(1) by (simp_all add: rf_def)
      from finish_req_spec [OF fin this] m that show thesis
        unfolding core_eq_def n1(1-6) set_req_simps by (metis fun_upd_upd)
    qed
    have infl': "get0 (n_inflight_decode n') x = get0 (n_inflight_decode n1) x" for x
      using infl none by (simp add: z(7))
    have rf: "num_computed_tokens rf = num_computed_tokens r1" "prompt_token_ids rf = prompt_token_ids r1"
      "num_output_tokens rf = num_output_tokens r1" "output_token_ids rf = output_token_ids r1"
      "req_sampling rf = req_sampling r1" "req_id rf = req_id r1" "finished rf"
      by (simp_all add: rf_def num_output_tokens_def)
    have "phase_ok n' rid rf []"
      using rest(1) e(2) infl none by (simp add: phase_ok_def Let_def rf infl' r1_def)
    moreover have "quota_ok n' rid rf"
      using q(1) by (simp add: quota_ok_def use_runner_tokens_def infl' z(5,6) n1(4) rf)
    ultimately have new: "req_inv n' rid rf []"
      using base eqm by (simp add: req_inv_def rf z(5) n1(4))
    have "pending_inv P n'"
      by (rule pending_inv_finish [OF inv r z(1,2,3,4,5) _ none _ new])
        (use others infl none in \<open>simp_all add: infl' z(6) rf_def\<close>)
    then show ?thesis by (simp add: same_frame_def z length_remove1)
  qed
qed

lemma process_one_inv:
  assumes inv: "pending_inv ((rid, k, dict_get (req_num_computed_at_schedule out) rid 0) # P) n"
    and key: "rid \<in> set (dict_keys (req_num_computed_at_schedule out))"
    and ans: "use_runner_tokens n \<Longrightarrow> py_len (get_list (next_token_ids ro) rid) \<le> k"
    and res: "process_one env out ro (rid, k) n = (Inr u, n')"
  shows "pending_inv P n' \<and> same_frame n n'"
proof -
  have "rid \<in> set (n_running n)" using pending_invD(2) [OF inv, of rid] by auto
  then obtain r where r: "n_reqs n rid = Some r"
    using pending_invD(3) [OF inv] by (auto simp: queues_ok_def)
  define c where "c = dict_get (req_num_computed_at_schedule out) rid 0"
  have c: "dict_get (req_num_computed_at_schedule out) rid x = c" for x
    using key by (auto simp: c_def dict_get_def split: option.splits dest: map_of_eq_None_iff [THEN iffD1])
  have inv': "pending_inv ((rid, k, c) # P) n" using inv by (simp add: c_def)
  show ?thesis
  proof (cases "c < py_len (prompt_token_ids r)")
    case True
    then have "process_prompt env ro rid r c k n = (Inr u, n')"
      using res r by (simp add: process_one_def c)
    then show ?thesis by (rule process_prompt_inv [OF inv' r True])
  next
    case False
    then obtain spec where "process_decode env ro rid r spec k n = (Inr u, n')"
      using res r by (simp add: process_one_def c)
    then show ?thesis using process_decode_inv [OF inv' r _ ans] False by simp
  qed
qed

lemma process_items_inv:
  assumes "pending_inv (map (\<lambda>(rid, k). (rid, k, dict_get (req_num_computed_at_schedule out) rid 0)) es @ P) n"
    and "\<forall>(rid, k) \<in> set es. rid \<in> set (dict_keys (req_num_computed_at_schedule out))
      \<and> (use_runner_tokens n \<longrightarrow> py_len (get_list (next_token_ids ro) rid) \<le> k)"
    and "process_items env out ro es n = (Inr u, n')"
  shows "pending_inv P n' \<and> same_frame n n'"
  using assms
proof (induction es arbitrary: n)
  case (Cons e es)
  obtain rid k where e: "e = (rid, k)" by (cases e)
  obtain n1 v where one: "process_one env out ro (rid, k) n = (Inr v, n1)"
    and rest: "process_items env out ro es n1 = (Inr u, n')"
    using Cons.prems(3) unfolding e process_items.simps then_do_ok by blast
  have n1: "pending_inv (map (\<lambda>(rid, k). (rid, k, dict_get (req_num_computed_at_schedule out) rid 0)) es @ P) n1
      \<and> same_frame n n1"
    by (rule process_one_inv [OF _ _ _ one]) (use Cons.prems(1,2) e in auto)
  then have "use_runner_tokens n1 = use_runner_tokens n"
    by (simp add: same_frame_def use_runner_tokens_def)
  then have "pending_inv P n' \<and> same_frame n1 n'"
    using Cons.IH [of n1] n1 Cons.prems(2) rest by auto
  then show ?case using n1 same_frame_trans by blast
qed simp

end

lemma pending_inv_set_req:
  assumes inv: "pending_inv P n" and r: "n_reqs n rid = Some r"
    and r': "\<And>ps. req_inv n rid r' ps \<longleftrightarrow> req_inv n rid r ps" "finished r' = finished r"
  shows "pending_inv P (set_req rid r' n)"
proof -
  have cong: "req_inv (set_req rid r' n) x y ps \<longleftrightarrow> req_inv n x y ps" for x y ps
    by (rule req_inv_local) simp_all
  have "req_inv n x y (pend x P) \<and> (finished y \<longleftrightarrow> x \<notin> set (n_running n @ n_waiting n))"
    if "n_reqs (set_req rid r' n) x = Some y" for x y
    using that pending_invD(1) [OF inv r] pending_invD(1) [OF inv, of x y] r'
    by (cases "x = rid") simp_all
  then show ?thesis using pending_invD(2,3) [OF inv] r
    unfolding pending_inv_def cong by (auto simp: queues_ok_def)
qed

lemma apply_stat_inv: "pending_inv P n \<Longrightarrow> pending_inv P (apply_stat s n) \<and> same_frame n (apply_stat s n)"
proof (cases "n_reqs n (fst s)")
  case (Some r)
  assume inv: "pending_inv P n"
  have "pending_inv P (set_req (fst s) (r\<lparr>prefill_blocks := a, reused_blocks := b\<rparr>) n)" for a b
    by (rule pending_inv_set_req [OF inv Some])
      (simp_all add: req_inv_def phase_ok_def quota_ok_def num_output_tokens_def)
  then show ?thesis using inv Some by (simp add: apply_stat_def same_frame_def)
qed (simp add: apply_stat_def)

lemma apply_stats_inv:
  "pending_inv P n \<Longrightarrow> pending_inv P (fold apply_stat ss n) \<and> same_frame n (fold apply_stat ss n)"
proof (induction ss arbitrary: n)
  case (Cons s ss)
  from apply_stat_inv [OF Cons.prems, of s] Cons.IH [of "apply_stat s n"] same_frame_trans
  show ?case unfolding fold_simps by blast
qed simp

lemma apply_ready_stats_inv:
  "pending_inv P n \<Longrightarrow> pending_inv P (apply_ready_stats h n) \<and> same_frame n (apply_ready_stats h n)"
  unfolding apply_ready_stats_def by (rule apply_stats_inv)

lemma node_invD:
  assumes "node_inv n"
  shows "pending_inv (pending_of n) n"
    "br \<in> set (n_result_queue n) \<Longrightarrow> out_ok (br_output br)"
    "br \<in> set (n_result_queue n) \<Longrightarrow> use_runner_tokens n \<Longrightarrow> answer_ok (br_output br) (br_runner_out br)"
    "py_len (n_running n) \<le> max 0 (max_running_reqs (n_role n))"
  using assms by (auto simp: node_inv_def)

context node_services
begin

lemma pop_and_process_inv:
  assumes inv: "node_inv n" and res: "pop_and_process env n = (Inr u, n')"
  shows "node_inv n' \<and> n_result_queue n' = tl (n_result_queue n) \<and> n_role n' = n_role n
    \<and> n_waiting n' = n_waiting n"
proof (cases "n_result_queue n")
  case Nil
  then show ?thesis using inv res by (simp add: pop_and_process_def)
next
  case (Cons b bs)
  let ?out = "br_output b" and ?ro = "br_runner_out b"
  define n1 where "n1 = n\<lparr>n_result_queue := bs, n_timeline := n_timeline n @ [(TL_process, step_id ?out)]\<rparr>"
  define P where "P = concat (map (\<lambda>br. entries_of (br_output br)) bs)"
  have "pending_inv (entries_of ?out @ P) n"
    using node_invD(1) [OF inv] by (simp add: pending_of_def Cons P_def)
  then have p1: "pending_inv (entries_of ?out @ P) n1"
    by (subst pending_inv_cong [of _ n]) (simp_all add: n1_def)
  define n2 where "n2 = apply_ready_stats (br_ready b) n1"
  have n2: "pending_inv (entries_of ?out @ P) n2" "same_frame n1 n2"
    using apply_ready_stats_inv [OF p1] by (simp_all add: n2_def)
  obtain n3 v where items: "process_items env ?out ?ro (num_scheduled_tokens ?out) n2 = (Inr v, n3)"
    and n': "n' = n3\<lparr>n_future_map := fm_publish (n_future_map n3)\<rparr>"
    using res unfolding pop_and_process_def Cons list.case Let_def process_batch_result_def
    by (auto simp: then_do_ok simp flip: n1_def n2_def)
  have mem: "b \<in> set (n_result_queue n)" by (simp add: Cons)
  have "use_runner_tokens n2 = use_runner_tokens n"
    using n2(2) by (simp add: same_frame_def use_runner_tokens_def n1_def)
  then have "pending_inv P n3 \<and> same_frame n2 n3"
    using process_items_inv [OF n2(1) [unfolded entries_of_def] _ items]
      node_invD(2) [OF inv mem] node_invD(3) [OF inv mem]
    by (force simp: out_ok_def answer_ok_def)
  then have n3: "pending_inv P n3" "same_frame n1 n3" using same_frame_trans n2(2) by blast+
  have q: "n_result_queue n' = bs" "n_role n' = n_role n" "n_waiting n' = n_waiting n"
    "length (n_running n') \<le> length (n_running n)"
    using n3(2) by (simp_all add: n' same_frame_def n1_def)
  have "pending_inv (pending_of n') n'"
    using n3(1) by (subst pending_inv_cong [of _ n3]) (simp_all add: n' pending_of_def P_def q(1) [unfolded n'])
  moreover have "use_runner_tokens n' = use_runner_tokens n" by (simp add: use_runner_tokens_def q)
  ultimately have "node_inv n'"
    using node_invD(2-4) [OF inv] q Cons by (simp add: node_inv_def)
  then show ?thesis using q Cons by simp
qed

lemma drain_times_inv:
  "node_inv n \<Longrightarrow> drain_times k env n = (Inr u, n') \<Longrightarrow>
   node_inv n' \<and> n_result_queue n' = drop k (n_result_queue n) \<and> n_role n' = n_role n
   \<and> n_waiting n' = n_waiting n"
proof (induction k arbitrary: n)
  case (Suc k)
  then obtain n1 v where "pop_and_process env n = (Inr v, n1)" "drain_times k env n1 = (Inr u, n')"
    unfolding drain_times.simps then_do_ok by blast
  then show ?case using Suc.IH [of n1] pop_and_process_inv [OF Suc.prems(1)]
    by (simp add: drop_Suc)
qed simp

lemma drain_results_inv:
  assumes "node_inv n" "drain_results env n = (Inr u, n')"
  shows "node_inv n' \<and> n_result_queue n' = [] \<and> n_role n' = n_role n \<and> n_waiting n' = n_waiting n"
  using drain_times_inv [OF assms(1)] assms(2) by (simp add: drain_results_def)

end

end
