(* ===== verification/Node_Reach.thy ===== *)
theory Node_Reach
  imports Node_Steps
begin

text \<open>
  The invariant along every history of the scheduler: admissions, turns of either event loop,
  drains and releases in any order. A batch that was scheduled and not yet run is part of the
  pending list (\<open>sched_inv\<close>).
\<close>

definition sched_inv :: "scheduler_output \<Rightarrow> ('a, 'm) node_scheme \<Rightarrow> bool" where
  "sched_inv out n \<longleftrightarrow> pending_inv (pending_of n @ entries_of out) n \<and> out_ok out
     \<and> (\<forall>br \<in> set (n_result_queue n). out_ok (br_output br)
          \<and> (use_runner_tokens n \<longrightarrow> answer_ok (br_output br) (br_runner_out br)))
     \<and> py_len (n_running n) \<le> max 0 (max_running_reqs (n_role n))"

lemma schedule_sched_inv:
  assumes inv: "node_inv n" and sch: "schedule n = (Inr out, n')"
  shows "sched_inv out n'"
proof -
  have qok: "queues_ok n" using node_invD(1) [OF inv] pending_invD(3) by blast
  obtain infl where n': "n' = (begin_step n)\<lparr>n_inflight_decode := infl\<rparr>"
    by (rule schedule_spec [OF qok]) (use sch in auto)
  have eq: "n_result_queue n' = n_result_queue n" "n_role n' = n_role n"
    "n_running n' = n_running (begin_step n)" "pending_of n' = pending_of n"
    by (simp_all add: n' pending_of_def)
  have "py_len (n_running n') \<le> max 0 (max_running_reqs (n_role n))"
  proof (cases "0 < max_running_reqs (n_role n)")
    case True
    then show ?thesis using node_invD(4) [OF inv] begin_step_queues(2) [of n] by (simp add: eq)
  next
    case False
    then have "n_running n = []" using node_invD(4) [OF inv] by simp
    then have "n_running (begin_step n) = []"
      using False by (cases "n_waiting n") (simp_all add: begin_step_def)
    then show ?thesis by (simp add: eq)
  qed
  then show ?thesis
    using schedule_pending_inv [OF node_invD(1) [OF inv] sch] node_invD(2,3) [OF inv] eq
    by (simp add: sched_inv_def use_runner_tokens_def)
qed

lemma pending_pos:
  assumes inv: "pending_inv P n" and mem: "(rid, k, c) \<in> set P"
  shows "0 < k"
proof -
  have kc: "(k, c) \<in> set (pend rid P)" using mem by (force simp: pend_def)
  then have "rid \<in> set (n_running n)" using pending_invD(2) [OF inv, of rid] by fastforce
  then obtain r where r: "n_reqs n rid = Some r"
    using pending_invD(3) [OF inv] by (auto simp: queues_ok_def)
  have ph: "phase_ok n rid r (pend rid P)" using pending_invD(1) [OF inv r] by (simp add: req_inv_def)
  show ?thesis
  proof (cases "num_computed_tokens r < py_len (prompt_token_ids r)")
    case True
    from ph [unfolded phase_ok_def Let_def if_P [OF True]] show ?thesis using kc by auto
  next
    case False
    from ph [unfolded phase_ok_def Let_def if_not_P [OF False]] show ?thesis using kc by auto
  qed
qed

lemma pending_out_pos:
  assumes "pending_inv (P @ entries_of out) n"
  shows "out_pos out"
proof -
  have "0 < k" if "(rid, k) \<in> set (num_scheduled_tokens out)" for rid k
  proof -
    have "(rid, k, dict_get (req_num_computed_at_schedule out) rid 0) \<in> set (P @ entries_of out)"
      using that by (force simp: entries_of_def)
    then show ?thesis by (rule pending_pos [OF assms])
  qed
  then show ?thesis by (auto simp: out_pos_def)
qed

lemma schedule_idle:
  assumes inv: "node_inv n" and sch: "schedule n = (Inr out, n')" and tot: "total_num_scheduled_tokens out = 0"
  shows "node_inv n'" "entries_of out = []"
proof -
  have qok: "queues_ok n" using node_invD(1) [OF inv] pending_invD(3) by blast
  obtain es where es: "out_repr es out" by (rule schedule_spec [OF qok]) (use sch in auto)
  have s: "sched_inv out n'" by (rule schedule_sched_inv [OF inv sch])
  then have pos: "\<forall>(rid, k) \<in> set (num_scheduled_tokens out). 0 < k"
    using pending_out_pos unfolding sched_inv_def out_pos_def by blast
  have "es = []"
  proof (rule ccontr)
    assume "es \<noteq> []"
    then obtain e es' where e: "es = e # es'" by (cases es) auto
    have p: "\<forall>x \<in> set es. 0 < se_k x" using pos es by (auto simp: out_repr_def)
    then have "0 \<le> se_sum es'" using e by (intro sum_list_nonneg) auto
    then have "0 < se_sum es" using p e by simp
    then show False using tot es by (simp add: out_repr_def)
  qed
  then show ents: "entries_of out = []" using es by (simp add: entries_of_def out_repr_def)
  show "node_inv n'" using s unfolding sched_inv_def node_inv_def ents by simp
qed

definition turn_inv :: "('a, 'm) node_scheme turn \<Rightarrow> bool" where
  "turn_inv t = (case t of Leave n \<Rightarrow> node_inv n | Again n \<Rightarrow> node_inv n | Raise e n \<Rightarrow> True)"

lemma turn_inv_simps [simp]:
  "turn_inv (Leave n) = node_inv n" "turn_inv (Again n) = node_inv n" "turn_inv (Raise e n)"
  by (simp_all add: turn_inv_def)

lemma turn_of_inv:
  "(\<And>u n. m = (Inr u, n) \<Longrightarrow> turn_inv (f n)) \<Longrightarrow> turn_inv (turn_of m f)"
  by (cases m; cases "fst m") (auto simp: turn_of_def turn_inv_def)

context node_services
begin

lemma run_batch_inv:
  assumes inv: "sched_inv out n" and res: "run_batch env out n = (Inr u, n')"
  shows "node_inv n'"
proof -
  obtain ready p1 p2 out' n2 ro where pr: "pool_prepare_step (ne_ops env) out (n_reqs n) (n_pool n) = (Inr ready, p1)"
    and re: "respect_effective_sets out ready (n\<lparr>n_pool := p1\<rparr>) = (out', n2)"
    and ex: "ne_exec env out' ready (n_reqs n2) = Inr ro"
    and n': "n' = n2\<lparr>n_timeline := n_timeline n2 @ [(TL_execute, step_id out')], n_pool := p2,
        n_result_queue := n_result_queue n2 @ [\<lparr>br_output = out', br_runner_out = ro, br_ready = ready\<rparr>]\<rparr>"
    using res unfolding run_batch_def Let_def
    by (auto split: prod.splits sum.splits)
  have "pending_inv (pending_of n @ entries_of out) (n\<lparr>n_pool := p1\<rparr>)"
    using inv by (subst pending_inv_cong [of _ n]) (simp_all add: sched_inv_def)
  then have i2: "pending_inv (pending_of n @ entries_of out') n2"
    using respect_pending_inv [OF _ _ re] inv by (simp add: sched_inv_def)
  have ok: "out_ok out'" using respect_spec(4) [OF re] inv by (simp add: sched_inv_def)
  have n2: "n_role n2 = n_role n" "n_running n2 = n_running n" "n_result_queue n2 = n_result_queue n"
    by (subst respect_node [OF re], simp)+
  have pd: "pending_of n' = pending_of n @ entries_of out'"
    by (simp add: n' pending_of_def n2)
  have "pending_inv (pending_of n') n'"
    unfolding pd using i2 by (subst pending_inv_cong [of _ n2]) (simp_all add: n')
  moreover have "answer_ok out' ro" by (rule exec_bounded [OF pending_out_pos [OF i2] ex])
  ultimately show ?thesis using inv ok n2 unfolding node_inv_def sched_inv_def
    by (auto simp: n' use_runner_tokens_def)
qed

lemma pop_keeps_inv: "node_inv n \<Longrightarrow> pop_and_process env n = (Inr u, n') \<Longrightarrow> node_inv n'"
  using pop_and_process_inv by blast

lemma drain_keeps_inv: "node_inv n \<Longrightarrow> drain_results env n = (Inr u, n') \<Longrightarrow> node_inv n'"
  using drain_results_inv by blast

lemma before_inv: "node_inv n \<Longrightarrow> node_inv (run_before_schedule env n)"
  using before_keeps by (auto simp: run_before_schedule_def split: option.splits)

lemma normal_turn_inv:
  assumes "node_inv n"
  shows "turn_inv (normal_turn env n)"
proof -
  obtain x n1 where sch: "schedule (run_before_schedule env n) = (x, n1)" by fastforce
  note inv = before_inv [OF assms]
  have idle: "turn_inv (turn_of (drain_results env n1) (\<lambda>n2.
      if n_waiting n2 = [] \<and> n_running n2 = [] then Leave n2
      else if stop_requested env n2 then Leave n2 else Again n2))" if "node_inv n1"
    by (rule turn_of_inv) (use drain_keeps_inv [OF that] in \<open>auto\<close>)
  have busy: "turn_inv (turn_of (then_do (run_batch env out n1) (pop_and_process env)) Again)"
    if "sched_inv out n1" for out
  proof (rule turn_of_inv)
    fix u n2 assume "then_do (run_batch env out n1) (pop_and_process env) = (Inr u, n2)"
    then obtain v s where a: "run_batch env out n1 = (Inr v, s)" and b: "pop_and_process env s = (Inr u, n2)"
      unfolding then_do_ok by blast
    show "turn_inv (Again n2)"
      using pop_and_process_inv [OF run_batch_inv [OF that a] b] by simp
  qed
  show ?thesis
  proof (cases x)
    case (Inl e)
    then show ?thesis using assms sch by (simp add: normal_turn_def)
  next
    case (Inr out)
    then show ?thesis
      using assms sch schedule_idle [OF inv] schedule_sched_inv [OF inv] idle busy
      by (simp add: normal_turn_def)
  qed
qed

lemma overlap_step_inv:
  assumes "node_inv n1"
  shows "turn_inv (overlap_step env disable n1)"
proof -
  have idle: "turn_inv (turn_of (drain_results env n2) (\<lambda>n3.
      if \<not> has_work n3 then Leave n3 else if stop_requested env n3 then Leave n3 else Again n3))"
    if "node_inv n2" for n2
    by (rule turn_of_inv) (use drain_keeps_inv [OF that] in \<open>auto\<close>)
  have busy: "turn_inv (turn_of (run_batch env out n2) (\<lambda>n3.
      turn_of (if \<not> disable \<and> 1 < length (n_result_queue n3) then pop_and_process env n3 else (Inr (), n3)) Again))"
    if "sched_inv out n2" for out n2
  proof (intro turn_of_inv)
    fix u v n3 n4
    assume "run_batch env out n2 = (Inr u, n3)"
      and p: "(if \<not> disable \<and> 1 < length (n_result_queue n3) then pop_and_process env n3 else (Inr (), n3)) = (Inr v, n4)"
    then have "node_inv n3" using run_batch_inv [OF that] by blast
    then have "node_inv n4"
      using p pop_keeps_inv [of n3 v n4] by (cases disable; cases "1 < length (n_result_queue n3)") simp_all
    then show "turn_inv (Again n4)" by simp
  qed
  obtain x n2 where sch: "schedule n1 = (x, n2)" by fastforce
  show ?thesis
  proof (cases x)
    case (Inl e)
    then show ?thesis using sch by (simp add: overlap_step_def)
  next
    case (Inr out)
    then show ?thesis using sch schedule_idle [OF assms] schedule_sched_inv [OF assms] idle busy
      by (simp add: overlap_step_def)
  qed
qed

lemma overlap_turn_inv:
  assumes "node_inv n"
  shows "turn_inv (overlap_turn env n)"
proof -
  define n0 where "n0 = run_before_schedule env n"
  have n0: "node_inv n0" unfolding n0_def by (rule before_inv [OF assms])
  have "turn_inv (turn_of (if d then drain_results env n0 else (Inr (), n0)) (overlap_step env d'))" for d d'
    by (rule turn_of_inv, rule overlap_step_inv) (use n0 drain_keeps_inv [OF n0] in \<open>auto split: if_splits\<close>)
  then show ?thesis using assms unfolding overlap_turn_def Let_def n0_def [symmetric]
    by (cases "stop_requested env n") simp_all
qed

end

section \<open>Histories\<close>

inductive node_step ::
  "('a, ('a, 'm) node_scheme) node_env \<Rightarrow> ('a, 'm) node_scheme \<Rightarrow> ('a, 'm) node_scheme \<Rightarrow> bool"
  for env where
  step_add: "fresh_req r \<Longrightarrow> hint_ok h \<Longrightarrow> add_request r h n = (Inr (), n') \<Longrightarrow> node_step env n n'"
| step_normal: "normal_turn env n = Again n' \<or> normal_turn env n = Leave n' \<Longrightarrow> node_step env n n'"
| step_overlap: "overlap_turn env n = Again n' \<or> overlap_turn env n = Leave n' \<Longrightarrow> node_step env n n'"
| step_drain: "drain_results env n = (Inr u, n') \<Longrightarrow> node_step env n n'"
| step_release: "n_reqs n rid = Some r \<Longrightarrow> finished r \<Longrightarrow> release_req rid n = (x, n') \<Longrightarrow> node_step env n n'"

inductive_cases node_stepE: "node_step env n n'"

lemma add_request_node_inv:
  assumes inv: "node_inv n" and fr: "fresh_req r" "hint_ok h" and add: "add_request r h n = (Inr (), n')"
  shows "node_inv n'"
proof -
  have "n_result_queue n' = n_result_queue n" "n_role n' = n_role n" "n_running n' = n_running n"
    using add by (auto simp: add_request_def Let_def split: if_splits)
  then show ?thesis
    using inv add_request_pending_inv [OF node_invD(1) [OF inv] fr add]
    by (simp add: node_inv_def pending_of_def use_runner_tokens_def)
qed

lemma release_req_node_inv:
  assumes inv: "node_inv n" and r: "n_reqs n rid = Some r" "finished r" and rel: "release_req rid n = (x, n')"
  shows "node_inv n'"
proof -
  note p = node_invD(1) [OF inv]
  have n': "n' = n\<lparr>n_reqs := (n_reqs n)(rid := None)\<rparr>" using rel by (simp add: release_req_def)
  have out: "rid \<notin> set (n_running n @ n_waiting n)" using pending_invD(1) [OF p r(1)] r(2) by simp
  have cong: "req_inv n' y z ps \<longleftrightarrow> req_inv n y z ps" for y z ps
    by (rule req_inv_local) (simp_all add: n')
  have "req_inv n' y z (pend y (pending_of n)) \<and> (finished z \<longleftrightarrow> y \<notin> set (n_running n' @ n_waiting n'))"
    if "n_reqs n' y = Some z" for y z
    using that pending_invD(1) [OF p, of y z] by (cases "y = rid") (simp_all add: n' cong [unfolded n'])
  moreover have "queues_ok n'" using pending_invD(3) [OF p] out by (auto simp: queues_ok_def n')
  ultimately have "pending_inv (pending_of n') n'"
    using pending_invD(2) [OF p] by (simp add: pending_inv_def n' pending_of_def)
  then show ?thesis using node_invD(2-4) [OF inv] by (simp add: node_inv_def n' use_runner_tokens_def)
qed

lemma node_inv_init: "node_inv (node_init pool role)"
  by (simp add: node_init_def node_inv_def pending_inv_def pending_of_def queues_ok_def get0_def)

context node_services
begin

lemma node_step_inv:
  assumes "node_step env n n'" "node_inv n"
  shows "node_inv n'"
  using assms(1)
proof (cases rule: node_step.cases)
  case (step_normal)
  then show ?thesis using normal_turn_inv [OF assms(2)] by auto
next
  case (step_overlap)
  then show ?thesis using overlap_turn_inv [OF assms(2)] by auto
qed (use assms(2) add_request_node_inv drain_keeps_inv release_req_node_inv in blast)+

lemma node_reachable_inv: "(node_step env)\<^sup>*\<^sup>* n0 n \<Longrightarrow> node_inv n0 \<Longrightarrow> node_inv n"
  by (induction rule: rtranclp_induct) (auto intro: node_step_inv)

end

end
