(* ===== verification/Node_Theorems.thy ===== *)
theory Node_Theorems
  imports Node_Reach
begin

text \<open>
  The theorems about the node scheduler: the limits and the geometry of a scheduled step, the
  quota of every request along every history, the tokens a mock decode delivers, and the
  fence around a batch.
\<close>

section \<open>A concrete workload\<close>

text \<open>A scheduler on the in-memory agent and the mock backend, with one request of two prompt
  tokens and one new token; the executor answers every batch with no tokens, as the mock
  backend takes them from the host.\<close>

definition mock_exec :: executor where
  "mock_exec out h reqs = Inr \<lparr>mro_step_id = step_id out, next_token_ids = Map.empty,
     next_draft_tokens = Map.empty, mro_model_backend = ''mock''\<rparr>"

definition mock_env :: "(mem_agent, mem_agent node) node_env" where
  "mock_env = \<lparr>ne_ops = in_memory_agent, ne_exec = mock_exec, ne_on_finished = None,
     ne_before_schedule = None, ne_should_stop = None\<rparr>"

definition demo_req :: req where
  "demo_req = (case build_req_from_generate ''a'' ''m'' [5, 7] 1 ''w'' of Inr r \<Rightarrow> r)"

definition demo_role :: role_config where
  "demo_role = default_role_config\<lparr>model_backend := ''mock'', max_num_scheduled_tokens := 4\<rparr>"

definition demo_start :: "mem_agent node" where
  "demo_start = node_init (pool_init mem_init 0 False) demo_role"

definition demo_node :: "mem_agent node" where
  "demo_node = snd (add_request demo_req None demo_start)"

definition turn_state :: "'s turn \<Rightarrow> 's" where
  "turn_state t = (case t of Leave n \<Rightarrow> n | Raise e n \<Rightarrow> n | Again n \<Rightarrow> n)"

definition turn_again :: "'s turn \<Rightarrow> bool" where
  "turn_again t = (case t of Again n \<Rightarrow> True | _ \<Rightarrow> False)"

definition demo_prefilled :: "mem_agent node" where
  "demo_prefilled = turn_state (normal_turn mock_env demo_node)"

definition demo_finished :: "mem_agent node" where
  "demo_finished = turn_state (normal_turn mock_env demo_prefilled)"

lemma turn_again_state: "turn_again t \<Longrightarrow> t = Again (turn_state t)"
  by (cases t) (simp_all add: turn_again_def turn_state_def)

lemma mock_env_services: "node_services mock_env"
  by unfold_locales
    (auto simp: mock_env_def mock_exec_def answer_ok_def out_pos_def get_list_def intro: less_imp_le)

interpretation mock_node: node_services mock_env
  by (rule mock_env_services)

lemma demo_req_fresh: "fresh_req demo_req"
  by (simp add: demo_req_def build_req_from_generate_def fresh_req_def)

lemma demo_add: "add_request demo_req None demo_start = (Inr (), demo_node)"
  by (simp add: demo_node_def demo_start_def add_request_def Let_def node_init_def demo_req_def
      build_req_from_generate_def demo_role_def default_role_config_def)

lemma demo_prefill_turn: "turn_again (normal_turn mock_env demo_node)"
  by code_simp

lemma demo_decode_turn: "turn_again (normal_turn mock_env demo_prefilled)"
  by code_simp

lemma demo_turns:
  "normal_turn mock_env demo_node = Again demo_prefilled"
  "normal_turn mock_env demo_prefilled = Again demo_finished"
  unfolding demo_prefilled_def demo_finished_def
  by (rule turn_again_state, rule demo_prefill_turn)
    (rule turn_again_state, rule demo_decode_turn [unfolded demo_prefilled_def])

lemma demo_history: "(node_step mock_env)\<^sup>*\<^sup>* demo_start demo_finished"
proof -
  have "node_step mock_env demo_start demo_node"
    by (rule step_add [OF demo_req_fresh _ demo_add]) (simp add: hint_ok_def)
  moreover have "node_step mock_env demo_node demo_prefilled"
    by (rule step_normal [OF disjI1 [OF demo_turns(1)]])
  moreover have "node_step mock_env demo_prefilled demo_finished"
    by (rule step_normal [OF disjI1 [OF demo_turns(2)]])
  ultimately show ?thesis
    by (blast intro: converse_rtranclp_into_rtranclp rtranclp.rtrancl_refl)
qed

lemma demo_finished_req:
  "map_option (\<lambda>r. (finished r, output_token_ids r)) (n_reqs demo_finished ''a'') = Some (True, [1008])"
  by code_simp

lemma demo_node_queues: "n_running demo_node = []" "n_waiting demo_node = [''a'']" "n_reqs demo_node ''a'' = Some demo_req"
  by (simp_all add: demo_node_def demo_start_def add_request_def Let_def node_init_def demo_req_def
      build_req_from_generate_def demo_role_def default_role_config_def admit_hint_def)


section \<open>One scheduled step\<close>

text \<open>C4. A call of \<open>schedule\<close> on queues whose requests are known never raises. The step it
  composes stays within the token budget, its total is the sum of its entries, every entry is
  positive and belongs to a running request, no request is scheduled twice, and the running
  list never exceeds \<^verbatim>\<open>max_running_reqs\<close>.\<close>

theorem schedule_within_limits:
  assumes "queues_ok n"
  shows "\<exists>out n'. schedule n = (Inr out, n')
    \<and> total_num_scheduled_tokens out = sum_list (dict_vals (num_scheduled_tokens out))
    \<and> total_num_scheduled_tokens out \<le> max 0 (max_num_scheduled_tokens (n_role n))
    \<and> distinct (dict_keys (num_scheduled_tokens out))
    \<and> (\<forall>(rid, k) \<in> set (num_scheduled_tokens out). 0 < k \<and> rid \<in> set (n_running n'))
    \<and> n_running n' @ n_waiting n' = n_running n @ n_waiting n
    \<and> (py_len (n_running n) \<le> max_running_reqs (n_role n) \<longrightarrow>
         py_len (n_running n') \<le> max_running_reqs (n_role n))"
proof -
  obtain out es infl where s: "schedule n = (Inr out, (begin_step n)\<lparr>n_inflight_decode := infl\<rparr>)"
    "out_repr es out"
    "entries_ok (begin_step n) (n_inflight_decode n)
       (max 0 (max_num_scheduled_tokens (n_role n))) (set (n_running (begin_step n))) es"
    by (rule schedule_spec [OF assms])
  have pos: "0 < se_k e" if "e \<in> set es" for e
    using s(3) that by (auto simp: entries_ok_def entry_ok_def decode_ok_def extend_ok_def)
  have "\<forall>(rid, k) \<in> set (num_scheduled_tokens out). 0 < k \<and> rid \<in> set (n_running (begin_step n))"
    using s(2,3) pos by (auto simp: out_repr_def entries_ok_def)
  then show ?thesis
    using s begin_step_queues(1,2) [of n]
    by (intro exI [of _ out] exI [of _ "(begin_step n)\<lparr>n_inflight_decode := infl\<rparr>"])
      (auto simp: out_repr_def entries_ok_def comp_def)
qed

theorem schedule_within_limits_witness:
  "queues_ok demo_node \<and> is_ok (fst (schedule demo_node))"
proof
  show "queues_ok demo_node" by (simp add: queues_ok_def demo_node_queues dom_def)
  then show "is_ok (fst (schedule demo_node))" using schedule_within_limits [of demo_node] by auto
qed

lemma se_write_req_id [simp]: "io_req_id (se_write e) = se_rid e"
  by (simp add: se_write_def io_set_def)









section \<open>Every history\<close>

lemma req_inv_total:
  assumes "req_inv n rid r ps"
  shows "num_output_tokens r + get0 (n_inflight_decode n) rid \<le> max_new_tokens (req_sampling r)"
proof (cases "use_runner_tokens n")
  case True
  then show ?thesis using assms by (simp add: req_inv_def quota_ok_def)
next
  case False
  have q: "quota_ok n rid r" "0 < max_new_tokens (req_sampling r)"
    using assms by (simp_all add: req_inv_def)
  show ?thesis
  proof (cases "model_backend (n_role n) = ''mock''")
    case True
    then have "py_len (output_token_ids r @ get_list (n_mock_remaining n) rid) = max_new_tokens (req_sampling r)"
      using q False length_mock_decode_tokens by (simp add: quota_ok_def)
    then show ?thesis using q(1) False by (simp add: quota_ok_def num_output_tokens_def)
  next
    case nomock: False
    then show ?thesis using q False by (auto simp: quota_ok_def num_output_tokens_def)
  qed
qed

lemma req_inv_phase:
  assumes "req_inv n rid r ps"
  shows "if num_computed_tokens r < py_len (prompt_token_ids r)
    then get0 (n_inflight_decode n) rid = 0
      \<and> (\<exists>ks. ps = map (\<lambda>k. (k, num_computed_tokens r)) ks \<and> length ks \<le> 1)
    else num_computed_tokens r = py_len (all_token_ids r) \<and> get0 (n_inflight_decode n) rid = py_len ps"
proof (cases "num_computed_tokens r < py_len (prompt_token_ids r)")
  case True
  have "phase_ok n rid r ps" using assms by (simp add: req_inv_def)
  from this [unfolded phase_ok_def Let_def if_P [OF True]]
  have "get0 (n_inflight_decode n) rid = 0" "ps = [] \<or> (\<exists>k. ps = [(k, num_computed_tokens r)])" by auto
  then show ?thesis using True by (auto intro: exI [of _ "[]"] exI [of _ "[k]" for k])
next
  case False
  have "phase_ok n rid r ps" using assms by (simp add: req_inv_def)
  from this [unfolded phase_ok_def Let_def if_not_P [OF False]] show ?thesis
    using False by (simp add: all_token_ids_def num_output_tokens_def)
qed

text \<open>C1. Along every history of admissions, loop turns, drains and releases, whatever the agent
  drops and however steps overlap: what a request has produced plus what is scheduled and not
  yet processed never exceeds its \<^verbatim>\<open>max_new_tokens\<close>, the in-flight counter is exactly the
  number of pending generation tokens, at most one prompt chunk is pending and it starts where
  the request stands, and a request is finished exactly when it has all its tokens and has left
  both queues.\<close>

theorem node_request_quota:
  assumes "node_services env" "(node_step env)\<^sup>*\<^sup>* (node_init pool role) n" "n_reqs n rid = Some r"
  shows "num_output_tokens r + get0 (n_inflight_decode n) rid \<le> max_new_tokens (req_sampling r)
    \<and> (finished r \<longleftrightarrow> num_output_tokens r = max_new_tokens (req_sampling r))
    \<and> (finished r \<longleftrightarrow> rid \<notin> set (n_running n @ n_waiting n))
    \<and> (if num_computed_tokens r < py_len (prompt_token_ids r)
       then get0 (n_inflight_decode n) rid = 0
         \<and> (\<exists>ks. pend rid (pending_of n) = map (\<lambda>k. (k, num_computed_tokens r)) ks \<and> length ks \<le> 1)
       else num_computed_tokens r = py_len (all_token_ids r)
         \<and> get0 (n_inflight_decode n) rid = py_len (pend rid (pending_of n)))"
proof -
  have inv: "pending_inv (pending_of n) n"
    using node_services.node_reachable_inv [OF assms(1,2) node_inv_init] by (rule node_invD(1))
  note d = pending_invD(1) [OF inv assms(3)]
  have ri: "req_inv n rid r (pend rid (pending_of n))" using d by simp
  have "num_output_tokens r + get0 (n_inflight_decode n) rid \<le> max_new_tokens (req_sampling r)"
    by (rule req_inv_total [OF ri])
  moreover have "finished r \<longleftrightarrow> num_output_tokens r = max_new_tokens (req_sampling r)"
    using ri by (auto simp: req_inv_def split: if_splits)
  moreover have "finished r \<longleftrightarrow> rid \<notin> set (n_running n @ n_waiting n)" using d by simp
  ultimately show ?thesis using req_inv_phase [OF ri] by blast
qed

theorem node_request_quota_witness:
  "\<exists>r. n_reqs demo_finished ''a'' = Some r \<and> finished r \<and> num_output_tokens r = max_new_tokens (req_sampling r)"
proof -
  obtain r where r: "n_reqs demo_finished ''a'' = Some r" "finished r"
    using demo_finished_req by auto
  then show ?thesis
    using node_request_quota [OF mock_env_services demo_history [unfolded demo_start_def] r(1)] by blast
qed

text \<open>C2. On the mock backend the tokens a request has at any point of any history are a prefix
  of \<open>mock_decode_tokens\<close> of its prompt, and a finished request has exactly that list:
  batching, chunking, overlap and dropped steps never lose, repeat or reorder a token.\<close>

theorem node_mock_tokens:
  assumes "node_services env" "(node_step env)\<^sup>*\<^sup>* (node_init pool role) n" "n_reqs n rid = Some r"
    "model_backend (n_role n) = ''mock''"
  shows "output_token_ids r = take (length (output_token_ids r))
      (mock_decode_tokens (prompt_token_ids r) (max_new_tokens (req_sampling r)))
    \<and> (finished r \<longrightarrow>
        output_token_ids r = mock_decode_tokens (prompt_token_ids r) (max_new_tokens (req_sampling r)))"
proof -
  let ?ts = "mock_decode_tokens (prompt_token_ids r) (max_new_tokens (req_sampling r))"
  have inv: "pending_inv (pending_of n) n"
    using node_services.node_reachable_inv [OF assms(1,2) node_inv_init] by (rule node_invD(1))
  have ri: "req_inv n rid r (pend rid (pending_of n))" using pending_invD(1) [OF inv assms(3)] by simp
  then have eq: "output_token_ids r @ get_list (n_mock_remaining n) rid = ?ts"
    using assms(4) by (simp add: req_inv_def quota_ok_def use_runner_tokens_def)
  then have "output_token_ids r = take (length (output_token_ids r)) ?ts" by (metis append_eq_conv_conj)
  moreover have "output_token_ids r = ?ts" if "finished r"
  proof -
    have "py_len ?ts = num_output_tokens r"
      using ri that length_mock_decode_tokens by (simp add: req_inv_def)
    then have "get_list (n_mock_remaining n) rid = []" using eq [symmetric] by (simp add: num_output_tokens_def)
    then show ?thesis using eq by simp
  qed
  ultimately show ?thesis by blast
qed

lemma demo_finished_backend: "model_backend (n_role demo_finished) = ''mock''"
  by code_simp

theorem node_mock_tokens_witness:
  "\<exists>r. n_reqs demo_finished ''a'' = Some r
     \<and> output_token_ids r = mock_decode_tokens (prompt_token_ids r) (max_new_tokens (req_sampling r))"
proof -
  obtain r where r: "n_reqs demo_finished ''a'' = Some r" "finished r"
    using demo_finished_req by auto
  then show ?thesis
    using node_mock_tokens [OF mock_env_services demo_history [unfolded demo_start_def] r(1) demo_finished_backend]
    by blast
qed

section \<open>The fence around a batch\<close>

text \<open>C5. Running a batch lowers the agent's fence on every path once the facade has accepted the
  ready handle, an executor that raises included; the only way to leave \<open>run_batch\<close> with
  the fence raised is a ready handle the facade refuses after the agent granted it.\<close>

theorem run_batch_fence:
  assumes "fenced_agent (ne_ops env) fence" "fence (pi_agent (n_pool n)) = None"
    "run_batch env out n = (x, n')"
  shows "fence (pi_agent (n_pool n')) = None \<or>
    (\<exists>h c. fst (ag_prepare_step (ne_ops env) (plan_of out (n_pool n))
          (bind_reqs (ne_ops env) (n_reqs n) (pi_agent (n_pool n)))) = Inr h
      \<and> validate_ready (pi_allow_partial_hit (n_pool n)) out h = Inl c \<and> x = Inl (NE_Pool c))"
proof -
  obtain y p1 where pr: "pool_prepare_step (ne_ops env) out (n_reqs n) (n_pool n) = (y, p1)" by fastforce
  show ?thesis
  proof (cases y)
    case (Inl c)
    then have n': "n_pool n' = p1" "x = Inl (NE_Pool c)"
      using assms(3) pr by (auto simp: run_batch_def)
    show ?thesis
      using fenced_agent.pool_prepare_raise_cases [OF assms(1), of out "n_reqs n" "n_pool n" c] assms(2) pr Inl n'
      by auto
  next
    case (Inr ready)
    obtain out' n2 where re: "respect_effective_sets out ready (n\<lparr>n_pool := p1\<rparr>) = (out', n2)" by fastforce
    have p: "fence (pi_agent p1) = Some (step_id out)"
      using fenced_agent.pool_prepare_fence [OF assms(1), of out "n_reqs n" "n_pool n" ready] pr Inr by simp
    have "step_id out' = step_id out" "n_pool n2 = p1"
      using respect_step_id [OF re] by simp_all
    then have "n_pool n' = snd (pool_done (ne_ops env) (step_id out) p1)"
      using assms(3) pr Inr re
      by (auto simp: run_batch_def Let_def split: prod.splits sum.splits)
    then show ?thesis using fenced_agent.pool_done_fence [OF assms(1) p] by simp
  qed
qed

definition demo_batch :: scheduler_output where
  "demo_batch = (case fst (schedule demo_node) of Inr out \<Rightarrow> out)"

lemma demo_batch_valid:
  "case fst (mem_prepare_step (plan_of demo_batch (n_pool demo_node)) mem_init) of
     Inl e \<Rightarrow> False
   | Inr h \<Rightarrow> is_ok (validate_ready False demo_batch h)"
  by code_simp

lemma demo_pool: "n_pool demo_node = pool_init mem_init 0 False"
  by (simp add: demo_node_def demo_start_def add_request_def Let_def node_init_def)

theorem run_batch_fence_witness:
  "ma_ready_step (pi_agent (n_pool (snd (run_batch mock_env demo_batch demo_node)))) = None"
proof -
  have ops: "ne_ops mock_env = in_memory_agent" by (simp add: mock_env_def)
  have agent: "fenced_agent (ne_ops mock_env) ma_ready_step"
    unfolding ops by (rule mem.fenced_agent_axioms)
  have start: "ma_ready_step (pi_agent (n_pool demo_node)) = None"
    by (simp add: demo_pool pool_init_def mem_init_def)
  have "\<not> (\<exists>h c. fst (ag_prepare_step (ne_ops mock_env) (plan_of demo_batch (n_pool demo_node))
          (bind_reqs (ne_ops mock_env) (n_reqs demo_node) (pi_agent (n_pool demo_node)))) = Inr h
      \<and> validate_ready (pi_allow_partial_hit (n_pool demo_node)) demo_batch h = Inl c)"
    using demo_batch_valid
    by (auto simp: ops in_memory_agent_def bind_reqs_def demo_pool pool_init_def split: sum.splits)
  then show ?thesis
    using run_batch_fence [OF agent start, of demo_batch] by (metis prod.collapse)
qed

end
