(* ===== verification/Kv_Types.thy ===== *)
theory Kv_Types
  imports Py_Text
begin

text \<open>
  The vocabulary of the KV manager (\<^verbatim>\<open>kvcm\<close>): prefixes and instances of \<^verbatim>\<open>ops/types.py\<close>, the
  task handles, task states and exceptions of \<^verbatim>\<open>ops/base.py\<close>, the capability record of
  \<^verbatim>\<open>ops/capability.py\<close>, and the JSON text in which the ledger keeps token lists.

  Wall-clock and monotonic times are integers in an arbitrary unit: the code only compares
  and subtracts them.
\<close>

section \<open>Prefixes, instances, handles\<close>

type_synonym instance_id = string
type_synonym time = int

record prefix =
  model_id :: string
  token_ids :: "int list"

datatype task_status = TS_PENDING | TS_RUNNING | TS_READY | TS_FAILED

datatype op_kind = OP_COPY | OP_MOVE | OP_RETAIN

primrec op_value :: "op_kind \<Rightarrow> string" where
  "op_value OP_COPY = ''copy''"
| "op_value OP_MOVE = ''move''"
| "op_value OP_RETAIN = ''retain''"

text \<open>A task number is opaque to the orchestration: the store's pair of integers, or any other
  value, of which only its text is known.\<close>

datatype task_id = Tid_Pair int int | Tid_Text string

record task_handle =
  h_op :: op_kind
  h_task_ids :: "task_id list"

text \<open>What an operation of the manager may raise. A submission error carries the handle of the
  tasks that were already accepted. \<open>Ledger_Shutdown\<close> is the runtime error of a thread pool that is closed.\<close>

datatype kv_exn =
    IntentInputError | QueryError | VerifyError | SubmitError "task_handle option"
  | AdmissionWait | AdmissionStop | UnsupportedCapabilityError | NotImplementedError
  | Kv_KeyError | Kv_ValueError | Kv_RuntimeError | StoreClientError | SegmentNotFound
  | AdminError "int option" | AdminMainError | CancelledError | PrefetchError
  | Ledger_Shutdown | Sqlite_Error | Other_Exception

section \<open>Capabilities\<close>

datatype support = Sup_YES | Sup_NO | Sup_UNKNOWN

record capability =
  cap_rpc :: support
  cap_channel :: support

record backend_capability =
  has_lease :: capability
  soft_pin_after :: capability
  hard_pin_after :: capability
  can_copy_with_source :: capability
  has_offload :: capability
  has_promotion :: capability
  has_per_key_demote :: capability
  has_task_cancel :: capability
  has_local_segment :: capability
  has_local_disk_mount :: capability
  has_dfs_replica :: capability
  has_admin_query :: capability
  has_tenant_quota :: capability

section \<open>Token lists as JSON text\<close>

text \<open>\<^verbatim>\<open>json.dumps\<close> of a list of integers, and \<^verbatim>\<open>json.loads\<close> on the texts that denote such a
  list (every other text is refused).\<close>

definition json_dumps_ints :: "int list \<Rightarrow> string" where
  "json_dumps_ints xs = CHR ''['' # py_join '', '' (map show_int xs) @ '']''"

definition json_space :: "char \<Rightarrow> bool" where
  "json_space c = (c \<in> {CHR '' '', CHR 0x09, CHR 0x0A, CHR 0x0D})"

definition json_strip :: "string \<Rightarrow> string" where
  "json_strip s = rev (dropWhile json_space (rev (dropWhile json_space s)))"

definition json_nat :: "string \<Rightarrow> nat option" where
  "json_nat s = (if s = [] \<or> (hd s = CHR ''0'' \<and> length s \<noteq> 1) \<or> \<not> (\<forall>c \<in> set s. digit_val c \<noteq> None)
     then None else read_digits 0 False s)"

definition json_int :: "string \<Rightarrow> int option" where
  "json_int s = (case strip_head ''-'' s of
     Some t \<Rightarrow> map_option (\<lambda>n. - int n) (json_nat t)
   | None \<Rightarrow> map_option int (json_nat s))"

fun opt_all :: "'a option list \<Rightarrow> 'a list option" where
  "opt_all [] = Some []"
| "opt_all (None # xs) = None"
| "opt_all (Some x # xs) = map_option ((#) x) (opt_all xs)"

definition json_loads_ints :: "string \<Rightarrow> int list option" where
  "json_loads_ints s = (let t = json_strip s in
     if length t < 2 \<or> hd t \<noteq> CHR ''['' \<or> last t \<noteq> CHR '']'' then None
     else let inner = json_strip (butlast (tl t)) in
       if inner = [] then Some []
       else opt_all (map (json_int \<circ> json_strip) (py_split CHR '','' inner)))"

lemma opt_all_map_Some [simp]: "opt_all (map Some xs) = Some xs"
  by (induction xs) auto

lemma json_strip_id:
  assumes "s \<noteq> []" "\<not> json_space (hd s)" "\<not> json_space (last s)"
  shows "json_strip s = s"
proof -
  have d: "dropWhile json_space t = t" if "t \<noteq> []" "\<not> json_space (hd t)" for t
    using that by (cases t) auto
  show ?thesis using assms by (simp add: json_strip_def d hd_rev)
qed

lemma json_strip_pad [simp]: "json_strip (CHR '' '' # s) = json_strip s"
  by (simp add: json_strip_def json_space_def)

lemma digit_char_json:
  assumes "d < 10"
  shows "\<not> json_space (digit_char d)" "digit_char d = CHR ''0'' \<longleftrightarrow> d = 0"
proof -
  have k: "of_char (digit_char d) = (48 + d :: nat)" by (rule of_char_digit_char [OF assms])
  have ne: "digit_char d \<noteq> c" if "of_char c < (48::nat)" for c using that k by auto
  show "\<not> json_space (digit_char d)" unfolding json_space_def insert_iff empty_iff
    by (simp add: ne)
  have "digit_char d = CHR ''0'' \<longleftrightarrow> of_char (digit_char d) = (of_char CHR ''0'' :: nat)"
    by (rule of_char_eq_iff [symmetric])
  then show "digit_char d = CHR ''0'' \<longleftrightarrow> d = 0" unfolding k by simp
qed

lemma show_nat_leading: "hd (show_nat n) = CHR ''0'' \<Longrightarrow> n = 0"
proof (induction n rule: show_nat.induct)
  case (1 n)
  then show ?case
    by (cases "n < 10"; subst (asm) (2) show_nat.simps) (auto simp: digit_char_json)
qed

lemma json_nat_show [simp]: "json_nat (show_nat n) = Some n"
proof -
  have "\<forall>c \<in> set (show_nat n). digit_val c \<noteq> None" using show_nat_digits by fastforce
  moreover have "length (show_nat 0) = 1" by (subst show_nat.simps) simp
  then have "hd (show_nat n) = CHR ''0'' \<Longrightarrow> length (show_nat n) = 1"
    using show_nat_leading [of n] by auto
  ultimately show ?thesis by (auto simp: json_nat_def read_show_nat)
qed

lemma show_nat_no_minus: "strip_head ''-'' (show_nat n) = None"
proof -
  obtain c cs where s: "show_nat n = c # cs" by (cases "show_nat n") auto
  then obtain d where "d < 10" "c = digit_char d" using show_nat_digits [of c n] by auto
  then show ?thesis using s digit_char_props(1) by (simp add: strip_head_def)
qed

lemma json_int_show [simp]: "json_int (show_int i) = Some i"
proof (cases "i < 0")
  case True
  then have "show_int i = ''-'' @ show_nat (nat (- i))" by (simp add: show_int_def)
  then show ?thesis using True by (simp only: json_int_def strip_head_append) simp
qed (simp add: json_int_def show_int_def show_nat_no_minus)

lemma show_int_ends:
  "\<not> json_space (hd (show_int i))" "\<not> json_space (last (show_int i))" "CHR '','' \<notin> set (show_int i)"
proof -
  have n: "\<not> json_space c" if "c \<in> set (show_int i)" for c
    using show_int_chars [OF that] digit_char_json(1) by (auto simp: json_space_def)
  show "\<not> json_space (hd (show_int i))" "\<not> json_space (last (show_int i))" by (simp_all add: n)
  show "CHR '','' \<notin> set (show_int i)"
    using show_int_chars digit_char_props(5) by fastforce
qed

lemma py_join_ends:
  assumes "xs \<noteq> []" "\<forall>x \<in> set xs. x \<noteq> []"
  shows "py_join sep xs \<noteq> []" "hd (py_join sep xs) = hd (hd xs)" "last (py_join sep xs) = last (last xs)"
proof -
  have "py_join sep xs \<noteq> [] \<and> hd (py_join sep xs) = hd (hd xs) \<and> last (py_join sep xs) = last (last xs)"
    using assms by (induction sep xs rule: py_join.induct) auto
  then show "py_join sep xs \<noteq> []" "hd (py_join sep xs) = hd (hd xs)"
    "last (py_join sep xs) = last (last xs)" by auto
qed

lemma json_ints_fields:
  "map (json_int \<circ> json_strip) (py_split CHR '','' (py_join '', '' (map show_int (x # xs)))) =
   map Some (x # xs)"
proof -
  have "py_split CHR '','' (py_join '', '' (map show_int (x # xs))) =
      show_int x # map ((#) CHR '' '' \<circ> show_int) xs"
    using py_join_pad [of "CHR '',''" "'' ''" "show_int x" "map show_int xs"]
    by (simp add: py_split_join show_int_ends(3) o_def)
  moreover have "json_strip (show_int i) = show_int i" for i
    by (rule json_strip_id) (simp_all add: show_int_ends)
  ultimately show ?thesis by simp
qed

lemma json_ints_round_trip [simp]: "json_loads_ints (json_dumps_ints xs) = Some xs"
proof (cases xs)
  case Nil
  then show ?thesis by (simp add: json_dumps_ints_def json_loads_ints_def json_strip_def json_space_def)
next
  case (Cons y ys)
  let ?j = "py_join '', '' (map show_int xs)"
  have j: "?j \<noteq> []" "hd ?j = hd (show_int y)" "last ?j = last (show_int (last xs))"
    using py_join_ends [of "map show_int xs" "'', ''"] Cons by (auto simp: last_map)
  have "json_strip (json_dumps_ints xs) = json_dumps_ints xs"
    by (rule json_strip_id) (simp_all add: json_dumps_ints_def json_space_def)
  moreover have "json_strip ?j = ?j"
    by (rule json_strip_id) (simp_all add: j show_int_ends)
  moreover have "map (json_int \<circ> json_strip) (py_split CHR '','' ?j) = map Some xs"
    using json_ints_fields [of y ys] Cons by simp
  ultimately show ?thesis using j(1)
    by (simp add: json_loads_ints_def json_dumps_ints_def Let_def butlast_append)
qed

lemma json_dumps_nonempty [simp]: "json_dumps_ints xs \<noteq> []"
  by (simp add: json_dumps_ints_def)

end
