(* ===== verification/Instances.thy ===== *)
theory Instances
  imports Kv_Types
begin

text \<open>
  The in-process directory of engine instances (\<^verbatim>\<open>kvcm/instances.py\<close>): instance name to the
  rank-ordered list of its segments, filled once from the \<^verbatim>\<open>--instance-segs\<close> arguments.
\<close>

type_synonym directory = "instance_id \<rightharpoonup> string list"

definition clean_segs :: "string list \<Rightarrow> string list" where
  "clean_segs segs = filter (\<lambda>s. s \<noteq> []) (map py_strip segs)"

definition register_instance :: "instance_id \<Rightarrow> string list \<Rightarrow> directory \<Rightarrow> kv_exn + directory" where
  "register_instance instance segs d =
     (let inst = py_strip instance; ordered = clean_segs segs in
      if inst = [] then Inl Kv_ValueError
      else if ordered = [] then Inl Kv_ValueError
      else if d inst \<noteq> None then Inl Kv_ValueError
      else Inr (d(inst \<mapsto> ordered)))"

definition locate :: "directory \<Rightarrow> instance_id \<Rightarrow> kv_exn + string list" where
  "locate d instance = (case d (py_strip instance) of
     Some segs \<Rightarrow> Inr segs | None \<Rightarrow> Inl IntentInputError)"

definition parse_instance_segs :: "string \<Rightarrow> kv_exn + instance_id \<times> string list" where
  "parse_instance_segs spec = (case py_partition CHR ''='' spec of
     (inst, None) \<Rightarrow> Inl Kv_ValueError
   | (inst, Some rest) \<Rightarrow>
       (let inst = py_strip inst; segs = clean_segs (py_split CHR '','' rest) in
        if inst = [] \<or> segs = [] then Inl Kv_ValueError else Inr (inst, segs)))"

fun register_specs :: "string list \<Rightarrow> directory \<Rightarrow> kv_exn + directory" where
  "register_specs [] d = Inr d"
| "register_specs (spec # specs) d =
    bind_res (parse_instance_segs spec) (\<lambda>(inst, segs).
      bind_res (register_instance inst segs d) (register_specs specs))"

definition directory_from_specs :: "string list \<Rightarrow> kv_exn + directory" where
  "directory_from_specs specs =
     (if specs = [] then Inl Kv_ValueError else register_specs specs Map.empty)"

section \<open>What the directory holds\<close>

lemma dropWhile_idem_hd: "dropWhile P (dropWhile P xs) = dropWhile P xs"
  by (induction xs) auto

lemma py_strip_stable [simp]: "py_strip (py_strip s) = py_strip s"
proof -
  let ?d = "dropWhile is_space"
  have "?d (rev (?d t)) = rev (?d t)" if "?d (rev t) = rev t" for t
  proof (cases "?d t = []")
    case False
    then have "last (?d t) = last t" by (metis last_appendR takeWhile_dropWhile_id)
    moreover have "t \<noteq> []" using False by auto
    then have "\<not> is_space (last t)" using that
      by (metis dropWhile_eq_self_iff hd_rev rev_is_Nil_conv)
    ultimately show ?thesis using False by (simp add: dropWhile_eq_self_iff hd_rev)
  next
    case True
    then show ?thesis by (simp only: rev.simps dropWhile.simps)
  qed
  from this [of "rev (?d s)"] show ?thesis
    by (simp add: py_strip_def dropWhile_idem_hd)
qed

lemma clean_segs_stable: "clean_segs (clean_segs segs) = clean_segs segs"
  by (induction segs) (auto simp: clean_segs_def)

lemma parse_instance_segs_clean:
  assumes "parse_instance_segs spec = Inr (inst, segs)"
  shows "py_strip inst = inst" "inst \<noteq> []" "clean_segs segs = segs" "segs \<noteq> []"
  using assms by (auto simp: parse_instance_segs_def clean_segs_stable Let_def
      split: prod.splits option.splits if_splits)

lemma register_specs_Inr:
  assumes "register_specs specs d = Inr d'"
  shows "\<exists>regs. map_res parse_instance_segs specs = Inr regs \<and> distinct (map fst regs) \<and>
    (\<forall>(i, segs) \<in> set regs. d i = None) \<and> d' = d ++ map_of regs"
  using assms
proof (induction specs arbitrary: d)
  case (Cons spec specs)
  from Cons.prems obtain inst segs d1 where
    p: "parse_instance_segs spec = Inr (inst, segs)" and
    r: "register_instance inst segs d = Inr d1" and rest: "register_specs specs d1 = Inr d'"
    by (auto simp: bind_res_Inr_iff)
  note c = parse_instance_segs_clean [OF p]
  have d1: "d inst = None" "d1 = d(inst \<mapsto> segs)"
    using r c by (auto simp: register_instance_def Let_def split: if_splits)
  from Cons.IH [OF rest] obtain regs where
    q: "map_res parse_instance_segs specs = Inr regs" "distinct (map fst regs)"
      "\<forall>(i, segs) \<in> set regs. d1 i = None" "d' = d1 ++ map_of regs" by blast
  have new: "inst \<notin> fst ` set regs" using q(3) d1(2) by auto
  have "d' = d ++ map_of ((inst, segs) # regs)"
    using q(4) d1(2) new by (simp add: map_add_upd_left dom_map_of_conv_image_fst)
  moreover have "\<forall>(i, segs) \<in> set ((inst, segs) # regs). d i = None"
    using q(3) d1 by (auto split: if_splits)
  moreover have "map_res parse_instance_segs (spec # specs) = Inr ((inst, segs) # regs)"
    using p q(1) by simp
  moreover have "distinct (map fst ((inst, segs) # regs))" using q(2) new by simp
  ultimately show ?case by blast
qed simp

section \<open>Properties\<close>

text \<open>A directory built from the command line registers exactly what the arguments say: every
  argument parses, no instance is named twice, looking an instance up (with any surrounding blanks)
  gives the segments of its own argument in order, never an empty list, and an instance that no
  argument names is refused with an input error rather than answered with another's segments.\<close>

theorem directory_locates_specs:
  assumes "directory_from_specs specs = Inr d"
  shows "\<exists>regs. map_res parse_instance_segs specs = Inr regs \<and> distinct (map fst regs) \<and>
    (\<forall>inst. locate d inst = (case map_of regs (py_strip inst) of
        Some segs \<Rightarrow> Inr segs | None \<Rightarrow> Inl IntentInputError)) \<and>
    (\<forall>inst segs. locate d inst = Inr segs \<longrightarrow> segs \<noteq> [])"
proof -
  from assms have "register_specs specs Map.empty = Inr d"
    by (auto simp: directory_from_specs_def split: if_splits)
  from register_specs_Inr [OF this] obtain regs where
    r: "map_res parse_instance_segs specs = Inr regs" "distinct (map fst regs)" "d = map_of regs"
    by auto
  have mem: "\<exists>spec. parse_instance_segs spec = Inr x"
    if "map_res parse_instance_segs ss = Inr xs" "x \<in> set xs" for ss xs x
    using that by (induction ss arbitrary: xs) (auto simp: bind_res_Inr_iff)
  have "segs \<noteq> []" if "map_of regs i = Some segs" for i segs
    using mem [OF r(1) map_of_SomeD [OF that]] parse_instance_segs_clean(4) by blast
  then show ?thesis using r
    by (intro exI [of _ regs]) (auto simp: locate_def split: option.splits)
qed

theorem directory_locates_specs_witness:
  "\<exists>d. directory_from_specs [''a = s0, s1'', ''b=s2''] = Inr d \<and>
     locate d '' a '' = Inr [''s0'', ''s1''] \<and> locate d ''c'' = Inl IntentInputError"
proof -
  obtain d where d: "directory_from_specs [''a = s0, s1'', ''b=s2''] = Inr d"
    by (simp add: directory_from_specs_def parse_instance_segs_def clean_segs_def
        py_strip_def is_space_def register_instance_def)
  have r: "map_res parse_instance_segs [''a = s0, s1'', ''b=s2''] =
      Inr [(''a'', [''s0'', ''s1'']), (''b'', [''s2''])]"
    by (simp add: parse_instance_segs_def clean_segs_def py_strip_def is_space_def)
  have s: "py_strip '' a '' = ''a''" "py_strip ''c'' = ''c''" by (simp_all add: py_strip_def is_space_def)
  from directory_locates_specs [OF d] have
    "\<forall>inst. locate d inst = (case map_of [(''a'', [''s0'', ''s1'']), (''b'', [''s2''])] (py_strip inst) of
        Some segs \<Rightarrow> Inr segs | None \<Rightarrow> Inl IntentInputError)" unfolding r by auto
  from spec [OF this, of "'' a ''"] spec [OF this, of "''c''"] d show ?thesis by (simp add: s)
qed

end
