(* ===== verification/Admin.thy ===== *)
theory Admin
  imports Kv_Types
begin

text \<open>
  The read-only clients of the store master's HTTP administration port: \<^verbatim>\<open>admin_main.py\<close> (batched
  replica queries, segment details, tenant quotas), \<^verbatim>\<open>http_admin.py\<close> (segment usage) and the segment
  list of \<^verbatim>\<open>backends/mooncake/topology.py\<close>.

  The HTTP exchange is a parameter: \<open>fetch\<close> gives the decoded JSON of a path or raises, \<open>read_url\<close>
  gives a status and a text. A JSON document that does not parse is the value \<open>None\<close>.
\<close>

section \<open>JSON values\<close>

datatype json =
    J_Null | J_Bool bool | J_Int int | J_Float "int \<times> int" | J_Str string
  | J_List "json list" | J_Obj "(string \<times> json) list"

fun truthy :: "json \<Rightarrow> bool" where
  "truthy J_Null = False"
| "truthy (J_Bool b) = b"
| "truthy (J_Int i) = (i \<noteq> 0)"
| "truthy (J_Float (m, e)) = (m \<noteq> 0)"
| "truthy (J_Str s) = (s \<noteq> [])"
| "truthy (J_List xs) = (xs \<noteq> [])"
| "truthy (J_Obj kvs) = (kvs \<noteq> [])"

text \<open>\<^verbatim>\<open>d.get(k)\<close> of a decoded object; \<open>J_Null\<close> stands for a missing key and for \<^verbatim>\<open>null\<close>, which the
  code does not tell apart except where it indexes.\<close>

definition jget :: "(string \<times> json) list \<Rightarrow> string \<Rightarrow> json" where
  "jget d k = dict_get d k J_Null"

definition load_object :: "json option \<Rightarrow> kv_exn + (string \<times> json) list" where
  "load_object body = (case body of Some (J_Obj d) \<Rightarrow> Inr d | _ \<Rightarrow> Inl AdminMainError)"

definition require_success :: "(string \<times> json) list \<Rightarrow> kv_exn + unit" where
  "require_success d = (if jget d ''success'' = J_Bool True then Inr () else Inl AdminMainError)"

section \<open>Replica queries\<close>

record memory_view =
  mv_transport_endpoint :: string
  mv_size :: "int option"
  mv_protocol :: "string option"
  mv_buffer_address :: "int option"

record key_query =
  kq_key :: string
  kq_ok :: bool
  kq_error :: "string option"
  kq_memory :: "memory_view list"
  kq_nof :: "memory_view list"
  kq_disk_replicas :: nat
  kq_local_disk_replicas :: nat
  kq_local_disk_endpoints :: "string list"

definition int_or_none :: "json \<Rightarrow> int option" where
  "int_or_none j = (case j of J_Int i \<Rightarrow> Some i | _ \<Rightarrow> None)"

definition str_or_none :: "json \<Rightarrow> string option" where
  "str_or_none j = (case j of J_Str s \<Rightarrow> Some s | _ \<Rightarrow> None)"

definition memory_view_of :: "json \<Rightarrow> kv_exn + memory_view" where
  "memory_view_of desc = (case desc of
     J_Obj d \<Rightarrow>
       (case jget d ''transport_endpoint_'' of
          J_Str ep \<Rightarrow>
            if ep = [] then Inl AdminMainError
            else Inr \<lparr>mv_transport_endpoint = ep, mv_size = int_or_none (jget d ''size_''),
                      mv_protocol = str_or_none (jget d ''protocol_''),
                      mv_buffer_address = int_or_none (jget d ''buffer_address_'')\<rparr>
        | _ \<Rightarrow> Inl AdminMainError)
   | _ \<Rightarrow> Inl AdminMainError)"

definition memory_views :: "json \<Rightarrow> kv_exn + memory_view list" where
  "memory_views j = (case j of
     J_Null \<Rightarrow> Inr [] | J_List xs \<Rightarrow> map_res memory_view_of xs | _ \<Rightarrow> Inl AdminMainError)"

definition replica_count :: "json \<Rightarrow> kv_exn + nat" where
  "replica_count j = (case j of
     J_Null \<Rightarrow> Inr 0 | J_List xs \<Rightarrow> Inr (length xs) | _ \<Rightarrow> Inl AdminMainError)"

definition disk_endpoint_of :: "json \<Rightarrow> kv_exn + string list" where
  "disk_endpoint_of desc = (case desc of
     J_Obj d \<Rightarrow>
       (let ep = jget d ''transport_endpoint'';
            ep = (if ep = J_Null then jget d ''transport_endpoint_'' else ep)
        in case ep of J_Str s \<Rightarrow> Inr (if s = [] then [] else [s]) | _ \<Rightarrow> Inr [])
   | _ \<Rightarrow> Inl AdminMainError)"

definition local_disk_endpoints :: "json \<Rightarrow> kv_exn + string list" where
  "local_disk_endpoints j = (case j of
     J_Null \<Rightarrow> Inr []
   | J_List xs \<Rightarrow> bind_res (map_res disk_endpoint_of xs) (\<lambda>eps. Inr (concat eps))
   | _ \<Rightarrow> Inl AdminMainError)"

definition key_query_of :: "string \<times> json \<Rightarrow> kv_exn + string \<times> key_query" where
  "key_query_of = (\<lambda>(key, item). case item of
     J_Obj d \<Rightarrow>
       (let ok = truthy (jget d ''ok''); err = jget d ''error'' in
        if err \<noteq> J_Null \<and> str_or_none err = None then Inl AdminMainError
        else if \<not> ok then
          Inr (key, \<lparr>kq_key = key, kq_ok = False, kq_error = str_or_none err, kq_memory = [], kq_nof = [],
                     kq_disk_replicas = 0, kq_local_disk_replicas = 0, kq_local_disk_endpoints = []\<rparr>)
        else
          bind_res (memory_views (jget d ''values'')) (\<lambda>memory.
          bind_res (memory_views (jget d ''nof_values'')) (\<lambda>nof.
          bind_res (replica_count (jget d ''local_disk_values'')) (\<lambda>local_disks.
          bind_res (replica_count (jget d ''disk_values'')) (\<lambda>disks.
          bind_res (local_disk_endpoints (jget d ''local_disk_values'')) (\<lambda>eps.
            Inr (key, \<lparr>kq_key = key, kq_ok = True, kq_error = str_or_none err, kq_memory = memory,
                       kq_nof = nof, kq_disk_replicas = disks + local_disks,
                       kq_local_disk_replicas = local_disks, kq_local_disk_endpoints = eps\<rparr>)))))))
   | _ \<Rightarrow> Inl AdminMainError)"

definition parse_batch_query_keys :: "json option \<Rightarrow> kv_exn + (string, key_query) dict" where
  "parse_batch_query_keys body = bind_res (load_object body) (\<lambda>payload.
     bind_res (require_success payload) (\<lambda>_.
       case jget payload ''data'' of
         J_Obj data \<Rightarrow> bind_res (map_res key_query_of data) (\<lambda>rows. Inr (dict_update [] rows))
       | _ \<Rightarrow> Inl AdminMainError))"

section \<open>Batches that fit a request line\<close>

definition unreserved :: "char \<Rightarrow> bool" where
  "unreserved c = (let k = (of_char c :: nat) in
     (48 \<le> k \<and> k \<le> 57) \<or> (65 \<le> k \<and> k \<le> 90) \<or> (97 \<le> k \<and> k \<le> 122) \<or> c \<in> set ''_.-~'')"

definition hex_digit :: "nat \<Rightarrow> char" where
  "hex_digit d = (if d < 10 then char_of (48 + d) else char_of (55 + d))"

definition url_quote :: "string \<Rightarrow> string \<Rightarrow> string" where
  "url_quote safe s = concat (map (\<lambda>c. if unreserved c \<or> c \<in> set safe then [c]
     else [CHR ''%'', hex_digit (of_char c div 16), hex_digit (of_char c mod 16)]) s)"

definition batch_query_path :: "string list \<Rightarrow> string" where
  "batch_query_path keys = ''/batch_query_keys?keys='' @ py_join '','' (map (url_quote []) keys)"

definition request_line_len :: "string list \<Rightarrow> nat" where
  "request_line_len keys = length ''GET '' + length (batch_query_path keys) + length '' HTTP/1.1''"

definition max_batch_query_request_bytes :: nat where
  "max_batch_query_request_bytes = 8192"

definition fetch_batch_query :: "(string \<Rightarrow> kv_exn + json option) \<Rightarrow> string list \<Rightarrow> kv_exn + (string, key_query) dict" where
  "fetch_batch_query fetch keys = bind_res (fetch (batch_query_path keys)) parse_batch_query_keys"

text \<open>The loop of \<^verbatim>\<open>batch_query_keys\<close>: \<open>batch\<close> is the pending batch, \<open>merged\<close> the answers so far.\<close>

fun batch_query_loop ::
  "(string \<Rightarrow> kv_exn + json option) \<Rightarrow> string list \<Rightarrow> (string, key_query) dict \<Rightarrow> string list \<Rightarrow>
   kv_exn + (string, key_query) dict" where
  "batch_query_loop fetch batch merged [] =
    bind_res (fetch_batch_query fetch batch) (\<lambda>d. Inr (dict_update merged d))"
| "batch_query_loop fetch batch merged (key # keys) =
    (if batch \<noteq> [] \<and> request_line_len (batch @ [key]) > max_batch_query_request_bytes
     then bind_res (fetch_batch_query fetch batch) (\<lambda>d.
            batch_query_loop fetch [key] (dict_update merged d) keys)
     else batch_query_loop fetch (batch @ [key]) merged keys)"

definition batch_query_keys :: "(string \<Rightarrow> kv_exn + json option) \<Rightarrow> string list \<Rightarrow> kv_exn + (string, key_query) dict" where
  "batch_query_keys fetch keys =
     (if keys = [] then Inl AdminMainError else batch_query_loop fetch [] [] keys)"

section \<open>Segment details\<close>

record segment_detail =
  sd_segment_name :: string
  sd_te_endpoint :: string
  sd_protocol :: string
  sd_status :: string

definition segment_detail_of :: "json \<Rightarrow> kv_exn + segment_detail" where
  "segment_detail_of row = (case row of
     J_Obj d \<Rightarrow>
       (case (jget d ''segment_name'', jget d ''te_endpoint'') of
          (J_Str name, J_Str ep) \<Rightarrow>
            if py_strip name = [] \<or> py_strip ep = [] then Inl AdminMainError
            else Inr \<lparr>sd_segment_name = py_strip name, sd_te_endpoint = py_strip ep,
                      sd_protocol = (case jget d ''protocol'' of J_Str p \<Rightarrow> p | _ \<Rightarrow> []),
                      sd_status = (case jget d ''status'' of J_Str p \<Rightarrow> p | _ \<Rightarrow> [])\<rparr>
        | _ \<Rightarrow> Inl AdminMainError)
   | _ \<Rightarrow> Inl AdminMainError)"

definition parse_segments_detail :: "json option \<Rightarrow> kv_exn + segment_detail list" where
  "parse_segments_detail body = bind_res (load_object body) (\<lambda>payload.
     case jget payload ''segments'' of
       J_List rows \<Rightarrow> map_res segment_detail_of rows
     | _ \<Rightarrow> Inl AdminMainError)"

text \<open>\<open>by_name\<close> is a Python dict comprehension: the last row of a name wins. The messages name the
  missing and the mismatched segments.\<close>

definition validate_configured_segs :: "string list \<Rightarrow> segment_detail list \<Rightarrow> kv_exn + unit" where
  "validate_configured_segs configured details =
     (let by_name = map_of (rev (map (\<lambda>d. (sd_segment_name d, d)) details));
          segs = filter (\<lambda>s. s \<noteq> []) (map py_strip configured);
          missing = filter (\<lambda>s. by_name s = None) segs;
          mismatched = filter (\<lambda>s. \<exists>row. by_name s = Some row \<and> sd_te_endpoint row \<noteq> s) segs
      in if missing = [] \<and> mismatched = [] then Inr () else Inl AdminMainError)"

section \<open>Tenant quotas\<close>

record tenant_quota =
  tq_tenant_id :: string
  tq_requested_quota_bytes :: int
  tq_effective_quota_bytes :: int
  tq_charged_bytes :: int
  tq_admission_closed :: bool
  tq_over_quota :: bool
  tq_has_explicit_policy :: bool

definition u64 :: "json option \<Rightarrow> kv_exn + int" where
  "u64 j = (case j of Some (J_Int i) \<Rightarrow> if i < 0 then Inl AdminMainError else Inr i | _ \<Rightarrow> Inl AdminMainError)"

definition field_bool :: "json option \<Rightarrow> kv_exn + bool" where
  "field_bool j = (case j of None \<Rightarrow> Inl AdminMainError | Some v \<Rightarrow> Inr (truthy v))"

text \<open>\<open>str_of\<close> is Python's \<^verbatim>\<open>str\<close> on a decoded value.\<close>

definition quota_of :: "(json \<Rightarrow> string) \<Rightarrow> json \<Rightarrow> kv_exn + tenant_quota" where
  "quota_of str_of row = (case row of
     J_Obj d \<Rightarrow>
       (case map_of d ''tenant_id'' of
          None \<Rightarrow> Inl AdminMainError
        | Some t \<Rightarrow>
            bind_res (u64 (map_of d ''requested_quota_bytes'')) (\<lambda>rq.
            bind_res (u64 (map_of d ''effective_quota_bytes'')) (\<lambda>ef.
            bind_res (u64 (map_of d ''charged_bytes'')) (\<lambda>ch.
            bind_res (field_bool (map_of d ''admission_closed'')) (\<lambda>ac.
            bind_res (field_bool (map_of d ''over_quota'')) (\<lambda>ov.
            bind_res (field_bool (map_of d ''has_explicit_policy'')) (\<lambda>ep.
              Inr \<lparr>tq_tenant_id = str_of t, tq_requested_quota_bytes = rq, tq_effective_quota_bytes = ef,
                   tq_charged_bytes = ch, tq_admission_closed = ac, tq_over_quota = ov,
                   tq_has_explicit_policy = ep\<rparr>)))))))
   | _ \<Rightarrow> Inl AdminMainError)"

definition parse_tenant_quotas :: "(json \<Rightarrow> string) \<Rightarrow> json option \<Rightarrow> kv_exn + tenant_quota list" where
  "parse_tenant_quotas str_of body = bind_res (load_object body) (\<lambda>payload.
     bind_res (require_success payload) (\<lambda>_.
       case jget payload ''data'' of
         J_Obj d \<Rightarrow> map_res (quota_of str_of) [J_Obj d]
       | J_List rows \<Rightarrow> map_res (quota_of str_of) rows
       | _ \<Rightarrow> Inl AdminMainError))"

definition get_tenant_quotas ::
  "(json \<Rightarrow> string) \<Rightarrow> (string \<Rightarrow> kv_exn + json option) \<Rightarrow> string option \<Rightarrow> kv_exn + tenant_quota list" where
  "get_tenant_quotas str_of fetch tenant_id = (case tenant_id of
     None \<Rightarrow> bind_res (fetch ''/api/v1/tenant_quotas'') (parse_tenant_quotas str_of)
   | Some t \<Rightarrow>
       if t = [] then Inl AdminMainError
       else bind_res (fetch (''/api/v1/tenant_quotas?tenant_id='' @ url_quote [] t)) (parse_tenant_quotas str_of))"

definition get_segments_detail :: "(string \<Rightarrow> kv_exn + json option) \<Rightarrow> kv_exn + segment_detail list" where
  "get_segments_detail fetch = bind_res (fetch ''/get_segments_detail'') parse_segments_detail"

section \<open>Segment usage\<close>

text \<open>The regular expressions \<^verbatim>\<open>^Used\(bytes\):\s*(\d+)\s*$\<close> and \<^verbatim>\<open>^Capacity\(bytes\)\s*:\s*(\d+)\s*$\<close>
  of the multi-line mode: \<open>line_number\<close> is the part after the colon, \<open>search_lines\<close> tries each line
  start in turn. The trailing blanks may run over line ends, so a match needs the text to end or a
  line to end within them.\<close>

definition line_number :: "string \<Rightarrow> int option" where
  "line_number s =
     (let t = dropWhile is_space s;
          ds = takeWhile (\<lambda>c. digit_val c \<noteq> None) t;
          after = dropWhile (\<lambda>c. digit_val c \<noteq> None) t in
      if ds \<noteq> [] \<and> (dropWhile is_space after = [] \<or> CHR 0x0A \<in> set (takeWhile is_space after))
      then map_option int (read_digits 0 False ds) else None)"

definition used_here :: "string \<Rightarrow> int option" where
  "used_here s = (case strip_head ''Used(bytes):'' s of None \<Rightarrow> None | Some t \<Rightarrow> line_number t)"

definition capacity_here :: "string \<Rightarrow> int option" where
  "capacity_here s = (case strip_head ''Capacity(bytes)'' s of
     None \<Rightarrow> None
   | Some t \<Rightarrow> (case strip_head '':'' (dropWhile is_space t) of None \<Rightarrow> None | Some u \<Rightarrow> line_number u))"

function search_lines :: "(string \<Rightarrow> int option) \<Rightarrow> string \<Rightarrow> int option" where
  "search_lines f s = (case f s of
     Some x \<Rightarrow> Some x
   | None \<Rightarrow> (case dropWhile (\<lambda>c. c \<noteq> CHR 0x0A) s of [] \<Rightarrow> None | c # t \<Rightarrow> search_lines f t))"
  by pat_completeness auto

termination search_lines
proof (relation "measure (\<lambda>(f, s). length s)")
  fix f :: "string \<Rightarrow> int option" and s c t
  assume "dropWhile (\<lambda>c. c \<noteq> CHR 0x0A) s = c # t"
  then have "length (c # t) \<le> length s" by (metis length_dropWhile_le)
  then show "((f, t), (f, s)) \<in> measure (\<lambda>(f, s). length s)" by simp
qed simp

declare search_lines.simps [simp del]

definition parse_query_segment :: "string \<Rightarrow> (int \<times> int) option" where
  "parse_query_segment body = (case (search_lines used_here body, search_lines capacity_here body) of
     (Some u, Some c) \<Rightarrow> Some (u, c) | _ \<Rightarrow> None)"

definition query_segment :: "(string \<Rightarrow> kv_exn + int \<times> string) \<Rightarrow> string \<Rightarrow> kv_exn + int \<times> int" where
  "query_segment read_url segment =
     bind_res (read_url (''/query_segment?segment='' @ url_quote '':/[]'' segment)) (\<lambda>(status, body).
       if py_strip body = ''Failed to query segment'' \<or> status = 404 then Inl SegmentNotFound
       else if status \<ge> 500 then Inl (AdminError (Some status))
       else (case parse_query_segment body of
               None \<Rightarrow> Inl (AdminError (Some status)) | Some uc \<Rightarrow> Inr uc))"

text \<open>The segment list of \<^verbatim>\<open>SegTopology\<close>, on the lines of the answer.\<close>

definition topology_segments :: "string list \<Rightarrow> kv_exn + string list" where
  "topology_segments body_lines =
     (let segs = filter (\<lambda>s. s \<noteq> []) (map py_strip body_lines) in
      if segs = [] then Inl Kv_RuntimeError else Inr segs)"

end
