(* ===== verification/Admin_Laws.thy ===== *)
theory Admin_Laws
  imports Admin "HOL-Library.Sublist"
begin

text \<open>
  Batching a replica query does not change its answer and keeps every request within the request
  line limit, and the usage text of a segment is read back as the numbers it was printed from.
\<close>

section \<open>Batched queries\<close>

definition answers :: "(string, key_query) dict \<Rightarrow> (string \<Rightarrow> key_query) \<Rightarrow> string set \<Rightarrow> bool" where
  "answers d q ks = (map_of d = (\<lambda>k. if k \<in> ks then Some (q k) else None))"

definition fits :: "string list \<Rightarrow> bool" where
  "fits ks = (ks \<noteq> [] \<and> (length ks = 1 \<or> request_line_len ks \<le> max_batch_query_request_bytes))"

lemma map_of_dict_update: "map_of (dict_update d e) k = (case map_of (rev e) k of None \<Rightarrow> map_of d k | Some v \<Rightarrow> Some v)"
proof (induction e arbitrary: d)
  case (Cons x e)
  then show ?case
    by (cases x) (auto simp: dict_update_def map_of_dict_set map_add_def split: option.splits)
qed (simp add: dict_update_def)

lemma map_of_rev_distinct:
  assumes "distinct (map fst d)"
  shows "map_of (rev d) = map_of d"
proof
  fix k
  have "distinct (map fst (rev d))" using assms by (simp add: rev_map [symmetric])
  then have "map_of (rev d) k = Some v \<longleftrightarrow> map_of d k = Some v" for v
    using assms by (simp add: map_of_eq_Some_iff)
  then show "map_of (rev d) k = map_of d k" by (metis not_Some_eq)
qed

lemma distinct_dict_update: "distinct (map fst d) \<Longrightarrow> distinct (map fst (dict_update d e))"
  unfolding dict_update_def
  by (induction e arbitrary: d) (auto simp: distinct_dict_set)

lemma fetch_distinct: "fetch_batch_query fetch ks = Inr d \<Longrightarrow> distinct (map fst d)"
proof -
  assume "fetch_batch_query fetch ks = Inr d"
  then obtain payload where "(case jget payload ''data'' of
       J_Obj data \<Rightarrow> bind_res (map_res key_query_of data) (\<lambda>rows. Inr (dict_update [] rows))
     | _ \<Rightarrow> Inl AdminMainError) = Inr d"
    by (auto simp: fetch_batch_query_def parse_batch_query_keys_def bind_res_Inr_iff)
  then show ?thesis
    by (cases "jget payload ''data''") (auto simp: bind_res_Inr_iff distinct_dict_update)
qed

lemma answers_update:
  assumes "answers d q ks" "fetch_batch_query fetch b = Inr e" "answers e q (set b)"
  shows "answers (dict_update d e) q (ks \<union> set b)"
  using assms(1,3) map_of_rev_distinct [OF fetch_distinct [OF assms(2)]]
  by (auto simp: answers_def fun_eq_iff map_of_dict_update split: option.splits)

lemma batch_query_loop_answers:
  assumes srv: "\<And>ks. fits ks \<Longrightarrow> sublist ks (pre @ batch @ keys) \<Longrightarrow>
      \<exists>d. fetch_batch_query fetch ks = Inr d \<and> answers d q (set ks)"
    and "batch \<noteq> [] \<Longrightarrow> fits batch" "batch \<noteq> [] \<or> keys \<noteq> []" "answers merged q ks"
  shows "\<exists>d. batch_query_loop fetch batch merged keys = Inr d \<and> answers d q (ks \<union> set batch \<union> set keys)"
  using assms
proof (induction keys arbitrary: pre batch merged ks)
  case Nil
  have "sublist batch (pre @ batch @ [])" by simp
  then obtain d where "fetch_batch_query fetch batch = Inr d" "answers d q (set batch)"
    using Nil.prems(1) [of batch] Nil.prems(2,3) by blast
  then show ?case using answers_update Nil.prems(4) by auto
next
  case (Cons key keys)
  show ?case
  proof (cases "batch \<noteq> [] \<and> request_line_len (batch @ [key]) > max_batch_query_request_bytes")
    case True
    have "sublist batch (pre @ batch @ key # keys)" by (simp add: sublist_appendI)
    then obtain d where d: "fetch_batch_query fetch batch = Inr d" "answers d q (set batch)"
      using Cons.prems(1) [of batch] Cons.prems(2) True by blast
    have "\<exists>r. batch_query_loop fetch [key] (dict_update merged d) keys = Inr r \<and>
        answers r q ((ks \<union> set batch) \<union> set [key] \<union> set keys)"
      by (rule Cons.IH [of "pre @ batch"])
        (use Cons.prems(1) answers_update [OF Cons.prems(4) d] in \<open>simp_all add: fits_def\<close>)
    then show ?thesis using True d(1) by (simp add: Un_assoc)
  next
    case False
    then have f: "fits (batch @ [key])" by (auto simp: fits_def)
    have "\<exists>d. batch_query_loop fetch (batch @ [key]) merged keys = Inr d \<and>
        answers d q (ks \<union> set (batch @ [key]) \<union> set keys)"
      by (rule Cons.IH [of pre]) (use Cons.prems(1,4) f in simp_all)
    moreover have "batch_query_loop fetch batch merged (key # keys) = batch_query_loop fetch (batch @ [key]) merged keys"
      using False by auto
    ultimately show ?thesis by (simp add: Un_assoc)
  qed
qed

section \<open>Reading usage texts\<close>

lemma search_lines_skip:
  assumes "f (line @ CHR 0x0A # s) = None" "CHR 0x0A \<notin> set line"
  shows "search_lines f (line @ CHR 0x0A # s) = search_lines f s"
proof -
  have "dropWhile (\<lambda>c. c \<noteq> CHR 0x0A) (line @ CHR 0x0A # s) = CHR 0x0A # s"
    using assms(2) by (induction line) auto
  then show ?thesis using assms(1) by (subst search_lines.simps) simp
qed

lemma digit_val_show_nat: "\<forall>c \<in> set (show_nat n). digit_val c \<noteq> None"
  using show_nat_digits by fastforce

lemma line_number_show:
  "line_number (CHR '' '' # show_nat n @ CHR 0x0A # s) = Some (int n)"
proof -
  have sp: "is_space CHR '' ''" "is_space CHR 0x0A" by (simp_all add: is_space_def)
  have nl: "digit_val CHR 0x0A = None" by (simp add: digit_val_def)
  obtain c cs where cs: "show_nat n = c # cs" by (cases "show_nat n") auto
  then have "\<not> is_space c" using show_nat_digits [of c n] digit_char_props(3) by auto
  then have d: "dropWhile is_space (CHR '' '' # show_nat n @ CHR 0x0A # s) = show_nat n @ CHR 0x0A # s"
    using sp cs by simp
  have "takeWhile (\<lambda>c. digit_val c \<noteq> None) (show_nat n @ CHR 0x0A # s) = show_nat n"
    "dropWhile (\<lambda>c. digit_val c \<noteq> None) (show_nat n @ CHR 0x0A # s) = CHR 0x0A # s"
    using digit_val_show_nat [of n] nl by (auto simp: takeWhile_append dropWhile_append)
  then show ?thesis unfolding line_number_def Let_def d using sp by (simp add: read_show_nat)
qed

definition usage_text :: "string \<Rightarrow> nat \<Rightarrow> nat \<Rightarrow> string" where
  "usage_text name used cap = name @ CHR 0x0A # ''Used(bytes): '' @ show_nat used @ CHR 0x0A #
     ''Capacity(bytes) : '' @ show_nat cap @ [CHR 0x0A]"

lemma show_nat_no_newline: "CHR 0x0A \<notin> set (show_nat n)"
proof
  assume "CHR 0x0A \<in> set (show_nat n)"
  then have "\<not> is_space CHR 0x0A" using show_nat_digits digit_char_props(3) by metis
  then show False by (simp add: is_space_def)
qed

lemma parse_usage_text:
  assumes "CHR 0x0A \<notin> set name" "used_here (usage_text name used cap) = None"
    "capacity_here (usage_text name used cap) = None"
  shows "parse_query_segment (usage_text name used cap) = Some (int used, int cap)"
proof -
  let ?u = "''Used(bytes): '' @ show_nat used" and ?c = "''Capacity(bytes) : '' @ show_nat cap"
  let ?body = "name @ CHR 0x0A # ?u @ CHR 0x0A # ?c @ [CHR 0x0A]"
  have b: "usage_text name used cap = ?body" by (simp add: usage_text_def)
  have "used_here (?u @ CHR 0x0A # ?c @ [CHR 0x0A]) = Some (int used)"
    using line_number_show [of used "?c @ [CHR 0x0A]"] by (simp add: used_here_def strip_head_def)
  then have "search_lines used_here ?body = Some (int used)"
    using search_lines_skip [of used_here name] assms(1,2) by (subst (asm) b) (simp add: search_lines.simps)
  moreover have "capacity_here (?c @ [CHR 0x0A]) = Some (int cap)"
    using line_number_show [of cap "[]"] by (simp add: capacity_here_def strip_head_def is_space_def)
  then have "search_lines capacity_here (?c @ [CHR 0x0A]) = Some (int cap)" by (subst search_lines.simps) simp
  moreover have "search_lines capacity_here (?u @ CHR 0x0A # ?c @ [CHR 0x0A]) =
      search_lines capacity_here (?c @ [CHR 0x0A])"
    by (rule search_lines_skip) (simp_all add: capacity_here_def strip_head_def show_nat_no_newline)
  moreover have "search_lines capacity_here ?body = search_lines capacity_here (?u @ CHR 0x0A # ?c @ [CHR 0x0A])"
    using search_lines_skip [of capacity_here name] assms(1,3) by (subst (asm) b) simp
  ultimately show ?thesis unfolding parse_query_segment_def b by simp
qed

lemma py_strip_keeps: "c \<in> set s \<Longrightarrow> \<not> is_space c \<Longrightarrow> c \<in> set (py_strip s)"
proof -
  have k: "c \<in> set (dropWhile is_space t)" if "c \<in> set t" "\<not> is_space c" for t
    using that by (induction t) auto
  show "c \<in> set s \<Longrightarrow> \<not> is_space c \<Longrightarrow> c \<in> set (py_strip s)"
    using k [of s] k [of "rev (dropWhile is_space s)"] by (simp add: py_strip_def)
qed

section \<open>Properties\<close>

text \<open>C24. Splitting a replica query into batches is invisible: if the master answers every request it
  is sent that is a single key or fits the 8192-byte request line, then the merged answer holds the
  master's answer for every key asked and nothing else. No request beyond the limit is needed.\<close>

theorem batch_query_keys_merges:
  assumes "\<And>ks. ks \<noteq> [] \<Longrightarrow> sublist ks keys \<Longrightarrow> length ks = 1 \<or> request_line_len ks \<le> 8192 \<Longrightarrow>
      \<exists>d. fetch_batch_query fetch ks = Inr d \<and> map_of d = (\<lambda>k. if k \<in> set ks then Some (q k) else None)"
    and "keys \<noteq> []"
  shows "\<exists>d. batch_query_keys fetch keys = Inr d \<and>
    map_of d = (\<lambda>k. if k \<in> set keys then Some (q k) else None)"
proof -
  have "\<exists>d. fetch_batch_query fetch ks = Inr d \<and> answers d q (set ks)"
    if "fits ks" "sublist ks ([] @ [] @ keys)" for ks
    using assms(1) that by (auto simp: fits_def answers_def max_batch_query_request_bytes_def)
  from batch_query_loop_answers [where pre = "[]" and batch = "[]" and merged = "[]" and ks = "{}", OF this]
    assms(2) show ?thesis
    by (simp add: batch_query_keys_def answers_def)
qed

definition demo_query :: "string \<Rightarrow> key_query" where
  "demo_query k = \<lparr>kq_key = k, kq_ok = False, kq_error = None, kq_memory = [], kq_nof = [],
     kq_disk_replicas = 0, kq_local_disk_replicas = 0, kq_local_disk_endpoints = []\<rparr>"

definition demo_fetch :: "string \<Rightarrow> kv_exn + json option" where
  "demo_fetch path = Inr (Some (J_Obj [(''success'', J_Bool True),
     (''data'', J_Obj [(''a'', J_Obj [(''ok'', J_Bool False)])])]))"

theorem batch_query_keys_merges_witness:
  "\<exists>d. batch_query_keys demo_fetch [''a''] = Inr d \<and>
    map_of d = (\<lambda>k. if k \<in> {''a''} then Some (demo_query k) else None)"
proof -
  have "ks = [''a'']" if "ks \<noteq> []" "sublist ks [''a'']" for ks
    using that by (auto simp: sublist_Cons_right prefix_Cons)
  moreover have "\<exists>d. fetch_batch_query demo_fetch [''a''] = Inr d \<and>
      map_of d = (\<lambda>k. if k \<in> set [''a''] then Some (demo_query k) else None)"
    by (auto simp: fetch_batch_query_def demo_fetch_def parse_batch_query_keys_def load_object_def
        require_success_def jget_def dict_get_def key_query_of_def str_or_none_def dict_update_def
        demo_query_def)
  ultimately have "\<exists>d. fetch_batch_query demo_fetch ks = Inr d \<and>
      map_of d = (\<lambda>k. if k \<in> set ks then Some (demo_query k) else None)"
    if "ks \<noteq> []" "sublist ks [''a'']" "length ks = 1 \<or> request_line_len ks \<le> 8192" for ks
    using that by metis
  from batch_query_keys_merges [of "[''a'']" demo_fetch demo_query, OF this] show ?thesis by simp
qed

text \<open>The master's usage text of a segment is read back as the used bytes and the capacity it was
  printed from, whatever first line precedes them that is not itself such a line; a missing segment
  is told apart from a failing server; and a 5xx answer is never read as numbers.\<close>

theorem query_segment_reads_usage:
  assumes "CHR 0x0A \<notin> set name" and "used_here (usage_text name used cap) = None"
    and "capacity_here (usage_text name used cap) = None"
  shows "query_segment (\<lambda>path. Inr (200, usage_text name used cap)) seg = Inr (int used, int cap) \<and>
    query_segment (\<lambda>path. Inr (500, ''Failed to query segment'')) seg = Inl SegmentNotFound \<and>
    query_segment (\<lambda>path. Inr (503, usage_text name used cap)) seg = Inl (AdminError (Some 503))"
proof -
  have "CHR ''('' \<in> set (py_strip (usage_text name used cap))"
    by (rule py_strip_keeps) (simp_all add: usage_text_def is_space_def)
  moreover have "CHR ''('' \<notin> set ''Failed to query segment''" by simp
  ultimately have "py_strip (usage_text name used cap) \<noteq> ''Failed to query segment''" by metis
  moreover have "py_strip ''Failed to query segment'' = ''Failed to query segment''"
    by (simp add: py_strip_def is_space_def)
  ultimately show ?thesis using parse_usage_text [OF assms] by (simp add: query_segment_def)
qed

theorem query_segment_reads_usage_witness:
  "query_segment (\<lambda>path. Inr (200, usage_text ''10.0.0.1:17813'' 5 90)) ''s'' = Inr (5, 90)"
  using query_segment_reads_usage [of "''10.0.0.1:17813''" 5 90 "''s''"]
  by (simp add: usage_text_def used_here_def capacity_here_def strip_head_def)

end
