(* ===== verification/Ledger.thy ===== *)
theory Ledger
  imports Kv_Types
begin

text \<open>
  The state layer of the KV manager (\<^verbatim>\<open>kvcm/ledger.py\<close>): four sqlite tables. A table is the list
  of its rows in rowid order: an \<^verbatim>\<open>INSERT\<close> goes to the end, an \<^verbatim>\<open>UPDATE\<close> (the upserts) keeps the
  row's place, \<^verbatim>\<open>INSERT OR REPLACE\<close> deletes the old row and inserts at the end. All statements run
  one after the other on the ledger's own thread, so an operation is a function of the tables;
  the wall-clock time is an argument. \<open>sha\<close> is the hexadecimal SHA-256 digest of \<^verbatim>\<open>hashlib\<close>.
\<close>

section \<open>Rows and tables\<close>

definition prefix_key :: "(string \<Rightarrow> string) \<Rightarrow> prefix \<Rightarrow> string" where
  "prefix_key sha p =
     model_id p @ '':'' @ take 16 (sha (py_join '','' (map show_int (token_ids p))))"

record task_row =
  t_task_id :: string
  t_handle_id :: string
  t_op :: string
  t_prefix_key :: string
  t_target :: string
  t_status :: string
  t_model_id :: string
  t_token_ids :: string
  t_created_at :: time
  t_updated_at :: time

record task_record =
  r_task_id :: string
  r_handle_id :: string
  r_op :: string
  r_prefix_key :: string
  r_target :: string
  r_status :: string
  r_model_id :: string
  r_token_ids :: "int list"
  r_created_at :: time
  r_updated_at :: time

record keepalive_row =
  k_prefix_key :: string
  k_model_id :: string
  k_token_ids :: string
  k_registered_at :: time

record keepalive_record =
  ka_prefix :: prefix
  ka_registered_at :: time

record replica_row =
  rp_key :: string
  rp_instance :: string
  rp_verified_at :: time

record session_row =
  s_session_id :: string
  s_prefix_key :: string
  s_instance :: string
  s_model_id :: string
  s_token_ids :: string
  s_bound_at :: time

record ledger =
  l_tasks :: "task_row list"
  l_keepalive :: "keepalive_row list"
  l_replicas :: "replica_row list"
  l_sessions :: "session_row list"

definition ledger_open :: ledger where
  "ledger_open = \<lparr>l_tasks = [], l_keepalive = [], l_replicas = [], l_sessions = []\<rparr>"

text \<open>The connection: \<open>None\<close> after \<^verbatim>\<open>close\<close>, when the executor refuses every further call.\<close>

definition ledger_run :: "(ledger \<Rightarrow> 'a \<times> ledger) \<Rightarrow> ledger option \<Rightarrow> (py_exn + 'a) \<times> ledger option" where
  "ledger_run fn conn = (case conn of
     None \<Rightarrow> (Inl RuntimeError, None)
   | Some l \<Rightarrow> (let (x, l') = fn l in (Inr x, Some l')))"

definition ledger_close :: "ledger option \<Rightarrow> ledger option" where
  "ledger_close conn = None"

section \<open>Tasks\<close>

definition task_statuses :: "string set" where
  "task_statuses = {''running'', ''ready'', ''failed'', ''abandoned''}"

text \<open>\<^verbatim>\<open>INSERT ... ON CONFLICT(task_id) DO UPDATE SET status, updated_at\<close> for one row.\<close>

fun upsert_row :: "task_row \<Rightarrow> task_row list \<Rightarrow> task_row list" where
  "upsert_row r [] = [r]"
| "upsert_row r (x # xs) =
    (if t_task_id x = t_task_id r
     then x\<lparr>t_status := t_status r, t_updated_at := t_updated_at r\<rparr> # xs
     else x # upsert_row r xs)"

definition task_row_of ::
  "(string \<Rightarrow> string) \<Rightarrow> time \<Rightarrow> string \<Rightarrow> string \<Rightarrow> prefix \<Rightarrow> string \<Rightarrow> string \<Rightarrow> string \<Rightarrow> task_row" where
  "task_row_of sha now handle_id op p target status tid =
     \<lparr>t_task_id = tid, t_handle_id = handle_id, t_op = op, t_prefix_key = prefix_key sha p,
      t_target = target, t_status = status, t_model_id = model_id p,
      t_token_ids = json_dumps_ints (token_ids p), t_created_at = now, t_updated_at = now\<rparr>"

definition upsert_tasks ::
  "(string \<Rightarrow> string) \<Rightarrow> time \<Rightarrow> string list \<Rightarrow> string \<Rightarrow> string \<Rightarrow> prefix \<Rightarrow> string \<Rightarrow> string \<Rightarrow>
   ledger \<Rightarrow> py_exn + ledger" where
  "upsert_tasks sha now ids handle_id op p target status l =
     (if status \<notin> task_statuses then Inl ValueError
      else Inr (l\<lparr>l_tasks := fold (\<lambda>tid. upsert_row (task_row_of sha now handle_id op p target status tid))
                              ids (l_tasks l)\<rparr>))"

definition upsert_task ::
  "(string \<Rightarrow> string) \<Rightarrow> time \<Rightarrow> string \<Rightarrow> string \<Rightarrow> string \<Rightarrow> prefix \<Rightarrow> string \<Rightarrow> string \<Rightarrow>
   ledger \<Rightarrow> py_exn + ledger" where
  "upsert_task sha now tid handle_id op p target status l =
     upsert_tasks sha now [tid] handle_id op p target status l"

text \<open>Reading the token column: an empty text is an empty list, a malformed one raises.\<close>

definition column_tokens :: "string \<Rightarrow> py_exn + int list" where
  "column_tokens s = (if s = [] then Inr []
     else (case json_loads_ints s of Some ts \<Rightarrow> Inr ts | None \<Rightarrow> Inl ValueError))"

definition row_to_record :: "task_row \<Rightarrow> py_exn + task_record" where
  "row_to_record r = bind_res (column_tokens (t_token_ids r)) (\<lambda>ts. Inr
     \<lparr>r_task_id = t_task_id r, r_handle_id = t_handle_id r, r_op = t_op r,
      r_prefix_key = t_prefix_key r, r_target = t_target r, r_status = t_status r,
      r_model_id = t_model_id r, r_token_ids = ts, r_created_at = t_created_at r,
      r_updated_at = t_updated_at r\<rparr>)"

definition list_running_tasks :: "ledger \<Rightarrow> py_exn + task_record list" where
  "list_running_tasks l = map_res row_to_record (filter (\<lambda>r. t_status r = ''running'') (l_tasks l))"

definition list_tasks_by_handle :: "string \<Rightarrow> ledger \<Rightarrow> py_exn + task_record list" where
  "list_tasks_by_handle hid l = map_res row_to_record (filter (\<lambda>r. t_handle_id r = hid) (l_tasks l))"

definition get_task :: "string \<Rightarrow> ledger \<Rightarrow> py_exn + task_record option" where
  "get_task tid l = (case find (\<lambda>r. t_task_id r = tid) (l_tasks l) of
     None \<Rightarrow> Inr None
   | Some r \<Rightarrow> bind_res (row_to_record r) (\<lambda>rec. Inr (Some rec)))"

definition gc_tasks :: "time \<Rightarrow> time \<Rightarrow> ledger \<Rightarrow> nat \<times> ledger" where
  "gc_tasks now max_age_s l =
     (let dead = (\<lambda>r. t_status r \<noteq> ''running'' \<and> t_updated_at r < now - max_age_s)
      in (length (filter dead (l_tasks l)), l\<lparr>l_tasks := filter (Not \<circ> dead) (l_tasks l)\<rparr>))"

section \<open>Keepalive registrations\<close>

definition keepalive_row_of :: "(string \<Rightarrow> string) \<Rightarrow> time \<Rightarrow> prefix \<Rightarrow> keepalive_row" where
  "keepalive_row_of sha t p =
     \<lparr>k_prefix_key = prefix_key sha p, k_model_id = model_id p,
      k_token_ids = json_dumps_ints (token_ids p), k_registered_at = t\<rparr>"

fun upsert_keepalive :: "keepalive_row \<Rightarrow> keepalive_row list \<Rightarrow> keepalive_row list" where
  "upsert_keepalive r [] = [r]"
| "upsert_keepalive r (x # xs) =
    (if k_prefix_key x = k_prefix_key r
     then x\<lparr>k_model_id := k_model_id r, k_token_ids := k_token_ids r\<rparr> # xs
     else x # upsert_keepalive r xs)"

definition register_keepalive :: "(string \<Rightarrow> string) \<Rightarrow> time \<Rightarrow> prefix \<Rightarrow> ledger \<Rightarrow> ledger" where
  "register_keepalive sha now p l =
     l\<lparr>l_keepalive := upsert_keepalive (keepalive_row_of sha now p) (l_keepalive l)\<rparr>"

definition unregister_keepalive :: "(string \<Rightarrow> string) \<Rightarrow> prefix \<Rightarrow> ledger \<Rightarrow> ledger" where
  "unregister_keepalive sha p l =
     l\<lparr>l_keepalive := filter (\<lambda>r. k_prefix_key r \<noteq> prefix_key sha p) (l_keepalive l)\<rparr>"

definition keepalive_to_record :: "keepalive_row \<Rightarrow> py_exn + keepalive_record" where
  "keepalive_to_record r = bind_res (column_tokens (k_token_ids r)) (\<lambda>ts. Inr
     \<lparr>ka_prefix = \<lparr>model_id = k_model_id r, token_ids = ts\<rparr>, ka_registered_at = k_registered_at r\<rparr>)"

definition list_keepalive_records :: "ledger \<Rightarrow> py_exn + keepalive_record list" where
  "list_keepalive_records l =
     map_res keepalive_to_record (filter (\<lambda>r. k_token_ids r \<noteq> []) (l_keepalive l))"

definition keepalive_registered_at :: "(string \<Rightarrow> string) \<Rightarrow> prefix \<Rightarrow> ledger \<Rightarrow> time option" where
  "keepalive_registered_at sha p l =
     map_option k_registered_at (find (\<lambda>r. k_prefix_key r = prefix_key sha p) (l_keepalive l))"

definition has_keepalive :: "(string \<Rightarrow> string) \<Rightarrow> prefix \<Rightarrow> ledger \<Rightarrow> bool" where
  "has_keepalive sha p l = list_ex (\<lambda>r. k_prefix_key r = prefix_key sha p) (l_keepalive l)"

definition restore_keepalive :: "(string \<Rightarrow> string) \<Rightarrow> prefix \<Rightarrow> time \<Rightarrow> ledger \<Rightarrow> ledger" where
  "restore_keepalive sha p t l =
     (if has_keepalive sha p l then l
      else l\<lparr>l_keepalive := l_keepalive l @ [keepalive_row_of sha t p]\<rparr>)"

definition list_keepalive :: "ledger \<Rightarrow> py_exn + prefix list" where
  "list_keepalive l = bind_res (list_keepalive_records l) (\<lambda>rs. Inr (map ka_prefix rs))"

section \<open>Replicas and sessions\<close>

definition put_replica :: "time \<Rightarrow> string \<Rightarrow> string \<Rightarrow> ledger \<Rightarrow> ledger" where
  "put_replica now key inst l =
     l\<lparr>l_replicas := filter (\<lambda>r. \<not> (rp_key r = key \<and> rp_instance r = inst)) (l_replicas l)
        @ [\<lparr>rp_key = key, rp_instance = inst, rp_verified_at = now\<rparr>]\<rparr>"

definition list_replicas :: "string \<Rightarrow> ledger \<Rightarrow> string list" where
  "list_replicas key l = map rp_instance (filter (\<lambda>r. rp_key r = key) (l_replicas l))"

definition delete_replica :: "string \<Rightarrow> string \<Rightarrow> ledger \<Rightarrow> ledger" where
  "delete_replica key inst l =
     l\<lparr>l_replicas := filter (\<lambda>r. \<not> (rp_key r = key \<and> rp_instance r = inst)) (l_replicas l)\<rparr>"

definition bind_session :: "(string \<Rightarrow> string) \<Rightarrow> time \<Rightarrow> string \<Rightarrow> prefix \<Rightarrow> string \<Rightarrow> ledger \<Rightarrow> ledger" where
  "bind_session sha now sid p inst l =
     l\<lparr>l_sessions :=
        filter (\<lambda>r. \<not> (s_session_id r = sid \<and> s_prefix_key r = prefix_key sha p)) (l_sessions l)
        @ [\<lparr>s_session_id = sid, s_prefix_key = prefix_key sha p, s_instance = inst,
            s_model_id = model_id p, s_token_ids = json_dumps_ints (token_ids p), s_bound_at = now\<rparr>]\<rparr>"

definition unbind_session :: "string \<Rightarrow> ledger \<Rightarrow> ledger" where
  "unbind_session sid l = l\<lparr>l_sessions := filter (\<lambda>r. s_session_id r \<noteq> sid) (l_sessions l)\<rparr>"

definition list_session :: "string \<Rightarrow> ledger \<Rightarrow> py_exn + prefix list" where
  "list_session sid l = map_res
     (\<lambda>r. bind_res (column_tokens (s_token_ids r)) (\<lambda>ts. Inr \<lparr>model_id = s_model_id r, token_ids = ts\<rparr>))
     (filter (\<lambda>r. s_session_id r = sid \<and> s_token_ids r \<noteq> []) (l_sessions l))"

section \<open>Test support that rewrites rows\<close>

definition backdate_tasks :: "time \<Rightarrow> int \<Rightarrow> string list \<Rightarrow> ledger \<Rightarrow> ledger" where
  "backdate_tasks now days exclude l =
     (let old = now - days * 24 * 3600 in
      if exclude \<noteq> [] then
        l\<lparr>l_tasks := map (\<lambda>r. if t_task_id r \<notin> set exclude then r\<lparr>t_updated_at := old\<rparr> else r) (l_tasks l)\<rparr>
      else l\<lparr>l_tasks := map (\<lambda>r. r\<lparr>t_updated_at := old\<rparr>) (l_tasks l)\<rparr>)"

definition backdate_keepalive :: "time \<Rightarrow> time \<Rightarrow> ledger \<Rightarrow> ledger" where
  "backdate_keepalive now seconds l =
     l\<lparr>l_keepalive := map (\<lambda>r. r\<lparr>k_registered_at := now - seconds\<rparr>) (l_keepalive l)\<rparr>"

definition corrupt_task_row :: "string \<Rightarrow> ledger \<Rightarrow> ledger" where
  "corrupt_task_row tid l =
     l\<lparr>l_tasks := map (\<lambda>r. if t_task_id r = tid then r\<lparr>t_handle_id := [], t_token_ids := []\<rparr> else r)
        (l_tasks l)\<rparr>"

end
