(* ===== verification/Keys.thy ===== *)
theory Keys
  imports Kv_Types
begin

text \<open>
  Key computation of the vLLM adapter (\<^verbatim>\<open>kvcm/engines/vllm/keys.py\<close>): token sequence to block-hash
  chain to pool keys, and the plan that sends the key of rank \<open>i\<close> to the \<open>i\<close>-th target segment.

  The hash function of vLLM, its hexadecimal printing and the \<^verbatim>\<open>PoolKey\<close> class of vllm-ascend are
  not part of the repository: they are the fields of the record \<open>vllm\<close> (the upstream class is
  absent outside its container, and then the built-in mirror \<open>key_spec\<close> is used).
\<close>

section \<open>The key text and its rank\<close>

record key_spec =
  ks_model_name :: string
  ks_chunk_hash :: string
  ks_head_or_tp_rank :: int
  ks_pcp_rank :: int
  ks_dcp_rank :: int
  ks_pp_rank :: int
  ks_group_id :: int
  ks_cache_role :: string
  ks_cache_family :: string
  ks_layer_id :: "int option"

definition key_to_string :: "key_spec \<Rightarrow> string" where
  "key_to_string k = (case ks_layer_id k of
     None \<Rightarrow> ks_model_name k @ ''@pcp:'' @ show_int (ks_pcp_rank k) @ ''@dcp:'' @ show_int (ks_dcp_rank k)
       @ ''@head_or_tp_rank:'' @ show_int (ks_head_or_tp_rank k) @ ''@pp_rank:'' @ show_int (ks_pp_rank k)
       @ ''@group:'' @ show_int (ks_group_id k) @ ''@cache_role:'' @ ks_cache_role k
       @ ''@cache_family:'' @ ks_cache_family k @ ''@'' @ ks_chunk_hash k
   | Some layer \<Rightarrow> ks_model_name k @ ''@pcp:'' @ show_int (ks_pcp_rank k) @ ''@dcp:'' @ show_int (ks_dcp_rank k)
       @ ''@head_or_tp_rank:'' @ show_int (ks_head_or_tp_rank k) @ ''@group:'' @ show_int (ks_group_id k)
       @ ''@cache_role:'' @ ks_cache_role k @ ''@cache_family:'' @ ks_cache_family k
       @ ''@layer_id:'' @ show_int layer @ ''@'' @ ks_chunk_hash k)"

definition is_digit :: "char \<Rightarrow> bool" where
  "is_digit c = (digit_val c \<noteq> None)"

text \<open>The regular expression \<^verbatim>\<open>@head_or_tp_rank:(\d+)@\<close> at the start of a text, and its first match.\<close>

definition rank_here :: "string \<Rightarrow> int option" where
  "rank_here s = (case strip_head ''@head_or_tp_rank:'' s of
     None \<Rightarrow> None
   | Some t \<Rightarrow>
       (let ds = takeWhile is_digit t; rest = dropWhile is_digit t in
        if ds \<noteq> [] \<and> take 1 rest = ''@'' then map_option int (read_digits 0 False ds) else None))"

fun rank_search :: "string \<Rightarrow> int option" where
  "rank_search [] = None"
| "rank_search (c # cs) = (case rank_here (c # cs) of Some r \<Rightarrow> Some r | None \<Rightarrow> rank_search cs)"

definition parse_key_rank :: "string \<Rightarrow> kv_exn + int" where
  "parse_key_rank key = (case rank_search key of None \<Rightarrow> Inl Kv_ValueError | Some r \<Rightarrow> Inr r)"

definition group_keys_by_rank :: "string list \<Rightarrow> kv_exn + (int \<times> string list) list" where
  "group_keys_by_rank keys = bind_res (map_res parse_key_rank keys) (\<lambda>ranks.
     Inr (map (\<lambda>r. (r, map fst (filter (\<lambda>(k, q). q = r) (zip keys ranks)))) (sort (remdups ranks))))"

section \<open>Expansion over the ranks\<close>

record 'h vllm =
  v_hash_block :: "'h option \<Rightarrow> int list \<Rightarrow> 'h"
  v_hash_str :: "'h \<Rightarrow> string"
  v_pool_key :: "(key_spec \<Rightarrow> int \<Rightarrow> string list) option"
  v_hash_seed :: "string option"

definition py_range :: "int \<Rightarrow> int list" where
  "py_range n = [0..n - 1]"

definition base_spec :: "string \<Rightarrow> int \<Rightarrow> string \<Rightarrow> string \<Rightarrow> int \<Rightarrow> int \<Rightarrow> int \<Rightarrow> int \<Rightarrow> key_spec" where
  "base_spec model gid family h pcp dcp r pp =
     \<lparr>ks_model_name = model, ks_chunk_hash = h, ks_head_or_tp_rank = r, ks_pcp_rank = pcp,
      ks_dcp_rank = dcp, ks_pp_rank = pp, ks_group_id = gid, ks_cache_role = ''kv'',
      ks_cache_family = family, ks_layer_id = None\<rparr>"

definition keys_of_spec :: "'h vllm \<Rightarrow> bool \<Rightarrow> bool \<Rightarrow> int \<Rightarrow> key_spec \<Rightarrow> string list" where
  "keys_of_spec v prefer_upstream include_layers num_layers s =
     (case (if prefer_upstream then v_pool_key v else None) of
        Some mk \<Rightarrow> mk s (if include_layers then num_layers else 0)
      | None \<Rightarrow>
          if include_layers
          then map (\<lambda>layer. key_to_string (s\<lparr>ks_pp_rank := 0, ks_layer_id := Some layer\<rparr>)) (py_range num_layers)
          else [key_to_string s])"

definition head_or_tp_ranks :: "int \<Rightarrow> int \<Rightarrow> int" where
  "head_or_tp_ranks tp_size put_step = max (tp_size div max put_step 1) 1"

definition expand_store_keys ::
  "'h vllm \<Rightarrow> string \<Rightarrow> string list \<Rightarrow> int \<Rightarrow> int \<Rightarrow> int \<Rightarrow> int \<Rightarrow> int \<Rightarrow> bool \<Rightarrow> int \<Rightarrow> int \<Rightarrow> string \<Rightarrow> bool \<Rightarrow>
   kv_exn + string list" where
  "expand_store_keys v model hashes tp_size put_step pcp_size dcp_size pp_size include_layers num_layers
     gid family prefer_upstream =
     (if include_layers \<and> num_layers \<le> 0 then Inl Kv_ValueError
      else Inr (concat (map (\<lambda>h. concat (map (\<lambda>pcp. concat (map (\<lambda>dcp. concat (map (\<lambda>r.
        concat (map (\<lambda>pp. keys_of_spec v prefer_upstream include_layers num_layers
            (base_spec model gid family h pcp dcp r pp)) (py_range pp_size)))
          (py_range (head_or_tp_ranks tp_size put_step)))) (py_range dcp_size))) (py_range pcp_size))) hashes)))"

section \<open>The block-hash chain\<close>

record 'h block_chain =
  bc_block_hashes :: "'h list"
  bc_parent_block_hash :: "'h option"
  bc_token_ids :: "int list"
  bc_block_size :: int

fun hash_blocks :: "('h option \<Rightarrow> int list \<Rightarrow> 'h) \<Rightarrow> nat \<Rightarrow> 'h option \<Rightarrow> nat \<Rightarrow> int list \<Rightarrow> 'h list" where
  "hash_blocks hb bs parent 0 ts = []"
| "hash_blocks hb bs parent (Suc n) ts =
    (let h = hb parent (take bs ts) in h # hash_blocks hb bs (Some h) n (drop bs ts))"

definition hash_token_block_chain :: "'h vllm \<Rightarrow> int list \<Rightarrow> int \<Rightarrow> kv_exn + 'h block_chain" where
  "hash_token_block_chain v ts bs =
     (if v_hash_seed v \<noteq> Some ''0'' then Inl IntentInputError
      else if bs = 0 then Inl Other_Exception
      else let n_full = (py_len ts div bs) * bs;
               full_tokens = py_take n_full ts;
               blocks = (if bs < 0 then 0 else nat (n_full div bs)) in
        Inr \<lparr>bc_block_hashes = hash_blocks (v_hash_block v) (nat bs) None blocks full_tokens,
             bc_parent_block_hash = None, bc_token_ids = full_tokens, bc_block_size = bs\<rparr>)"

definition hash_token_blocks :: "'h vllm \<Rightarrow> int list \<Rightarrow> int \<Rightarrow> kv_exn + string list" where
  "hash_token_blocks v ts bs = bind_res (hash_token_block_chain v ts bs) (\<lambda>chain.
     Inr (map (v_hash_str v) (bc_block_hashes chain)))"

section \<open>The key computer\<close>

record key_computer =
  kc_model_name :: string
  kc_block_size :: int
  kc_tp_size :: int
  kc_peer_tp_size :: "int option"
  kc_put_step :: int

definition peer_or_0 :: "key_computer \<Rightarrow> int" where
  "peer_or_0 kc = (case kc_peer_tp_size kc of None \<Rightarrow> 0 | Some p \<Rightarrow> p)"

definition effective_tp :: "key_computer \<Rightarrow> int" where
  "effective_tp kc = (if peer_or_0 kc \<noteq> 0 \<and> peer_or_0 kc \<noteq> kc_tp_size kc
     then max (kc_tp_size kc) (peer_or_0 kc) else kc_tp_size kc)"

definition expand_keys :: "'h vllm \<Rightarrow> key_computer \<Rightarrow> string list \<Rightarrow> kv_exn + string list" where
  "expand_keys v kc hashes = expand_store_keys v (kc_model_name kc) hashes (effective_tp kc)
     (kc_put_step kc) 1 1 1 False 0 0 ''default'' True"

definition keys_for_tokens :: "'h vllm \<Rightarrow> key_computer \<Rightarrow> int list \<Rightarrow> kv_exn + string list" where
  "keys_for_tokens v kc ts = bind_res (hash_token_blocks v ts (kc_block_size kc)) (expand_keys v kc)"

text \<open>The heterogeneous case of the plan: fewer targets than the ranks the keys were expanded for.\<close>

definition spread_targets :: "key_computer \<Rightarrow> int \<Rightarrow> string list \<Rightarrow> kv_exn + string list" where
  "spread_targets kc max_rank targets =
     (let local = kc_tp_size kc; peer = peer_or_0 kc; eff = max local peer;
          n_sub = (if local \<noteq> 0 then eff div local else 1) in
      if peer \<noteq> 0 \<and> peer > local \<and> local > 0 \<and> eff mod local = 0 \<and> py_len targets = local \<and> max_rank = eff - 1
      then Inr (map (\<lambda>i. targets ! nat (i div n_sub)) (py_range eff))
      else Inl IntentInputError)"

definition build_plan :: "key_computer \<Rightarrow> string list \<Rightarrow> string list \<Rightarrow> kv_exn + (string \<times> string) list" where
  "build_plan kc keys targets = bind_res (map_res parse_key_rank keys) (\<lambda>ranks.
     if ranks = [] then Inr []
     else let max_rank = Max (set ranks) in
       if max_rank \<le> 0 then
         (if length targets \<noteq> 1 then Inl IntentInputError else Inr (map (\<lambda>k. (k, targets ! 0)) keys))
       else bind_res (if max_rank \<ge> py_len targets then spread_targets kc max_rank targets else Inr targets)
         (\<lambda>targets.
            if (\<exists>r \<in> set ranks. r < 0 \<or> r \<ge> py_len targets) then Inl IntentInputError
            else if py_len targets > max_rank + 1 then Inl IntentInputError
            else Inr (map2 (\<lambda>k r. (k, targets ! nat r)) keys ranks)))"

text \<open>\<^verbatim>\<open>load_keys_file\<close> on the lines of the file.\<close>

definition load_keys :: "string list \<Rightarrow> string list" where
  "load_keys lines = filter (\<lambda>s. s \<noteq> [] \<and> take 1 s \<noteq> ''#'') (map py_strip lines)"

end
