(* ===== verification/Store_Client.thy ===== *)
theory Store_Client
  imports Kv_Types
begin

text \<open>
  The wrapper of the mooncake store binding (\<^verbatim>\<open>backends/mooncake/client.py\<close>). What the binding returns
  is an argument: the wrapper's work is to accept only well-formed answers and to turn every other one
  into \<^verbatim>\<open>StoreClientError\<close>. A return code is a Python bool or int.
\<close>

section \<open>Connection\<close>

datatype store_code = SC_Bool bool | SC_Int int

record store_client =
  sc_connected :: bool

definition client_init :: store_client where
  "client_init = \<lparr>sc_connected = False\<rparr>"

text \<open>\<open>rc\<close> is the return code of the binding's \<^verbatim>\<open>setup\<close>.\<close>

definition client_connect :: "int \<Rightarrow> store_client \<Rightarrow> (kv_exn + unit) \<times> store_client" where
  "client_connect rc c =
     (if sc_connected c then (Inl StoreClientError, c)
      else if rc \<noteq> 0 then (Inl StoreClientError, c)
      else (Inr (), c\<lparr>sc_connected := True\<rparr>))"

definition client_close :: "store_client \<Rightarrow> store_client" where
  "client_close c = c\<lparr>sc_connected := False\<rparr>"

definition client_store :: "store_client \<Rightarrow> kv_exn + unit" where
  "client_store c = (if sc_connected c then Inr () else Inl StoreClientError)"

section \<open>Existence\<close>

definition code_present :: "store_code \<Rightarrow> bool" where
  "code_present e = (e = SC_Bool True \<or> e = SC_Int 1)"

definition code_absent :: "store_code \<Rightarrow> bool" where
  "code_absent e = (e = SC_Bool False \<or> e = SC_Int 0)"

definition entry_exists :: "store_code \<Rightarrow> kv_exn + bool" where
  "entry_exists e = (if code_present e then Inr True
     else if code_absent e then Inr False else Inl StoreClientError)"

definition is_exist :: "store_client \<Rightarrow> string list \<Rightarrow> store_code list \<Rightarrow> kv_exn + bool list" where
  "is_exist c keys raw = bind_res (client_store c) (\<lambda>_.
     if (\<exists>(k, e) \<in> set (zip keys raw). \<not> code_present e \<and> \<not> code_absent e) then Inl StoreClientError
     else map_res entry_exists raw)"

section \<open>Tasks and removal\<close>

definition create_task :: "store_client \<Rightarrow> task_id \<times> int \<Rightarrow> kv_exn + task_id" where
  "create_task c = (\<lambda>(tid, err). bind_res (client_store c) (\<lambda>_.
     if err \<noteq> 0 then Inl StoreClientError else Inr tid))"

definition batch_remove :: "store_client \<Rightarrow> string list \<Rightarrow> int list \<Rightarrow> kv_exn + int list" where
  "batch_remove c keys raw = bind_res (client_store c) (\<lambda>_.
     if length raw \<noteq> length keys then Inl StoreClientError
     else if (\<exists>rc \<in> set raw. rc \<noteq> 0) then Inl StoreClientError
     else Inr raw)"

datatype store_status = SS_SUCCESS | SS_FAILED | SS_OTHER

record task_response =
  tr_status :: store_status
  tr_message :: string

definition client_query_task :: "store_client \<Rightarrow> task_response \<times> int \<Rightarrow> kv_exn + task_response" where
  "client_query_task c = (\<lambda>(resp, err). bind_res (client_store c) (\<lambda>_.
     if err \<noteq> 0 then Inl StoreClientError else Inr resp))"

section \<open>Replica descriptors\<close>

text \<open>A descriptor as the wrapper sees it: whether \<^verbatim>\<open>is_memory_replica\<close> is missing, answers or raises,
  the endpoint of its buffer, the attributes \<^verbatim>\<open>size\<close> and \<^verbatim>\<open>size_\<close> where they are plain integers, and the
  public attribute names.\<close>

datatype replica_flag = RF_Missing | RF_Raises | RF_Value bool

record replica_desc =
  rd_is_memory :: replica_flag
  rd_endpoint :: string
  rd_size :: "int option"
  rd_size_member :: "int option"
  rd_attrs :: "string list"

type_synonym replica_size_row = "string \<times> int option \<times> string list"

text \<open>\<^verbatim>\<open>is_memory_replica\<close> refuses a descriptor without the predicate and lets its exception
  through, \<^verbatim>\<open>_is_memory_replica\<close> reads both as no memory replica.\<close>

definition is_memory_replica :: "replica_desc \<Rightarrow> kv_exn + bool" where
  "is_memory_replica d = (case rd_is_memory d of
     RF_Missing \<Rightarrow> Inl StoreClientError | RF_Raises \<Rightarrow> Inl Other_Exception | RF_Value b \<Rightarrow> Inr b)"

definition is_memory_replica_lenient :: "replica_desc \<Rightarrow> bool" where
  "is_memory_replica_lenient d = (case rd_is_memory d of RF_Value b \<Rightarrow> b | _ \<Rightarrow> False)"

definition buffer_size :: "replica_desc \<Rightarrow> int option \<times> string list" where
  "buffer_size d = (case rd_size d of
     Some n \<Rightarrow> if n \<ge> 0 then (Some n, []) else
       (case rd_size_member d of Some m \<Rightarrow> if m \<ge> 0 then (Some m, []) else (None, rd_attrs d) | None \<Rightarrow> (None, rd_attrs d))
   | None \<Rightarrow>
       (case rd_size_member d of Some m \<Rightarrow> if m \<ge> 0 then (Some m, []) else (None, rd_attrs d) | None \<Rightarrow> (None, rd_attrs d)))"

text \<open>The binding answers with one list of descriptors per key, or none.\<close>

definition batch_memory_replica_endpoints ::
  "string list \<Rightarrow> (string \<times> replica_desc list) list \<Rightarrow> kv_exn + (string, string list) dict" where
  "batch_memory_replica_endpoints keys items =
     bind_res (map_res (\<lambda>(k, ds). bind_res (map_res is_memory_replica ds) (\<lambda>flags.
         Inr (k, map (rd_endpoint \<circ> fst) (filter snd (zip ds flags))))) items)
       (\<lambda>rows. Inr (dict_update (dict_update [] (map (\<lambda>k. (k, [])) keys)) rows))"

definition size_rows :: "replica_desc list \<Rightarrow> replica_size_row list" where
  "size_rows ds = map (\<lambda>d. (rd_endpoint d, buffer_size d)) (filter is_memory_replica_lenient ds)"

definition batch_memory_replica_sizes ::
  "string list \<Rightarrow> (string \<times> replica_desc list) list \<Rightarrow> (string, replica_size_row list) dict" where
  "batch_memory_replica_sizes keys items =
     dict_update (dict_update [] (map (\<lambda>k. (k, [])) keys)) (map (\<lambda>(k, ds). (k, size_rows ds)) items)"

section \<open>Properties\<close>

text \<open>A failed existence query is never read as absence: the wrapper answers only when it is
  connected and every code is one of the four success codes, and then says present exactly where the
  binding said so; any error code of the binding, positive or negative, makes the whole query
  raise.\<close>

theorem is_exist_never_guesses:
  assumes "length raw = length keys"
  shows "is_exist c keys raw =
    (if sc_connected c \<and> (\<forall>e \<in> set raw. code_present e \<or> code_absent e)
     then Inr (map code_present raw) else Inl StoreClientError)"
proof -
  have z: "(\<exists>(k, e) \<in> set (zip keys raw). \<not> code_present e \<and> \<not> code_absent e) \<longleftrightarrow>
      (\<exists>e \<in> set raw. \<not> code_present e \<and> \<not> code_absent e)"
  proof -
    have s: "set raw = snd ` set (zip keys raw)" by (metis assms list.set_map map_snd_zip)
    have "(\<exists>e \<in> snd ` Z. Q e) \<longleftrightarrow> (\<exists>(k, e) \<in> Z. Q e)" for Z :: "(string \<times> store_code) set" and Q
      by force
    then show ?thesis unfolding s by blast
  qed
  show ?thesis
  proof (cases "\<forall>e \<in> set raw. code_present e \<or> code_absent e")
    case True
    then have "map_res entry_exists raw = Inr (map code_present raw)"
      by (intro map_res_ok) (auto simp: entry_exists_def)
    then show ?thesis using True z by (auto simp: is_exist_def client_store_def)
  next
    case False
    then have "\<exists>(k, e) \<in> set (zip keys raw). \<not> code_present e \<and> \<not> code_absent e" using z by blast
    then show ?thesis using False by (auto simp: is_exist_def client_store_def)
  qed
qed

theorem is_exist_never_guesses_witness:
  "is_exist \<lparr>sc_connected = True\<rparr> [''a'', ''b''] [SC_Int 1, SC_Int (- 900)] = Inl StoreClientError \<and>
   is_exist \<lparr>sc_connected = True\<rparr> [''a'', ''b''] [SC_Int 1, SC_Bool False] = Inr [True, False]"
  using is_exist_never_guesses [of "[SC_Int 1, SC_Int (- 900)]" "[''a'', ''b'']" "\<lparr>sc_connected = True\<rparr>"]
    is_exist_never_guesses [of "[SC_Int 1, SC_Bool False]" "[''a'', ''b'']" "\<lparr>sc_connected = True\<rparr>"]
  by (simp add: code_present_def code_absent_def)

end
