(* ===== verification/Mooncake.thy ===== *)
theory Mooncake
  imports Ledger Keys Admin Store_Client
begin

text \<open>
  The atomic operations of the KV manager on the mooncake store (\<^verbatim>\<open>backends/mooncake/backend.py\<close>).

  The state is the two tracking dictionaries of the backend and its ledger. The store's and the
  administration port's answers to a remote call are arguments: a function from the request to a
  value or an exception, where an expired \<^verbatim>\<open>_rpc\<close> timeout is the exception \<open>QueryError\<close>. The code
  between two \<^verbatim>\<open>await\<close>s is one definition or one step, as the event loop runs it. Log messages and the
  texts of exceptions are left out.
\<close>

section \<open>Task numbers as text\<close>

definition encode_task_id :: "task_id \<Rightarrow> string" where
  "encode_task_id tid = (case tid of
     Tid_Pair hi lo \<Rightarrow> show_int hi @ '':'' @ show_int lo | Tid_Text s \<Rightarrow> s)"

definition decode_task_id :: "string \<Rightarrow> task_id" where
  "decode_task_id s = (case py_split CHR '':'' s of
     [a, b] \<Rightarrow> (case (py_int a, py_int b) of (Some hi, Some lo) \<Rightarrow> Tid_Pair hi lo | _ \<Rightarrow> Tid_Text s)
   | _ \<Rightarrow> Tid_Text s)"

section \<open>What the store versions can do\<close>

definition cap :: "support \<Rightarrow> support \<Rightarrow> capability" where
  "cap r c = \<lparr>cap_rpc = r, cap_channel = c\<rparr>"

definition mooncake_v0311 :: backend_capability where
  "mooncake_v0311 = \<lparr>has_lease = cap Sup_YES Sup_YES, soft_pin_after = cap Sup_YES Sup_NO,
     hard_pin_after = cap Sup_NO Sup_NO, can_copy_with_source = cap Sup_NO Sup_NO,
     has_offload = cap Sup_NO Sup_NO, has_promotion = cap Sup_NO Sup_NO,
     has_per_key_demote = cap Sup_NO Sup_NO, has_task_cancel = cap Sup_NO Sup_NO,
     has_local_segment = cap Sup_YES Sup_YES, has_local_disk_mount = cap Sup_YES Sup_YES,
     has_dfs_replica = cap Sup_NO Sup_NO, has_admin_query = cap Sup_NO Sup_NO,
     has_tenant_quota = cap Sup_NO Sup_NO\<rparr>"

definition mooncake_main :: backend_capability where
  "mooncake_main = \<lparr>has_lease = cap Sup_YES Sup_YES, soft_pin_after = cap Sup_NO Sup_NO,
     hard_pin_after = cap Sup_NO Sup_NO, can_copy_with_source = cap Sup_NO Sup_NO,
     has_offload = cap Sup_NO Sup_NO, has_promotion = cap Sup_NO Sup_NO,
     has_per_key_demote = cap Sup_NO Sup_NO, has_task_cancel = cap Sup_NO Sup_NO,
     has_local_segment = cap Sup_YES Sup_YES, has_local_disk_mount = cap Sup_YES Sup_YES,
     has_dfs_replica = cap Sup_YES Sup_UNKNOWN, has_admin_query = cap Sup_YES Sup_YES,
     has_tenant_quota = cap Sup_YES Sup_YES\<rparr>"

section \<open>State and collaborators\<close>

record plan_entry =
  pe_prefix :: prefix
  pe_target :: instance_id
  pe_plan :: "(string \<times> string) list"
  pe_handle_id :: string

text \<open>\<open>b_ledger\<close>: no ledger injected, a closed one, or an open one.\<close>

record backend =
  b_plans :: "task_handle \<rightharpoonup> plan_entry"
  b_watch :: "task_handle \<rightharpoonup> task_id list"
  b_ledger :: "ledger option option"

record 'h backend_env =
  be_vllm :: "'h vllm"
  be_keys :: key_computer
  be_locate :: "instance_id \<Rightarrow> kv_exn + string list"
  be_sha :: "string \<Rightarrow> string"
  be_capability :: backend_capability
  be_has_admin :: bool
  be_submit_concurrency :: int
  be_lease_ttl :: time
  be_rpc_timeout :: time

definition backend_init :: "'h backend_env \<Rightarrow> ledger option option \<Rightarrow> kv_exn + backend" where
  "backend_init env l =
     (if be_submit_concurrency env \<le> 0 then Inl Kv_ValueError
      else if be_lease_ttl env < 0 then Inl Kv_ValueError
      else Inr \<lparr>b_plans = Map.empty, b_watch = Map.empty, b_ledger = l\<rparr>)"

section \<open>Time limits of remote calls\<close>

text \<open>The limit \<^verbatim>\<open>_rpc\<close> waits for: \<open>None\<close> is no limit. A call answered after \<open>took\<close> is abandoned when its
  limit is shorter.\<close>

definition rpc_limit :: "time \<Rightarrow> time option \<Rightarrow> time option" where
  "rpc_limit rpc_timeout timeout_s = (case timeout_s of
     None \<Rightarrow> if rpc_timeout \<le> 0 then None else Some rpc_timeout
   | Some t \<Rightarrow> Some (if rpc_timeout \<le> 0 then t else min rpc_timeout t))"

definition rpc :: "time \<Rightarrow> time option \<Rightarrow> time \<Rightarrow> kv_exn + 'a \<Rightarrow> kv_exn + 'a" where
  "rpc rpc_timeout timeout_s took answer = (case rpc_limit rpc_timeout timeout_s of
     None \<Rightarrow> answer
   | Some limit \<Rightarrow> if limit \<le> 0 then Inl QueryError else if took > limit then Inl QueryError else answer)"

definition bounded_rpc :: "time \<Rightarrow> time option \<Rightarrow> time \<Rightarrow> time \<Rightarrow> kv_exn + 'a \<Rightarrow> kv_exn + 'a" where
  "bounded_rpc rpc_timeout deadline now took answer = (case deadline of
     None \<Rightarrow> rpc rpc_timeout None took answer
   | Some d \<Rightarrow> if d - now \<le> 0 then Inl QueryError else rpc rpc_timeout (Some (d - now)) took answer)"

section \<open>Room on the target segment\<close>

record admission_slot =
  as_key :: "(string \<times> string set) option"
  as_need :: "(string \<times> int) option"

definition open_segment_budget :: "admission_slot option" where
  "open_segment_budget = Some \<lparr>as_key = None, as_need = None\<rparr>"

definition replica_row :: "replica_size_row \<Rightarrow> string \<times> int option" where
  "replica_row = (\<lambda>(ep, sz, attrs). (ep, case sz of Some n \<Rightarrow> if n < 0 then None else Some n | None \<Rightarrow> None))"

definition rows_endpoints :: "replica_size_row list \<Rightarrow> string set" where
  "rows_endpoints rows = {ep \<in> set (map (fst \<circ> replica_row) rows). ep \<noteq> []}"

fun first_some :: "'a option list \<Rightarrow> 'a option" where
  "first_some [] = None"
| "first_some (None # xs) = first_some xs"
| "first_some (Some x # xs) = Some x"

definition rows_size :: "replica_size_row list \<Rightarrow> int option" where
  "rows_size rows = first_some (map (snd \<circ> replica_row) rows)"

definition new_keys_on :: "(string, replica_size_row list) dict \<Rightarrow> (string \<times> string) list \<Rightarrow> string \<Rightarrow> string list" where
  "new_keys_on layout plan probe =
     filter (\<lambda>k. probe \<notin> rows_endpoints (dict_get layout k []))
       (dedupe (map fst (filter (\<lambda>(k, seg). seg = probe) plan)))"

definition new_bytes_by_segment ::
  "(string list \<Rightarrow> kv_exn + (string, replica_size_row list) dict) \<Rightarrow> (string \<times> string) list \<Rightarrow>
   kv_exn + (string \<times> int) option" where
  "new_bytes_by_segment sizes plan =
     (let keys = dedupe (map fst plan) in
      case sizes keys of
        Inl e \<Rightarrow> Inl (if e = StoreClientError then QueryError else e)
      | Inr layout \<Rightarrow>
          (let size_of = (\<lambda>k. rows_size (dict_get layout k []));
               sample = first_some (map size_of keys);
               probe = snd (hd plan);
               wanted = new_keys_on layout plan probe in
           if sample = None \<and> wanted \<noteq> [] then Inl QueryError
           else let total = sum_list (map (\<lambda>k. case size_of k of Some n \<Rightarrow> n | None \<Rightarrow> the sample) wanted) in
             Inr (if total \<le> 0 then None else Some (probe, total))))"

definition check_segment ::
  "bool \<Rightarrow> (string \<Rightarrow> kv_exn + int \<times> int) \<Rightarrow> string \<Rightarrow> int \<Rightarrow> kv_exn + unit" where
  "check_segment has_admin query_seg probe nbytes =
     (if \<not> has_admin then Inl QueryError
      else case query_seg probe of
        Inl SegmentNotFound \<Rightarrow> Inl AdmissionStop
      | Inl (AdminError status) \<Rightarrow>
          (case status of None \<Rightarrow> Inl AdmissionWait
           | Some st \<Rightarrow> if st \<ge> 500 then Inl AdmissionWait else Inl QueryError)
      | Inl e \<Rightarrow> Inl e
      | Inr (used, capacity) \<Rightarrow>
          if capacity = 0 then Inl AdmissionStop
          else if nbytes > capacity - used then Inl AdmissionWait
          else Inr ())"

text \<open>\<open>slot\<close> is the context variable of the waiting coroutine: \<open>None\<close> outside a wait.\<close>

definition admit_new_bytes ::
  "bool \<Rightarrow> (string list \<Rightarrow> kv_exn + (string, replica_size_row list) dict) \<Rightarrow> (string \<Rightarrow> kv_exn + int \<times> int) \<Rightarrow>
   (string \<times> string) list \<Rightarrow> admission_slot option \<Rightarrow> (kv_exn + unit) \<times> admission_slot option" where
  "admit_new_bytes has_admin sizes query_seg plan slot =
     (if plan = [] then (Inr (), slot)
      else let key = (snd (hd plan), set (map fst plan)) in
        bind_st (case slot of
            Some sl \<Rightarrow>
              if as_key sl = Some key then (Inr (as_need sl), slot)
              else (case new_bytes_by_segment sizes plan of
                      Inl e \<Rightarrow> (Inl e, slot)
                    | Inr need \<Rightarrow> (Inr need, Some \<lparr>as_key = Some key, as_need = need\<rparr>))
          | None \<Rightarrow> (new_bytes_by_segment sizes plan, None))
        (\<lambda>need slot. case need of
            None \<Rightarrow> (Inr (), slot)
          | Some (probe, nbytes) \<Rightarrow> (check_segment has_admin query_seg probe nbytes, slot)))"

definition copy_plan :: "'h backend_env \<Rightarrow> prefix \<Rightarrow> instance_id \<Rightarrow> kv_exn + (string \<times> string) list" where
  "copy_plan env p target = bind_res (keys_for_tokens (be_vllm env) (be_keys env) (token_ids p)) (\<lambda>keys.
     if keys = [] then Inr []
     else bind_res (be_locate env target) (build_plan (be_keys env) keys))"

definition check_segment_room ::
  "'h backend_env \<Rightarrow> (string list \<Rightarrow> kv_exn + (string, replica_size_row list) dict) \<Rightarrow>
   (string \<Rightarrow> kv_exn + int \<times> int) \<Rightarrow> prefix \<Rightarrow> instance_id \<Rightarrow> admission_slot option \<Rightarrow>
   (kv_exn + unit) \<times> admission_slot option" where
  "check_segment_room env sizes query_seg p target slot = (case copy_plan env p target of
     Inl e \<Rightarrow> (Inl e, slot)
   | Inr plan \<Rightarrow> admit_new_bytes (be_has_admin env) sizes query_seg plan slot)"

section \<open>Bookkeeping\<close>

definition record_tasks ::
  "'h backend_env \<Rightarrow> time \<Rightarrow> task_handle \<Rightarrow> string \<Rightarrow> task_id list \<Rightarrow> backend \<Rightarrow> (kv_exn + unit) \<times> backend" where
  "record_tasks env now h status tids s = (case b_ledger s of
     None \<Rightarrow> (Inr (), s)
   | Some conn \<Rightarrow>
       (case b_plans s h of
          None \<Rightarrow> (Inr (), s)
        | Some e \<Rightarrow>
            (case conn of
               None \<Rightarrow> (Inl Ledger_Shutdown, s)
             | Some l \<Rightarrow>
                 (case upsert_tasks (be_sha env) now (map encode_task_id tids) (pe_handle_id e)
                         (op_value (h_op h)) (pe_prefix e) (pe_target e) status l of
                    Inl err \<Rightarrow> (Inl Kv_ValueError, s)
                  | Inr l' \<Rightarrow> (Inr (), s\<lparr>b_ledger := Some (Some l')\<rparr>)))))"

definition forget :: "task_handle \<Rightarrow> backend \<Rightarrow> backend" where
  "forget h s = s\<lparr>b_watch := (b_watch s)(h := None), b_plans := (b_plans s)(h := None)\<rparr>"

definition finish_handle ::
  "'h backend_env \<Rightarrow> time \<Rightarrow> task_handle \<Rightarrow> string \<Rightarrow> backend \<Rightarrow> (kv_exn + unit) \<times> backend" where
  "finish_handle env now h status s =
     bind_st (record_tasks env now h status (h_task_ids h) s) (\<lambda>_ s. (Inr (), forget h s))"

section \<open>Concurrent submission\<close>

text \<open>The child coroutines of one \<^verbatim>\<open>copy\<close> or \<^verbatim>\<open>move\<close>: \<open>sp_waiting\<close> have not passed the semaphore,
  \<open>sp_running\<close> are inside their remote call, \<open>sp_slots\<close> are the task numbers received. \<open>sp_error\<close> is what
  the first \<^verbatim>\<open>gather\<close> raised, \<open>sp_stop\<close> the event the parent sets when it sees it.\<close>

record submit_pool =
  sp_slots :: "task_id option list"
  sp_waiting :: "nat list"
  sp_running :: "nat list"
  sp_stop :: bool
  sp_error :: "kv_exn option"

definition pool_start :: "nat \<Rightarrow> submit_pool" where
  "pool_start n = \<lparr>sp_slots = replicate n None, sp_waiting = [0..<n], sp_running = [],
     sp_stop = False, sp_error = None\<rparr>"

datatype submit_event =
    Ev_Enter | Ev_Task nat task_id | Ev_Fail nat kv_exn | Ev_Stop | Ev_Cancel

text \<open>\<open>free\<close>: the process-wide semaphore has a permit. A failed child releases its permit before the
  parent has set the stop event, so \<open>Ev_Stop\<close> is an event of its own. A cancellation cancels every child:
  the task numbers still in flight are lost.\<close>

fun submit_step :: "bool \<Rightarrow> submit_event \<Rightarrow> submit_pool \<Rightarrow> submit_pool option" where
  "submit_step free Ev_Enter p = (case sp_waiting p of
     [] \<Rightarrow> None
   | i # ws \<Rightarrow>
       if \<not> free then None
       else if sp_stop p then Some (p\<lparr>sp_waiting := ws\<rparr>)
       else Some (p\<lparr>sp_waiting := ws, sp_running := sp_running p @ [i]\<rparr>))"
| "submit_step free (Ev_Task i tid) p =
    (if i \<in> set (sp_running p)
     then Some (p\<lparr>sp_slots := (sp_slots p)[i := Some tid], sp_running := removeAll i (sp_running p)\<rparr>)
     else None)"
| "submit_step free (Ev_Fail i e) p =
    (if i \<in> set (sp_running p) \<and> e \<noteq> CancelledError
     then Some (p\<lparr>sp_running := removeAll i (sp_running p),
                  sp_error := (case sp_error p of None \<Rightarrow> Some e | Some e' \<Rightarrow> Some e')\<rparr>)
     else None)"
| "submit_step free Ev_Stop p = (if sp_error p \<noteq> None \<and> \<not> sp_stop p then Some (p\<lparr>sp_stop := True\<rparr>) else None)"
| "submit_step free Ev_Cancel p =
    (if sp_waiting p = [] \<and> sp_running p = [] then None
     else Some (p\<lparr>sp_waiting := [], sp_running := [], sp_stop := True, sp_error := Some CancelledError\<rparr>))"

definition pool_done :: "submit_pool \<Rightarrow> bool" where
  "pool_done p = (sp_waiting p = [] \<and> sp_running p = [])"

fun submit_run :: "(bool \<times> submit_event) list \<Rightarrow> submit_pool \<Rightarrow> submit_pool option" where
  "submit_run [] p = Some p"
| "submit_run ((free, ev) # evs) p = (case submit_step free ev p of None \<Rightarrow> None | Some q \<Rightarrow> submit_run evs q)"

text \<open>All submissions of the process share one semaphore of \<open>limit\<close> permits, held only during a remote
  call: the gate holds the pools of the running copies and moves.\<close>

definition in_flight :: "submit_pool list \<Rightarrow> nat" where
  "in_flight pools = sum_list (map (length \<circ> sp_running) pools)"

datatype gate_event = Gate_New nat | Gate_Ev nat submit_event

fun gate_step :: "nat \<Rightarrow> gate_event \<Rightarrow> submit_pool list \<Rightarrow> submit_pool list option" where
  "gate_step limit (Gate_New n) pools = Some (pools @ [pool_start n])"
| "gate_step limit (Gate_Ev j ev) pools =
    (if j < length pools then
       (case submit_step (in_flight pools < limit) ev (pools ! j) of
          None \<Rightarrow> None | Some q \<Rightarrow> Some (pools[j := q]))
     else None)"

fun gate_run :: "nat \<Rightarrow> gate_event list \<Rightarrow> submit_pool list \<Rightarrow> submit_pool list option" where
  "gate_run limit [] pools = Some pools"
| "gate_run limit (ev # evs) pools =
    (case gate_step limit ev pools of None \<Rightarrow> None | Some q \<Rightarrow> gate_run limit evs q)"

text \<open>What follows the \<^verbatim>\<open>gather\<close>. A cancelled copy with task numbers hands its handle back, a cancelled
  move raises; a failure hands the handle over inside the exception.\<close>

definition slot_ids :: "submit_pool \<Rightarrow> task_id list" where
  "slot_ids p = List.map_filter id (sp_slots p)"

definition slot_plan :: "(string \<times> string) list \<Rightarrow> submit_pool \<Rightarrow> (string \<times> string) list" where
  "slot_plan plan p = map fst (filter (\<lambda>(e, t). t \<noteq> None) (zip plan (sp_slots p)))"

definition track ::
  "task_handle \<Rightarrow> prefix \<Rightarrow> instance_id \<Rightarrow> (string \<times> string) list \<Rightarrow> string \<Rightarrow> backend \<Rightarrow> backend" where
  "track h p target plan hid s =
     s\<lparr>b_plans := (b_plans s)(h \<mapsto> \<lparr>pe_prefix = p, pe_target = target, pe_plan = plan, pe_handle_id = hid\<rparr>)\<rparr>"

definition submit_finish ::
  "'h backend_env \<Rightarrow> op_kind \<Rightarrow> time \<Rightarrow> string \<Rightarrow> prefix \<Rightarrow> instance_id \<Rightarrow> (string \<times> string) list \<Rightarrow> submit_pool \<Rightarrow>
   backend \<Rightarrow> (kv_exn + task_handle) \<times> backend" where
  "submit_finish env op now uuid p target plan pool s =
     (let ids = slot_ids pool; h = \<lparr>h_op = op, h_task_ids = ids\<rparr> in
      case sp_error pool of
        None \<Rightarrow>
          bind_st (record_tasks env now h ''running'' ids (track h p target plan uuid s)) (\<lambda>_ s. (Inr h, s))
      | Some e \<Rightarrow>
          if ids = [] then
            (Inl (if e = CancelledError then CancelledError else SubmitError None), s)
          else
            (let s' = snd (record_tasks env now h ''running'' ids (track h p target (slot_plan plan pool) uuid s)) in
             if e = CancelledError then (if op = OP_COPY then (Inr h, s') else (Inl CancelledError, s'))
             else (Inl (SubmitError (Some h)), s')))"

section \<open>Copy and move\<close>

text \<open>The part before the submission: the plan, admitted. \<open>slot\<close> as in \<open>admit_new_bytes\<close>.\<close>

definition copy_prepare ::
  "'h backend_env \<Rightarrow> (string list \<Rightarrow> kv_exn + (string, replica_size_row list) dict) \<Rightarrow>
   (string \<Rightarrow> kv_exn + int \<times> int) \<Rightarrow> prefix \<Rightarrow> instance_id \<Rightarrow> admission_slot option \<Rightarrow>
   (kv_exn + (string \<times> string) list) \<times> admission_slot option" where
  "copy_prepare env sizes query_seg p target slot =
     (case keys_for_tokens (be_vllm env) (be_keys env) (token_ids p) of
        Inl e \<Rightarrow> (Inl e, slot)
      | Inr keys \<Rightarrow>
          if keys = [] then (Inl IntentInputError, slot)
          else (case bind_res (be_locate env target) (build_plan (be_keys env) keys) of
                  Inl e \<Rightarrow> (Inl e, slot)
                | Inr plan \<Rightarrow>
                    bind_st (admit_new_bytes (be_has_admin env) sizes query_seg plan slot)
                      (\<lambda>_ slot. (Inr plan, slot))))"

text \<open>\<open>evs\<close> is the schedule of the submission; a schedule that does not run to the end is not a run.\<close>

definition copy ::
  "'h backend_env \<Rightarrow> (string list \<Rightarrow> kv_exn + (string, replica_size_row list) dict) \<Rightarrow>
   (string \<Rightarrow> kv_exn + int \<times> int) \<Rightarrow> (bool \<times> submit_event) list \<Rightarrow> time \<Rightarrow> string \<Rightarrow> prefix \<Rightarrow> instance_id \<Rightarrow>
   admission_slot option \<Rightarrow> backend \<Rightarrow> ((kv_exn + task_handle) \<times> backend) option" where
  "copy env sizes query_seg evs now uuid p target slot s =
     (case copy_prepare env sizes query_seg p target slot of
        (Inl e, _) \<Rightarrow> Some (Inl e, s)
      | (Inr plan, _) \<Rightarrow>
          (case submit_run evs (pool_start (length plan)) of
             None \<Rightarrow> None
           | Some pool \<Rightarrow>
               if pool_done pool then Some (submit_finish env OP_COPY now uuid p target plan pool s) else None))"

definition move_plan ::
  "'h backend_env \<Rightarrow> prefix \<Rightarrow> instance_id \<Rightarrow> instance_id \<Rightarrow> kv_exn + (string \<times> string \<times> string) list \<times> (string \<times> string) list" where
  "move_plan env p target source =
     bind_res (keys_for_tokens (be_vllm env) (be_keys env) (token_ids p)) (\<lambda>keys.
       if keys = [] then Inl IntentInputError
       else bind_res (bind_res (be_locate env target) (build_plan (be_keys env) keys)) (\<lambda>plan.
            bind_res (bind_res (be_locate env source) (build_plan (be_keys env) keys)) (\<lambda>source_plan.
              Inr (map2 (\<lambda>(k, tgt) (k', src). (k, src, tgt)) plan source_plan, plan))))"

definition move ::
  "'h backend_env \<Rightarrow> (string list \<Rightarrow> kv_exn + (string, replica_size_row list) dict) \<Rightarrow>
   (string \<Rightarrow> kv_exn + int \<times> int) \<Rightarrow> (bool \<times> submit_event) list \<Rightarrow> time \<Rightarrow> string \<Rightarrow> prefix \<Rightarrow> instance_id \<Rightarrow>
   instance_id \<Rightarrow> admission_slot option \<Rightarrow> backend \<Rightarrow> ((kv_exn + task_handle) \<times> backend) option" where
  "move env sizes query_seg evs now uuid p target source slot s =
     (case move_plan env p target source of
        Inl e \<Rightarrow> Some (Inl e, s)
      | Inr (moves, plan) \<Rightarrow>
          (case admit_new_bytes (be_has_admin env) sizes query_seg plan slot of
             (Inl e, _) \<Rightarrow> Some (Inl e, s)
           | (Inr _, _) \<Rightarrow>
               (case submit_run evs (pool_start (length moves)) of
                  None \<Rightarrow> None
                | Some pool \<Rightarrow>
                    if pool_done pool then Some (submit_finish env OP_MOVE now uuid p target plan pool s) else None)))"

section \<open>Verification of replicas\<close>

definition require_admin_rows :: "string list \<Rightarrow> (string, key_query) dict \<Rightarrow> kv_exn + unit" where
  "require_admin_rows keys parsed =
     (if (\<exists>k \<in> set keys. map_of parsed k = None) then Inl QueryError
      else if (\<exists>k \<in> set keys. \<not> kq_ok (the (map_of parsed k))) then Inl QueryError
      else Inr ())"

definition verify_missing ::
  "bool \<Rightarrow> (string list \<Rightarrow> kv_exn + (string, key_query) dict) \<Rightarrow> (string \<times> string) list \<Rightarrow>
   kv_exn + (string \<times> string) list" where
  "verify_missing has_admin batch_query plan =
     (if \<not> has_admin then Inl QueryError
      else case batch_query (map fst plan) of
        Inl e \<Rightarrow> Inl (if e = AdminMainError \<or> e = StoreClientError then QueryError else e)
      | Inr parsed \<Rightarrow>
          bind_res (require_admin_rows (map fst plan) parsed) (\<lambda>_.
            Inr (filter (\<lambda>(k, seg). seg \<notin> set (map mv_transport_endpoint (kq_memory (the (map_of parsed k))))) plan)))"

section \<open>Task queries\<close>

text \<open>The end of a handle that may have lost tasks to a concurrent replication: the lost ones were
  recorded when they were lost, the rest is recorded now.\<close>

definition unwatch :: "task_handle \<Rightarrow> backend \<Rightarrow> backend" where
  "unwatch h s = s\<lparr>b_watch := (b_watch s)(h := None)\<rparr>"

definition record_rest ::
  "'h backend_env \<Rightarrow> time \<Rightarrow> task_handle \<Rightarrow> string \<Rightarrow> backend \<Rightarrow> (kv_exn + unit) \<times> backend" where
  "record_rest env now h status s =
     (let conflicted = (case b_watch s h of None \<Rightarrow> [] | Some c \<Rightarrow> c);
          rest = filter (\<lambda>t. t \<notin> set conflicted) (h_task_ids h) in
      if rest \<noteq> [] then record_tasks env now h status rest (unwatch h s) else (Inr (), unwatch h s))"

definition untrack :: "task_handle \<Rightarrow> backend \<Rightarrow> backend" where
  "untrack h s = s\<lparr>b_plans := (b_plans s)(h := None)\<rparr>"

definition verify_watch ::
  "'h backend_env \<Rightarrow> (string list \<Rightarrow> kv_exn + (string, key_query) dict) \<Rightarrow> time \<Rightarrow> task_handle \<Rightarrow>
   (string \<times> string) list \<Rightarrow> backend \<Rightarrow> (kv_exn + task_status) \<times> backend" where
  "verify_watch env batch_query now h plan s =
     (case verify_missing (be_has_admin env) batch_query plan of
        Inl e \<Rightarrow> (Inl e, s)
      | Inr missing \<Rightarrow>
          if missing \<noteq> [] then (Inr TS_RUNNING, s)
          else if b_plans s h = None then (Inr TS_READY, unwatch h s)
          else bind_st (record_rest env now h ''ready'' s) (\<lambda>_ s. (Inr TS_READY, untrack h s)))"

definition is_conflict :: "task_response \<Rightarrow> bool" where
  "is_conflict r = (tr_status r = SS_FAILED \<and> py_contains ''OBJECT_HAS_REPLICATION_TASK'' (tr_message r))"

text \<open>What follows the answers of all task queries; \<open>plan\<close> was read before them, \<open>s\<close> is the state after.\<close>

definition query_apply ::
  "'h backend_env \<Rightarrow> (string list \<Rightarrow> kv_exn + (string, key_query) dict) \<Rightarrow> time \<Rightarrow> task_handle \<Rightarrow>
   (string \<times> string) list \<Rightarrow> task_response list \<Rightarrow> backend \<Rightarrow> (kv_exn + task_status) \<times> backend" where
  "query_apply env batch_query now h plan resps s =
     (let failed = filter (\<lambda>r. tr_status r = SS_FAILED) resps;
          conflicted = map fst (filter (\<lambda>(t, r). is_conflict r) (zip (h_task_ids h) resps)) in
      if failed \<noteq> [] then
        (if length conflicted = length failed then
           (if b_plans s h = None then (Inl Kv_KeyError, s)
            else bind_st (record_tasks env now h ''failed'' conflicted (s\<lparr>b_watch := (b_watch s)(h \<mapsto> conflicted)\<rparr>))
                   (\<lambda>_. verify_watch env batch_query now h plan))
         else bind_st (finish_handle env now h ''failed'' s) (\<lambda>_ s. (Inr TS_FAILED, s)))
      else if (\<exists>r \<in> set resps. tr_status r \<noteq> SS_SUCCESS) then (Inr TS_RUNNING, s)
      else (case verify_missing (be_has_admin env) batch_query plan of
              Inl e \<Rightarrow> (Inl e, s)
            | Inr missing \<Rightarrow>
                if missing \<noteq> [] then bind_st (finish_handle env now h ''failed'' s) (\<lambda>_ s. (Inl VerifyError, s))
                else bind_st (finish_handle env now h ''ready'' s) (\<lambda>_ s. (Inr TS_READY, s))))"

definition query_task ::
  "'h backend_env \<Rightarrow> (task_id \<Rightarrow> kv_exn + task_response) \<Rightarrow> (string list \<Rightarrow> kv_exn + (string, key_query) dict) \<Rightarrow>
   time \<Rightarrow> task_handle \<Rightarrow> backend \<Rightarrow> (kv_exn + task_status) \<times> backend" where
  "query_task env ask batch_query now h s =
     (if h_task_ids h = [] then (Inl Kv_ValueError, s)
      else case b_plans s h of
        None \<Rightarrow> (Inl Kv_KeyError, s)
      | Some e \<Rightarrow>
          if b_watch s h \<noteq> None then verify_watch env batch_query now h (pe_plan e) s
          else (case map_res ask (h_task_ids h) of
                  Inl x \<Rightarrow> (Inl (if x = StoreClientError then QueryError else x), s)
                | Inr resps \<Rightarrow> query_apply env batch_query now h (pe_plan e) resps s))"

definition abandon ::
  "'h backend_env \<Rightarrow> time \<Rightarrow> task_handle \<Rightarrow> backend \<Rightarrow> (kv_exn + unit) \<times> backend" where
  "abandon env now h s =
     (if b_plans s h = None then (Inl Kv_KeyError, s)
      else bind_st (record_rest env now h ''abandoned'' s) (\<lambda>_ s. (Inr (), untrack h s)))"

section \<open>Existence, keepalive, removal\<close>

definition backend_exists ::
  "'h backend_env \<Rightarrow> (string list \<Rightarrow> kv_exn + bool list) \<Rightarrow> prefix \<Rightarrow> kv_exn + bool" where
  "backend_exists env ask p =
     bind_res (keys_for_tokens (be_vllm env) (be_keys env) (token_ids p)) (\<lambda>keys.
       if keys = [] then Inr False
       else (case ask keys of
               Inl e \<Rightarrow> Inl (if e = StoreClientError then QueryError else e)
             | Inr result \<Rightarrow>
                 if length result \<noteq> length keys then Inl QueryError else Inr (list_all id result)))"

definition renew_once ::
  "'h backend_env \<Rightarrow> (string list \<Rightarrow> kv_exn + bool list) \<Rightarrow> prefix \<Rightarrow> kv_exn + bool" where
  "renew_once env ask p = backend_exists env ask p"

definition prefix_of :: "task_handle \<Rightarrow> backend \<Rightarrow> prefix option" where
  "prefix_of h s = map_option pe_prefix (b_plans s h)"

definition target_of :: "task_handle \<Rightarrow> backend \<Rightarrow> instance_id option" where
  "target_of h s = map_option pe_target (b_plans s h)"

definition with_ledger :: "(ledger \<Rightarrow> ledger) \<Rightarrow> backend \<Rightarrow> (kv_exn + unit) \<times> backend" where
  "with_ledger f s = (case b_ledger s of
     Some (Some l) \<Rightarrow> (Inr (), s\<lparr>b_ledger := Some (Some (f l))\<rparr>)
   | Some None \<Rightarrow> (Inl Ledger_Shutdown, s)
   | None \<Rightarrow> (Inl Kv_RuntimeError, s))"

definition backend_register_keepalive :: "'h backend_env \<Rightarrow> time \<Rightarrow> prefix \<Rightarrow> backend \<Rightarrow> (kv_exn + unit) \<times> backend" where
  "backend_register_keepalive env now p s = with_ledger (register_keepalive (be_sha env) now p) s"

definition backend_unregister_keepalive :: "'h backend_env \<Rightarrow> prefix \<Rightarrow> backend \<Rightarrow> (kv_exn + unit) \<times> backend" where
  "backend_unregister_keepalive env p s = with_ledger (unregister_keepalive (be_sha env) p) s"

text \<open>\<open>batch_rm\<close> is the call at a time, with the keys and the force flag. Without force it comes one lease
  after the registration was withdrawn; a failed call does not restore the registration.\<close>

definition remove ::
  "'h backend_env \<Rightarrow> (time \<Rightarrow> string list \<Rightarrow> bool \<Rightarrow> kv_exn + int list) \<Rightarrow> time \<Rightarrow> bool \<Rightarrow> prefix \<Rightarrow> backend \<Rightarrow>
   (kv_exn + unit) \<times> backend" where
  "remove env batch_rm now force p s =
     (case keys_for_tokens (be_vllm env) (be_keys env) (token_ids p) of
        Inl e \<Rightarrow> (Inl e, s)
      | Inr keys \<Rightarrow>
          if keys = [] then (Inl IntentInputError, s)
          else bind_st (backend_unregister_keepalive env p s) (\<lambda>_ s.
            (map_sum id (\<lambda>_. ()) (batch_rm (if force then now else now + be_lease_ttl env) keys force), s)))"

definition retain :: "prefix \<Rightarrow> instance_id option \<Rightarrow> kv_exn + task_handle" where
  "retain p target = Inl NotImplementedError"

text \<open>The operations the backend leaves to the base class.\<close>

datatype unwired_op = Op_Pin | Op_Demote | Op_Promote | Op_Check_Promote

definition unwired :: "unwired_op \<Rightarrow> prefix \<Rightarrow> kv_exn + unit" where
  "unwired op p = Inl UnsupportedCapabilityError"

section \<open>Recovery after a restart\<close>

definition op_of_value :: "string \<Rightarrow> op_kind option" where
  "op_of_value s = (if s = ''copy'' then Some OP_COPY else if s = ''move'' then Some OP_MOVE else None)"

definition group_by_handle :: "task_record list \<Rightarrow> (string \<times> task_record list) list" where
  "group_by_handle rows =
     map (\<lambda>hid. (hid, filter (\<lambda>r. r_handle_id r = hid) rows)) (dedupe (map r_handle_id rows))"

definition restore_group ::
  "'h backend_env \<Rightarrow> ledger \<Rightarrow> string \<times> task_record list \<Rightarrow> backend \<Rightarrow> (kv_exn + task_handle option) \<times> backend" where
  "restore_group env l = (\<lambda>(hid, rows) s.
     if hid = [] then (Inr None, s)
     else let r0 = hd rows in
       case op_of_value (r_op r0) of
         None \<Rightarrow> (Inr None, s)
       | Some op \<Rightarrow>
           if r_token_ids r0 = [] then (Inr None, s)
           else let p = \<lparr>model_id = r_model_id r0, token_ids = r_token_ids r0\<rparr>; target = r_target r0 in
             case bind_res (keys_for_tokens (be_vllm env) (be_keys env) (token_ids p)) (\<lambda>keys.
                    bind_res (be_locate env target) (build_plan (be_keys env) keys)) of
               Inl e \<Rightarrow> (Inr None, s)
             | Inr plan \<Rightarrow>
                 if plan = [] then (Inr None, s)
                 else (case list_tasks_by_handle hid l of
                         Inl e \<Rightarrow> (Inl Kv_ValueError, s)
                       | Inr all_rows \<Rightarrow>
                           if length all_rows \<noteq> length plan then (Inr None, s)
                           else let h = \<lparr>h_op = op, h_task_ids = map (decode_task_id \<circ> r_task_id) rows\<rparr>;
                                    s' = track h p target plan hid s;
                                    conflicted = map (decode_task_id \<circ> r_task_id)
                                      (filter (\<lambda>r. r_status r = ''failed'') all_rows) in
                             (Inr (Some h),
                              if conflicted \<noteq> [] then s'\<lparr>b_watch := (b_watch s')(h \<mapsto> conflicted)\<rparr> else s')))"

fun restore_groups ::
  "'h backend_env \<Rightarrow> ledger \<Rightarrow> (string \<times> task_record list) list \<Rightarrow> backend \<Rightarrow> (kv_exn + task_handle list) \<times> backend" where
  "restore_groups env l [] s = (Inr [], s)"
| "restore_groups env l (g # gs) s =
    bind_st (restore_group env l g s) (\<lambda>h s.
      bind_st (restore_groups env l gs s) (\<lambda>hs s. (Inr (case h of None \<Rightarrow> hs | Some x \<Rightarrow> x # hs), s)))"

definition rebuild :: "'h backend_env \<Rightarrow> backend \<Rightarrow> (kv_exn + task_handle list) \<times> backend" where
  "rebuild env s = (case b_ledger s of
     None \<Rightarrow> (Inr [], s)
   | Some None \<Rightarrow> (Inl Ledger_Shutdown, s)
   | Some (Some l) \<Rightarrow>
       (case list_running_tasks l of
          Inl e \<Rightarrow> (Inl Kv_ValueError, s)
        | Inr running \<Rightarrow> restore_groups env l (group_by_handle running) s))"

end
