(* ===== verification/Ledger_Laws.thy ===== *)
theory Ledger_Laws
  imports Ledger
begin

text \<open>
  What the ledger promises. \<open>ledger_ok\<close> is the invariant of the four tables and every operation
  keeps it, so no reachable ledger makes a read raise. The keepalive table implements a finite
  map from prefix keys to a prefix and the start of its window: the laws are the locale
  \<open>keepalive_table\<close>, interpreted on the ledger's operations. The tasks table keeps the first
  writer's description of a task and the last writer's status.
\<close>

section \<open>Invariant\<close>

definition readable :: "string \<Rightarrow> bool" where
  "readable s = (json_loads_ints s \<noteq> None)"

definition tasks_ok :: "task_row list \<Rightarrow> bool" where
  "tasks_ok rs = (distinct (map t_task_id rs) \<and>
     (\<forall>r \<in> set rs. t_status r \<in> task_statuses \<and> (t_token_ids r = [] \<or> readable (t_token_ids r))))"

definition row_prefix :: "keepalive_row \<Rightarrow> prefix" where
  "row_prefix r = \<lparr>model_id = k_model_id r, token_ids = the (json_loads_ints (k_token_ids r))\<rparr>"

definition keepalive_ok :: "(string \<Rightarrow> string) \<Rightarrow> keepalive_row list \<Rightarrow> bool" where
  "keepalive_ok sha rs = (distinct (map k_prefix_key rs) \<and>
     (\<forall>r \<in> set rs. k_token_ids r \<noteq> [] \<and> readable (k_token_ids r) \<and>
        k_prefix_key r = prefix_key sha (row_prefix r)))"

definition sessions_ok :: "session_row list \<Rightarrow> bool" where
  "sessions_ok rs = (distinct (map (\<lambda>r. (s_session_id r, s_prefix_key r)) rs) \<and>
     (\<forall>r \<in> set rs. readable (s_token_ids r)))"

definition ledger_ok :: "(string \<Rightarrow> string) \<Rightarrow> ledger \<Rightarrow> bool" where
  "ledger_ok sha l = (tasks_ok (l_tasks l) \<and> keepalive_ok sha (l_keepalive l) \<and>
     distinct (map (\<lambda>r. (rp_key r, rp_instance r)) (l_replicas l)) \<and> sessions_ok (l_sessions l))"

lemma readable_dumps [simp]: "readable (json_dumps_ints ts)"
  by (simp add: readable_def)

lemma upsert_row_ids:
  "map t_task_id (upsert_row r rs) =
    (if t_task_id r \<in> t_task_id ` set rs then map t_task_id rs else map t_task_id rs @ [t_task_id r])"
  by (induction rs) auto

lemma upsert_row_set:
  "x \<in> set (upsert_row r rs) \<Longrightarrow>
   x = r \<or> (\<exists>y \<in> set rs. x = y \<or> x = y\<lparr>t_status := t_status r, t_updated_at := t_updated_at r\<rparr>)"
  by (induction rs) (auto split: if_splits)

lemma tasks_ok_upsert:
  assumes "tasks_ok rs" "t_status r \<in> task_statuses" "t_token_ids r = [] \<or> readable (t_token_ids r)"
  shows "tasks_ok (upsert_row r rs)"
proof -
  have "distinct (map t_task_id (upsert_row r rs))"
    using assms(1) by (simp add: upsert_row_ids tasks_ok_def)
  moreover have "t_status x \<in> task_statuses \<and> (t_token_ids x = [] \<or> readable (t_token_ids x))"
    if "x \<in> set (upsert_row r rs)" for x
    using upsert_row_set [OF that] assms by (auto simp: tasks_ok_def)
  ultimately show ?thesis by (simp add: tasks_ok_def)
qed

lemma tasks_ok_upserts:
  assumes "tasks_ok rs" "status \<in> task_statuses"
  shows "tasks_ok (fold (\<lambda>tid. upsert_row (task_row_of sha now hid op p target status tid)) ids rs)"
  using assms(1)
proof (induction ids arbitrary: rs)
  case (Cons tid ids)
  have "tasks_ok (upsert_row (task_row_of sha now hid op p target status tid) rs)"
    using Cons.prems assms(2) by (intro tasks_ok_upsert) (simp_all add: task_row_of_def)
  then show ?case using Cons.IH by simp
qed simp

lemma tasks_ok_filter: "tasks_ok rs \<Longrightarrow> tasks_ok (filter P rs)"
  by (simp add: tasks_ok_def distinct_map_filter)

lemma upsert_keepalive_keys:
  "map k_prefix_key (upsert_keepalive r rs) =
    (if k_prefix_key r \<in> k_prefix_key ` set rs then map k_prefix_key rs
     else map k_prefix_key rs @ [k_prefix_key r])"
  by (induction rs) auto

lemma upsert_keepalive_set:
  "x \<in> set (upsert_keepalive r rs) \<Longrightarrow>
   x \<in> set rs \<or> (k_prefix_key x = k_prefix_key r \<and> k_model_id x = k_model_id r \<and> k_token_ids x = k_token_ids r)"
  by (induction rs) (auto split: if_splits)

lemma keepalive_row_of_ok:
  "k_token_ids (keepalive_row_of sha t p) \<noteq> []" "readable (k_token_ids (keepalive_row_of sha t p))"
  "row_prefix (keepalive_row_of sha t p) = p" "k_prefix_key (keepalive_row_of sha t p) = prefix_key sha p"
  by (simp_all add: keepalive_row_of_def row_prefix_def)

lemma keepalive_ok_upsert:
  assumes "keepalive_ok sha rs"
  shows "keepalive_ok sha (upsert_keepalive (keepalive_row_of sha t p) rs)"
proof -
  let ?r = "keepalive_row_of sha t p"
  have "distinct (map k_prefix_key (upsert_keepalive ?r rs))"
    using assms by (simp add: upsert_keepalive_keys keepalive_ok_def)
  moreover have "k_token_ids x \<noteq> [] \<and> readable (k_token_ids x) \<and> k_prefix_key x = prefix_key sha (row_prefix x)"
    if mem: "x \<in> set (upsert_keepalive ?r rs)" for x
  proof -
    consider "x \<in> set rs" | "k_prefix_key x = k_prefix_key ?r" "k_model_id x = k_model_id ?r"
      "k_token_ids x = k_token_ids ?r" using upsert_keepalive_set [OF mem] by blast
    then show ?thesis
    proof cases
      case 2
      then have "row_prefix x = p" using keepalive_row_of_ok(3) [of sha t p] by (simp add: row_prefix_def)
      then show ?thesis using 2 by (simp add: keepalive_row_of_ok)
    qed (use assms in \<open>simp add: keepalive_ok_def\<close>)
  qed
  ultimately show ?thesis by (simp add: keepalive_ok_def)
qed

lemma keepalive_ok_filter: "keepalive_ok sha rs \<Longrightarrow> keepalive_ok sha (filter P rs)"
  by (simp add: keepalive_ok_def distinct_map_filter)

lemma sessions_ok_filter: "sessions_ok rs \<Longrightarrow> sessions_ok (filter P rs)"
  by (simp add: sessions_ok_def distinct_map_filter)

section \<open>Reachable ledgers\<close>

text \<open>A run of the ledger: any of its operations, with any arguments, at any times.\<close>

inductive ledger_step :: "(string \<Rightarrow> string) \<Rightarrow> ledger \<Rightarrow> ledger \<Rightarrow> bool" for sha where
  ls_upsert: "upsert_tasks sha now ids hid op p target status l = Inr l' \<Longrightarrow> ledger_step sha l l'"
| ls_gc: "gc_tasks now age l = (n, l') \<Longrightarrow> ledger_step sha l l'"
| ls_register: "ledger_step sha l (register_keepalive sha now p l)"
| ls_unregister: "ledger_step sha l (unregister_keepalive sha p l)"
| ls_restore: "ledger_step sha l (restore_keepalive sha p t l)"
| ls_put: "ledger_step sha l (put_replica now key inst l)"
| ls_delete: "ledger_step sha l (delete_replica key inst l)"
| ls_bind: "ledger_step sha l (bind_session sha now sid p inst l)"
| ls_unbind: "ledger_step sha l (unbind_session sid l)"
| ls_corrupt: "ledger_step sha l (corrupt_task_row tid l)"

lemma ledger_ok_open: "ledger_ok sha ledger_open"
  by (simp add: ledger_ok_def ledger_open_def tasks_ok_def keepalive_ok_def sessions_ok_def)

lemma ledger_ok_register: "ledger_ok sha l \<Longrightarrow> ledger_ok sha (register_keepalive sha now p l)"
  by (simp add: ledger_ok_def register_keepalive_def keepalive_ok_upsert)

lemma ledger_ok_unregister: "ledger_ok sha l \<Longrightarrow> ledger_ok sha (unregister_keepalive sha p l)"
  by (simp add: ledger_ok_def unregister_keepalive_def keepalive_ok_filter)

lemma ledger_ok_restore: "ledger_ok sha l \<Longrightarrow> ledger_ok sha (restore_keepalive sha p t l)"
  by (auto simp: ledger_ok_def restore_keepalive_def keepalive_ok_def keepalive_row_of_ok
      has_keepalive_def list_ex_iff)

lemma ledger_ok_upsert: "ledger_ok sha l \<Longrightarrow> upsert_tasks sha now ids hid op p target status l = Inr l' \<Longrightarrow> ledger_ok sha l'"
  by (auto simp: ledger_ok_def upsert_tasks_def tasks_ok_upserts split: if_splits)

lemma ledger_ok_gc: "ledger_ok sha l \<Longrightarrow> ledger_ok sha (snd (gc_tasks now age l))"
  by (simp add: ledger_ok_def gc_tasks_def Let_def tasks_ok_filter)

lemma ledger_ok_put: "ledger_ok sha l \<Longrightarrow> ledger_ok sha (put_replica now key inst l)"
  by (auto simp: ledger_ok_def put_replica_def distinct_map_filter)

lemma ledger_ok_bind: "ledger_ok sha l \<Longrightarrow> ledger_ok sha (bind_session sha now sid p inst l)"
  by (auto simp: ledger_ok_def bind_session_def sessions_ok_def distinct_map_filter)

lemma ledger_ok_corrupt: "ledger_ok sha l \<Longrightarrow> ledger_ok sha (corrupt_task_row tid l)"
proof -
  let ?f = "\<lambda>r. if t_task_id r = tid then r\<lparr>t_handle_id := [], t_token_ids := []\<rparr> else r"
  have [simp]: "t_task_id \<circ> ?f = t_task_id" by (simp add: fun_eq_iff)
  assume "ledger_ok sha l"
  then show ?thesis unfolding ledger_ok_def corrupt_task_row_def tasks_ok_def by auto
qed

lemma ledger_step_ok: "ledger_step sha l l' \<Longrightarrow> ledger_ok sha l \<Longrightarrow> ledger_ok sha l'"
proof (induction rule: ledger_step.induct)
  case (ls_gc now age l n l')
  then show ?case using ledger_ok_gc [of sha l now age] by simp
next
  case (ls_delete l key inst)
  then show ?case by (simp add: ledger_ok_def delete_replica_def distinct_map_filter)
next
  case (ls_unbind l sid)
  then show ?case by (simp add: ledger_ok_def unbind_session_def sessions_ok_filter)
qed (simp_all add: ledger_ok_register ledger_ok_unregister ledger_ok_restore ledger_ok_put
    ledger_ok_bind ledger_ok_corrupt ledger_ok_upsert)

lemma ledger_reachable_ok: "(ledger_step sha)\<^sup>*\<^sup>* ledger_open l \<Longrightarrow> ledger_ok sha l"
  by (induction rule: rtranclp_induct) (auto intro: ledger_ok_open ledger_step_ok)

lemma column_tokens_ok: "s = [] \<or> readable s \<Longrightarrow> \<exists>ts. column_tokens s = Inr ts"
  by (auto simp: column_tokens_def readable_def)

lemma row_to_record_ok: "t_token_ids r = [] \<or> readable (t_token_ids r) \<Longrightarrow> is_ok (row_to_record r)"
  using column_tokens_ok [of "t_token_ids r"] by (auto simp: row_to_record_def)

lemma map_res_is_ok: "\<forall>x \<in> set xs. is_ok (f x) \<Longrightarrow> is_ok (map_res f xs)"
  by (induction xs) (auto simp: is_ok_iff)

lemma tasks_ok_rows: "tasks_ok rs \<Longrightarrow> r \<in> set rs \<Longrightarrow> is_ok (row_to_record r)"
  by (simp add: tasks_ok_def row_to_record_ok)

lemma ledger_ok_reads:
  assumes "ledger_ok sha l"
  shows "is_ok (list_running_tasks l)" "is_ok (list_tasks_by_handle hid l)" "is_ok (get_task tid l)"
    "is_ok (list_keepalive_records l)" "is_ok (list_session sid l)"
proof -
  have t: "\<forall>r \<in> set (l_tasks l). is_ok (row_to_record r)"
    using assms tasks_ok_rows by (auto simp: ledger_ok_def)
  then show "is_ok (list_running_tasks l)" "is_ok (list_tasks_by_handle hid l)"
    by (simp_all add: list_running_tasks_def list_tasks_by_handle_def map_res_is_ok)
  show "is_ok (get_task tid l)"
    using t by (auto simp: get_task_def is_ok_iff find_Some_iff set_conv_nth split: option.splits)
  show "is_ok (list_keepalive_records l)"
    using assms column_tokens_ok unfolding list_keepalive_records_def ledger_ok_def keepalive_ok_def
    by (intro map_res_is_ok) (fastforce simp: keepalive_to_record_def)
  show "is_ok (list_session sid l)"
    using assms column_tokens_ok unfolding list_session_def ledger_ok_def sessions_ok_def
    by (intro map_res_is_ok) fastforce
qed

section \<open>The keepalive table as a map of windows\<close>

locale keepalive_table =
  fixes key :: "prefix \<Rightarrow> string"
    and ok :: "'s \<Rightarrow> bool"
    and view :: "'s \<Rightarrow> string \<Rightarrow> (prefix \<times> time) option"
    and register :: "time \<Rightarrow> prefix \<Rightarrow> 's \<Rightarrow> 's"
    and unregister :: "prefix \<Rightarrow> 's \<Rightarrow> 's"
    and restore :: "prefix \<Rightarrow> time \<Rightarrow> 's \<Rightarrow> 's"
    and registered :: "prefix \<Rightarrow> 's \<Rightarrow> bool"
    and records :: "'s \<Rightarrow> py_exn + keepalive_record list"
  assumes ok_register: "ok s \<Longrightarrow> ok (register now p s)"
    and ok_unregister: "ok s \<Longrightarrow> ok (unregister p s)"
    and ok_restore: "ok s \<Longrightarrow> ok (restore p t s)"
    and view_register: "ok s \<Longrightarrow> view (register now p s) =
        (view s)(key p \<mapsto> (p, case view s (key p) of None \<Rightarrow> now | Some (q, t) \<Rightarrow> t))"
    and view_unregister: "ok s \<Longrightarrow> view (unregister p s) = (view s)(key p := None)"
    and view_restore: "ok s \<Longrightarrow> view (restore p t s) =
        (case view s (key p) of None \<Rightarrow> (view s)(key p \<mapsto> (p, t)) | Some _ \<Rightarrow> view s)"
    and registered_iff: "ok s \<Longrightarrow> registered p s \<longleftrightarrow> view s (key p) \<noteq> None"
    and records_ok: "ok s \<Longrightarrow> \<exists>rs. records s = Inr rs \<and> distinct (map (key \<circ> ka_prefix) rs) \<and>
        (\<forall>r \<in> set rs. view s (key (ka_prefix r)) = Some (ka_prefix r, ka_registered_at r)) \<and>
        dom (view s) = (key \<circ> ka_prefix) ` set rs"
begin

lemma register_keeps_start:
  assumes "ok s" "view s (key p) = Some (q, t)"
  shows "view (register now p s) (key p) = Some (p, t)"
  using assms by (simp add: view_register)

lemma restore_after_unregister:
  assumes "ok s" "view s (key p) = Some (p, t)"
  shows "view (restore p t (unregister p s)) = view s"
  using assms by (simp add: view_restore view_unregister ok_unregister fun_eq_iff)

lemma restore_yields_to_register:
  assumes "ok s"
  shows "view (restore p t (register now p (unregister p s))) (key p) = Some (p, now)"
  using assms by (simp add: view_restore view_register view_unregister ok_unregister ok_register)

end

definition keepalive_view :: "ledger \<Rightarrow> string \<Rightarrow> (prefix \<times> time) option" where
  "keepalive_view l k =
     map_option (\<lambda>r. (row_prefix r, k_registered_at r)) (find (\<lambda>r. k_prefix_key r = k) (l_keepalive l))"

lemma find_upsert_keepalive:
  "find (\<lambda>r. k_prefix_key r = k) (upsert_keepalive x rs) =
    (if k = k_prefix_key x then
       Some (case find (\<lambda>r. k_prefix_key r = k) rs of None \<Rightarrow> x
             | Some y \<Rightarrow> y\<lparr>k_model_id := k_model_id x, k_token_ids := k_token_ids x\<rparr>)
     else find (\<lambda>r. k_prefix_key r = k) rs)"
  by (induction rs) auto

lemma find_append: "find P (xs @ ys) = (case find P xs of None \<Rightarrow> find P ys | Some x \<Rightarrow> Some x)"
  by (induction xs) auto

lemma find_None_list_ex: "find P xs = None \<longleftrightarrow> \<not> list_ex P xs"
  by (induction xs) auto

lemma view_register_ledger:
  "keepalive_view (register_keepalive sha now p l) =
    (keepalive_view l)(prefix_key sha p \<mapsto>
      (p, case keepalive_view l (prefix_key sha p) of None \<Rightarrow> now | Some (q, t) \<Rightarrow> t))"
  by (auto simp: keepalive_view_def register_keepalive_def find_upsert_keepalive fun_eq_iff
      keepalive_row_of_def row_prefix_def split: option.splits)

lemma find_drop_key:
  "find (\<lambda>r. f r = k) (filter (\<lambda>r. f r \<noteq> c) rs) = (if k = c then None else find (\<lambda>r. f r = k) rs)"
  by (induction rs) auto

lemma view_unregister_ledger:
  "keepalive_view (unregister_keepalive sha p l) = (keepalive_view l)(prefix_key sha p := None)"
proof
  fix k
  show "keepalive_view (unregister_keepalive sha p l) k = ((keepalive_view l)(prefix_key sha p := None)) k"
    unfolding keepalive_view_def unregister_keepalive_def
    by (cases "k = prefix_key sha p") (simp_all add: find_drop_key)
qed

lemma keepalive_row_start: "k_registered_at (keepalive_row_of sha t p) = t"
  by (simp add: keepalive_row_of_def)

lemma view_restore_ledger:
  "keepalive_view (restore_keepalive sha p t l) =
    (case keepalive_view l (prefix_key sha p) of
       None \<Rightarrow> (keepalive_view l)(prefix_key sha p \<mapsto> (p, t)) | Some _ \<Rightarrow> keepalive_view l)"
  by (auto simp: keepalive_view_def restore_keepalive_def has_keepalive_def find_None_list_ex [symmetric]
      find_append fun_eq_iff keepalive_row_of_ok keepalive_row_start split: option.splits)

lemma has_keepalive_view: "has_keepalive sha p l \<longleftrightarrow> keepalive_view l (prefix_key sha p) \<noteq> None"
  by (auto simp: has_keepalive_def keepalive_view_def find_None_list_ex)

lemma keepalive_to_record_row:
  assumes "k_token_ids r \<noteq> []" "readable (k_token_ids r)"
  shows "keepalive_to_record r = Inr \<lparr>ka_prefix = row_prefix r, ka_registered_at = k_registered_at r\<rparr>"
  using assms by (auto simp: keepalive_to_record_def column_tokens_def readable_def row_prefix_def)

lemma find_distinct_key:
  "distinct (map f xs) \<Longrightarrow> x \<in> set xs \<Longrightarrow> find (\<lambda>y. f y = f x) xs = Some x"
  by (induction xs) (auto simp: image_iff)

lemma records_ledger:
  assumes "ledger_ok sha l"
  shows "\<exists>rs. list_keepalive_records l = Inr rs \<and> distinct (map (prefix_key sha \<circ> ka_prefix) rs) \<and>
    (\<forall>r \<in> set rs. keepalive_view l (prefix_key sha (ka_prefix r)) = Some (ka_prefix r, ka_registered_at r)) \<and>
    dom (keepalive_view l) = (prefix_key sha \<circ> ka_prefix) ` set rs"
proof -
  let ?K = "l_keepalive l"
  let ?g = "\<lambda>r. \<lparr>ka_prefix = row_prefix r, ka_registered_at = k_registered_at r\<rparr>"
  have ok: "distinct (map k_prefix_key ?K)"
    "\<forall>r \<in> set ?K. k_token_ids r \<noteq> [] \<and> readable (k_token_ids r) \<and> k_prefix_key r = prefix_key sha (row_prefix r)"
    using assms by (simp_all add: ledger_ok_def keepalive_ok_def)
  then have "filter (\<lambda>r. k_token_ids r \<noteq> []) ?K = ?K" by simp
  then have "list_keepalive_records l = Inr (map ?g ?K)"
    unfolding list_keepalive_records_def using ok(2) by (simp add: map_res_ok keepalive_to_record_row)
  moreover have keys: "map (prefix_key sha \<circ> ka_prefix) (map ?g ?K) = map k_prefix_key ?K"
    using ok(2) by simp
  moreover have "distinct (map (prefix_key sha \<circ> ka_prefix) (map ?g ?K))" unfolding keys by (rule ok(1))
  moreover have "keepalive_view l (prefix_key sha (row_prefix r)) = Some (row_prefix r, k_registered_at r)"
    if "r \<in> set ?K" for r
    using find_distinct_key [OF ok(1) that] ok(2) that by (simp add: keepalive_view_def)
  then have "\<forall>r \<in> set (map ?g ?K). keepalive_view l (prefix_key sha (ka_prefix r)) = Some (ka_prefix r, ka_registered_at r)"
    by simp
  moreover have "dom (keepalive_view l) = set (map k_prefix_key ?K)"
  proof (rule set_eqI)
    fix k
    have "keepalive_view l k \<noteq> None \<longleftrightarrow> list_ex (\<lambda>r. k_prefix_key r = k) ?K"
      by (simp add: keepalive_view_def find_None_list_ex)
    then show "k \<in> dom (keepalive_view l) \<longleftrightarrow> k \<in> set (map k_prefix_key ?K)"
      by (auto simp: list_ex_iff dom_def)
  qed
  then have "dom (keepalive_view l) = (prefix_key sha \<circ> ka_prefix) ` set (map ?g ?K)"
    unfolding keys [symmetric] list.set_map .
  ultimately show ?thesis by blast
qed

interpretation kt: keepalive_table "prefix_key sha" "ledger_ok sha" keepalive_view
    "register_keepalive sha" "unregister_keepalive sha" "restore_keepalive sha" "has_keepalive sha"
    list_keepalive_records
  for sha
proof unfold_locales
  show "ledger_ok sha s \<Longrightarrow> \<exists>rs. list_keepalive_records s = Inr rs \<and>
      distinct (map (prefix_key sha \<circ> ka_prefix) rs) \<and>
      (\<forall>r\<in>set rs. keepalive_view s (prefix_key sha (ka_prefix r)) = Some (ka_prefix r, ka_registered_at r)) \<and>
      dom (keepalive_view s) = (prefix_key sha \<circ> ka_prefix) ` set rs" for s
    by (rule records_ledger)
qed (simp_all add: ledger_ok_register ledger_ok_unregister ledger_ok_restore view_register_ledger
      view_unregister_ledger view_restore_ledger has_keepalive_view)

section \<open>What a reader of the tasks table sees\<close>

lemma find_upsert_row:
  "find (\<lambda>r. t_task_id r = tid) (upsert_row x rs) =
    (if tid = t_task_id x then
       Some (case find (\<lambda>r. t_task_id r = tid) rs of None \<Rightarrow> x
             | Some y \<Rightarrow> y\<lparr>t_status := t_status x, t_updated_at := t_updated_at x\<rparr>)
     else find (\<lambda>r. t_task_id r = tid) rs)"
  by (induction rs) auto

lemma find_upserts:
  "find (\<lambda>r. t_task_id r = tid) (fold (\<lambda>i. upsert_row (task_row_of sha now hid op p target status i)) ids rs) =
    (if tid \<in> set ids then
       Some (case find (\<lambda>r. t_task_id r = tid) rs of None \<Rightarrow> task_row_of sha now hid op p target status tid
             | Some y \<Rightarrow> y\<lparr>t_status := status, t_updated_at := now\<rparr>)
     else find (\<lambda>r. t_task_id r = tid) rs)"
  by (induction ids arbitrary: rs)
    (auto simp: find_upsert_row task_row_of_def split: option.splits)

definition task_record_of ::
  "(string \<Rightarrow> string) \<Rightarrow> time \<Rightarrow> string \<Rightarrow> string \<Rightarrow> prefix \<Rightarrow> string \<Rightarrow> string \<Rightarrow> string \<Rightarrow> task_record" where
  "task_record_of sha now hid op p target status tid =
     \<lparr>r_task_id = tid, r_handle_id = hid, r_op = op, r_prefix_key = prefix_key sha p,
      r_target = target, r_status = status, r_model_id = model_id p, r_token_ids = token_ids p,
      r_created_at = now, r_updated_at = now\<rparr>"

lemma row_to_record_new:
  "row_to_record (task_row_of sha now hid op p target status tid) =
   Inr (task_record_of sha now hid op p target status tid)"
  by (simp add: row_to_record_def task_row_of_def task_record_of_def column_tokens_def)

lemma row_to_record_status:
  "row_to_record (r\<lparr>t_status := st, t_updated_at := now\<rparr>) =
   bind_res (row_to_record r) (\<lambda>x. Inr (x\<lparr>r_status := st, r_updated_at := now\<rparr>))"
  by (cases "column_tokens (t_token_ids r)") (simp_all add: row_to_record_def)

lemma find_filter_distinct:
  assumes "distinct (map f xs)"
  shows "find (\<lambda>x. f x = k) (filter P xs) =
    (case find (\<lambda>x. f x = k) xs of None \<Rightarrow> None | Some x \<Rightarrow> if P x then Some x else None)"
proof -
  have n: "find (\<lambda>x. f x = k) ys = None" if "k \<notin> f ` set ys" for ys
    using that by (induction ys) auto
  have sub: "k \<notin> f ` set (filter P ys)" if "k \<notin> f ` set ys" for ys using that by auto
  show ?thesis using assms
  proof (induction xs)
    case (Cons y ys)
    then show ?case
      by (cases "f y = k") (use n [OF sub, of ys] in \<open>auto split: option.splits\<close>)
  qed simp
qed

section \<open>Properties\<close>

text \<open>C22. No sequence of ledger operations, the corrupting test helper included, can produce tables
  that a read chokes on: listing the running tasks, the tasks of a handle, one task, the keepalive
  records or the prefixes of a session never raises.\<close>

theorem ledger_reads_total:
  assumes "(ledger_step sha)\<^sup>*\<^sup>* ledger_open l"
  shows "is_ok (list_running_tasks l) \<and> is_ok (list_tasks_by_handle hid l) \<and> is_ok (get_task tid l) \<and>
    is_ok (list_keepalive_records l) \<and> is_ok (list_session sid l)"
  using ledger_ok_reads [OF ledger_reachable_ok [OF assms]] by blast

theorem ledger_reads_total_witness:
  "is_ok (get_task ''7:1'' (corrupt_task_row ''7:1'' ledger_open))"
proof -
  have "(ledger_step (\<lambda>s. s))\<^sup>*\<^sup>* ledger_open (corrupt_task_row ''7:1'' ledger_open)"
    by (rule r_into_rtranclp) (rule ls_corrupt)
  from ledger_reads_total [OF this, of "[]" "''7:1''" "[]"] show ?thesis by simp
qed

text \<open>A batch upsert is read back exactly: a task number of the batch that was new is found with
  the prefix, target, operation and group it was written with (the token list survives its JSON
  column), one that was known keeps its first description and takes only the new status and update
  time, and every other task is unchanged.\<close>

theorem upsert_tasks_get:
  assumes "(ledger_step sha)\<^sup>*\<^sup>* ledger_open l"
    and "upsert_tasks sha now ids hid op p target status l = Inr l'"
  shows "get_task tid l' =
    (if tid \<notin> set ids then get_task tid l
     else bind_res (get_task tid l) (\<lambda>old. Inr (Some (case old of
       None \<Rightarrow> task_record_of sha now hid op p target status tid
     | Some r \<Rightarrow> r\<lparr>r_status := status, r_updated_at := now\<rparr>))))"
proof -
  have "l_tasks l' = fold (\<lambda>i. upsert_row (task_row_of sha now hid op p target status i)) ids (l_tasks l)"
    using assms(2) by (auto simp: upsert_tasks_def split: if_splits)
  then have f: "find (\<lambda>r. t_task_id r = tid) (l_tasks l') =
      (if tid \<in> set ids then
         Some (case find (\<lambda>r. t_task_id r = tid) (l_tasks l) of
           None \<Rightarrow> task_row_of sha now hid op p target status tid
         | Some y \<Rightarrow> y\<lparr>t_status := status, t_updated_at := now\<rparr>)
       else find (\<lambda>r. t_task_id r = tid) (l_tasks l))"
    by (simp add: find_upserts)
  show ?thesis
  proof (cases "find (\<lambda>r. t_task_id r = tid) (l_tasks l)")
    case None
    then show ?thesis using f by (simp add: get_task_def row_to_record_new)
  next
    case (Some y)
    then show ?thesis using f
      by (cases "row_to_record y") (simp_all add: get_task_def row_to_record_status)
  qed
qed

definition demo_prefix :: prefix where
  "demo_prefix = \<lparr>model_id = ''m'', token_ids = [5, - 3, 120]\<rparr>"

theorem upsert_tasks_get_witness:
  "\<exists>l'. upsert_tasks (\<lambda>s. s) 9 [''1:2''] ''g'' ''copy'' demo_prefix ''inst'' ''running'' ledger_open = Inr l' \<and>
     get_task ''1:2'' l' =
       Inr (Some (task_record_of (\<lambda>s. s) 9 ''g'' ''copy'' demo_prefix ''inst'' ''running'' ''1:2''))"
proof -
  obtain l' where u: "upsert_tasks (\<lambda>s. s) 9 [''1:2''] ''g'' ''copy'' demo_prefix ''inst'' ''running''
      ledger_open = Inr l'" by (simp add: upsert_tasks_def task_statuses_def)
  have "get_task ''1:2'' ledger_open = Inr None" by (simp add: get_task_def ledger_open_def)
  then show ?thesis
    using upsert_tasks_get [OF rtranclp.rtrancl_refl u, of "''1:2''"] u by simp
qed

text \<open>C23. The keepalive table refines a map from prefix keys to a prefix and the start of its window:
  registering a new prefix starts its window now and registering it again leaves the window where it
  is, unregistering drops the entry, restoring puts back an entry only where there is none, and the
  records a restart reads are exactly the entries of the map.\<close>

theorem keepalive_refines_windows:
  assumes "(ledger_step sha)\<^sup>*\<^sup>* ledger_open l"
  shows "keepalive_view (register_keepalive sha now p l) = (keepalive_view l)(prefix_key sha p \<mapsto>
      (p, case keepalive_view l (prefix_key sha p) of None \<Rightarrow> now | Some (q, t) \<Rightarrow> t)) \<and>
    keepalive_view (unregister_keepalive sha p l) = (keepalive_view l)(prefix_key sha p := None) \<and>
    (keepalive_view l (prefix_key sha p) = Some (p, t) \<longrightarrow>
      keepalive_view (restore_keepalive sha p t (unregister_keepalive sha p l)) = keepalive_view l) \<and>
    keepalive_view (restore_keepalive sha p t (register_keepalive sha now p (unregister_keepalive sha p l)))
      (prefix_key sha p) = Some (p, now) \<and>
    (\<exists>rs. list_keepalive_records l = Inr rs \<and> distinct (map (prefix_key sha \<circ> ka_prefix) rs) \<and>
      (\<forall>r \<in> set rs. keepalive_view l (prefix_key sha (ka_prefix r)) = Some (ka_prefix r, ka_registered_at r)) \<and>
      dom (keepalive_view l) = (prefix_key sha \<circ> ka_prefix) ` set rs)"
proof -
  note ok = ledger_reachable_ok [OF assms]
  show ?thesis
    by (intro conjI impI)
      (rule kt.view_register [OF ok] kt.view_unregister [OF ok] kt.restore_after_unregister [OF ok]
        kt.restore_yields_to_register [OF ok] kt.records_ok [OF ok]; assumption?)+
qed

theorem keepalive_refines_windows_witness:
  "keepalive_view (restore_keepalive (\<lambda>s. s) demo_prefix 4
      (unregister_keepalive (\<lambda>s. s) demo_prefix (register_keepalive (\<lambda>s. s) 4 demo_prefix ledger_open)))
    (prefix_key (\<lambda>s. s) demo_prefix) = Some (demo_prefix, 4)"
proof -
  let ?l = "register_keepalive (\<lambda>s. s) 4 demo_prefix ledger_open"
  have r: "(ledger_step (\<lambda>s. s))\<^sup>*\<^sup>* ledger_open ?l"
    by (rule r_into_rtranclp) (rule ls_register)
  have v: "keepalive_view ?l (prefix_key (\<lambda>s. s) demo_prefix) = Some (demo_prefix, 4)"
    using keepalive_refines_windows [OF rtranclp.rtrancl_refl, of "\<lambda>s. s" 4 demo_prefix]
    by (simp add: keepalive_view_def ledger_open_def)
  from keepalive_refines_windows [OF r, of 0 demo_prefix 4] v show ?thesis by simp
qed

text \<open>Collecting old tasks removes exactly the tasks in a terminal state that were last updated
  before the age limit, reports how many it removed, and never touches a running task.\<close>

theorem gc_tasks_exact:
  assumes "(ledger_step sha)\<^sup>*\<^sup>* ledger_open l" and "gc_tasks now age l = (n, l')"
  shows "get_task tid l' = bind_res (get_task tid l) (\<lambda>old. Inr (case old of
      None \<Rightarrow> None
    | Some r \<Rightarrow> if r_status r \<noteq> ''running'' \<and> r_updated_at r < now - age then None else Some r)) \<and>
    length (l_tasks l) = length (l_tasks l') + n"
proof -
  let ?D = "\<lambda>r. t_status r \<noteq> ''running'' \<and> t_updated_at r < now - age"
  have eq: "l_tasks l' = filter (Not \<circ> ?D) (l_tasks l)" "n = length (filter ?D (l_tasks l))"
    using assms(2) by (auto simp: gc_tasks_def Let_def)
  have d: "distinct (map t_task_id (l_tasks l))" and k: "tasks_ok (l_tasks l)"
    using ledger_reachable_ok [OF assms(1)] by (auto simp: ledger_ok_def tasks_ok_def)
  have "length (l_tasks l) = length (l_tasks l') + n"
    using sum_length_filter_compl [of ?D "l_tasks l"] eq by (simp add: o_def)
  moreover have "get_task tid l' = bind_res (get_task tid l) (\<lambda>old. Inr (case old of
      None \<Rightarrow> None
    | Some r \<Rightarrow> if r_status r \<noteq> ''running'' \<and> r_updated_at r < now - age then None else Some r))"
  proof (cases "find (\<lambda>r. t_task_id r = tid) (l_tasks l)")
    case None
    then show ?thesis by (simp add: get_task_def eq(1) find_filter_distinct [OF d])
  next
    case (Some y)
    then have "y \<in> set (l_tasks l)" by (auto simp: find_Some_iff)
    then obtain rec where r: "row_to_record y = Inr rec" using tasks_ok_rows [OF k] by (auto simp: is_ok_iff)
    then have "r_status rec = t_status y" "r_updated_at rec = t_updated_at y"
      by (auto simp: row_to_record_def bind_res_Inr_iff)
    then show ?thesis using Some r by (auto simp: get_task_def eq(1) find_filter_distinct [OF d])
  qed
  ultimately show ?thesis by blast
qed

definition demo_ledger :: ledger where
  "demo_ledger = ledger_open\<lparr>l_tasks :=
     [task_row_of (\<lambda>s. s) 3 ''g'' ''copy'' demo_prefix ''inst'' ''failed'' ''1:2'']\<rparr>"

lemma demo_ledger_reachable: "(ledger_step (\<lambda>s. s))\<^sup>*\<^sup>* ledger_open demo_ledger"
  by (rule r_into_rtranclp, rule ls_upsert [of _ 3 "[''1:2'']" "''g''" "''copy''" demo_prefix "''inst''" "''failed''"])
    (simp add: upsert_tasks_def task_statuses_def demo_ledger_def ledger_open_def)

theorem gc_tasks_exact_witness:
  "get_task ''1:2'' demo_ledger \<noteq> Inr None \<and> get_task ''1:2'' (snd (gc_tasks 50 10 demo_ledger)) = Inr None"
proof -
  have g: "get_task ''1:2'' demo_ledger =
      Inr (Some (task_record_of (\<lambda>s. s) 3 ''g'' ''copy'' demo_prefix ''inst'' ''failed'' ''1:2''))"
    by (simp add: get_task_def demo_ledger_def row_to_record_new) (simp add: task_row_of_def)
  with gc_tasks_exact [OF demo_ledger_reachable, of 50 10 "fst (gc_tasks 50 10 demo_ledger)"
      "snd (gc_tasks 50 10 demo_ledger)" "''1:2''"]
  show ?thesis by (simp add: task_record_of_def)
qed

end
