(* ===== verification/Mooncake_Tasks.thy ===== *)
theory Mooncake_Tasks
  imports Mooncake Ledger_Laws
begin

text \<open>
  The bookkeeping of the mooncake backend. The laws its proofs need of the tasks table are the locale
  \<open>task_table\<close>, interpreted on the ledger. Over any run of the backend's operations the rows the ledger
  shows as running are exactly the tasks the process still tracks.
\<close>

section \<open>Task numbers\<close>

lemma colon_notin_show_int: "CHR '':'' \<notin> set (show_int i)"
  using show_int_chars digit_char_props(4) by fastforce

lemma decode_encode_pair [simp]: "decode_task_id (encode_task_id (Tid_Pair a b)) = Tid_Pair a b"
proof -
  have "py_split CHR '':'' (show_int a @ CHR '':'' # show_int b) = [show_int a, show_int b]"
    by (simp add: py_split_append py_split_no_sep colon_notin_show_int)
  then show ?thesis by (simp add: encode_task_id_def decode_task_id_def)
qed

definition is_pair :: "task_id \<Rightarrow> bool" where
  "is_pair t = (case t of Tid_Pair a b \<Rightarrow> True | Tid_Text s \<Rightarrow> False)"

lemma decode_encode: "is_pair t \<Longrightarrow> decode_task_id (encode_task_id t) = t"
  by (cases t) (simp_all add: is_pair_def)

lemma encode_inj: "is_pair t \<Longrightarrow> is_pair u \<Longrightarrow> encode_task_id t = encode_task_id u \<longleftrightarrow> t = u"
  by (metis decode_encode)

section \<open>The tasks table as a map of statuses\<close>

locale task_table =
  fixes ok :: "'s \<Rightarrow> bool"
    and status :: "'s \<Rightarrow> string \<Rightarrow> string option"
    and upsert :: "time \<Rightarrow> string list \<Rightarrow> string \<Rightarrow> string \<Rightarrow> prefix \<Rightarrow> string \<Rightarrow> string \<Rightarrow> 's \<Rightarrow> py_exn + 's"
  assumes upsert_ok: "ok l \<Longrightarrow> st \<in> task_statuses \<Longrightarrow>
      \<exists>l'. upsert now ids hid op p target st l = Inr l' \<and> ok l' \<and>
        status l' = (\<lambda>i. if i \<in> set ids then Some st else status l i)"
begin

definition running :: "'s \<Rightarrow> string set" where
  "running l = {i. status l i = Some ''running''}"

lemma upsert_running:
  assumes "ok l" "upsert now ids hid op p target ''running'' l = Inr l'"
  shows "running l' = running l \<union> set ids"
  using upsert_ok [OF assms(1), of "''running''" now ids hid op p target] assms(2)
  by (auto simp: running_def task_statuses_def split: if_splits)

lemma upsert_terminal:
  assumes "ok l" "upsert now ids hid op p target st l = Inr l'" "st \<in> task_statuses" "st \<noteq> ''running''"
  shows "running l' = running l - set ids"
  using upsert_ok [OF assms(1,3), of now ids hid op p target] assms(2,4)
  by (auto simp: running_def split: if_splits)

end

definition row_status :: "ledger \<Rightarrow> string \<Rightarrow> string option" where
  "row_status l i = map_option t_status (find (\<lambda>r. t_task_id r = i) (l_tasks l))"

lemma task_row_status: "t_status (task_row_of sha now hid op p target st tid) = st"
  by (simp add: task_row_of_def)

interpretation tt: task_table "ledger_ok sha" row_status "upsert_tasks sha" for sha
proof
  fix l st now ids hid op p target
  assume a: "ledger_ok sha l" "st \<in> task_statuses"
  then obtain l' where u: "upsert_tasks sha now ids hid op p target st l = Inr l'"
    by (simp add: upsert_tasks_def)
  then have "l_tasks l' = fold (\<lambda>i. upsert_row (task_row_of sha now hid op p target st i)) ids (l_tasks l)"
    using a(2) by (auto simp: upsert_tasks_def)
  then have "row_status l' i = (if i \<in> set ids then Some st else row_status l i)" for i
    by (auto simp: row_status_def find_upserts task_row_status split: option.splits)
  then show "\<exists>l'. upsert_tasks sha now ids hid op p target st l = Inr l' \<and> ledger_ok sha l' \<and>
      row_status l' = (\<lambda>i. if i \<in> set ids then Some st else row_status l i)"
    using u ledger_ok_upsert [OF a(1) u] by blast
qed

section \<open>What an operation records\<close>

definition open_ledger :: "backend \<Rightarrow> ledger" where
  "open_ledger s = the (the (b_ledger s))"

text \<open>\<open>s\<close> has an open, well-formed ledger.\<close>

definition ledger_live :: "'h backend_env \<Rightarrow> backend \<Rightarrow> bool" where
  "ledger_live env s = (b_ledger s = Some (Some (open_ledger s)) \<and> ledger_ok (be_sha env) (open_ledger s))"

definition statuses :: "backend \<Rightarrow> string \<Rightarrow> string option" where
  "statuses s = row_status (open_ledger s)"

lemma record_tasks_live:
  assumes "ledger_live env s" "b_plans s h = Some e" "st \<in> task_statuses"
  shows "\<exists>s'. record_tasks env now h st tids s = (Inr (), s') \<and> ledger_live env s' \<and>
    b_plans s' = b_plans s \<and> b_watch s' = b_watch s \<and>
    statuses s' = (\<lambda>i. if i \<in> encode_task_id ` set tids then Some st else statuses s i)"
proof -
  let ?l = "open_ledger s"
  have l: "b_ledger s = Some (Some ?l)" "ledger_ok (be_sha env) ?l" using assms(1) by (auto simp: ledger_live_def)
  from tt.upsert_ok [OF l(2) assms(3), of now "map encode_task_id tids" "pe_handle_id e" "op_value (h_op h)"
      "pe_prefix e" "pe_target e"]
  obtain l' where u: "upsert_tasks (be_sha env) now (map encode_task_id tids) (pe_handle_id e) (op_value (h_op h))
      (pe_prefix e) (pe_target e) st ?l = Inr l'" "ledger_ok (be_sha env) l'"
    "row_status l' = (\<lambda>i. if i \<in> set (map encode_task_id tids) then Some st else row_status ?l i)" by blast
  let ?s = "s\<lparr>b_ledger := Some (Some l')\<rparr>"
  have "record_tasks env now h st tids s = (Inr (), ?s)"
    unfolding record_tasks_def l(1) assms(2) by (simp add: u(1))
  moreover have "open_ledger ?s = l'" by (simp add: open_ledger_def)
  ultimately show ?thesis
    unfolding statuses_def using u(2,3) by (intro exI [of _ ?s]) (simp add: ledger_live_def)
qed

lemma statuses_watch [simp]:
  "statuses (s\<lparr>b_watch := w\<rparr>) = statuses s" "statuses (s\<lparr>b_plans := q\<rparr>) = statuses s"
  "statuses (forget h s) = statuses s" "statuses (track h p target plan hid s) = statuses s"
  by (simp_all add: statuses_def open_ledger_def forget_def track_def)

lemma ledger_live_watch [simp]:
  "ledger_live env (s\<lparr>b_watch := w\<rparr>) = ledger_live env s" "ledger_live env (s\<lparr>b_plans := q\<rparr>) = ledger_live env s"
  "ledger_live env (forget h s) = ledger_live env s" "ledger_live env (track h p target plan hid s) = ledger_live env s"
  by (simp_all add: ledger_live_def open_ledger_def forget_def track_def)

section \<open>The submission pool\<close>

definition pool_inv :: "nat \<Rightarrow> submit_pool \<Rightarrow> bool" where
  "pool_inv n p = (length (sp_slots p) = n \<and> distinct (sp_waiting p @ sp_running p) \<and>
     (\<forall>i \<in> set (sp_waiting p @ sp_running p). i < n \<and> sp_slots p ! i = None) \<and>
     (sp_error p = None \<longrightarrow> \<not> sp_stop p \<and>
        (\<forall>i < n. sp_slots p ! i = None \<longrightarrow> i \<in> set (sp_waiting p @ sp_running p))))"

definition delivered :: "(bool \<times> submit_event) list \<Rightarrow> task_id set" where
  "delivered evs = {tid. \<exists>f i. (f, Ev_Task i tid) \<in> set evs}"

lemma pool_inv_start: "pool_inv n (pool_start n)"
  by (simp add: pool_inv_def pool_start_def)

lemma set_slot_ids: "set (slot_ids p) = {t. Some t \<in> set (sp_slots p)}"
  by (force simp: slot_ids_def List.map_filter_def)

lemma set_fill_slot:
  assumes "i < length xs" "xs ! i = None"
  shows "{t. Some t \<in> set (xs[i := Some x])} = insert x {t. Some t \<in> set xs}"
proof -
  have "Some t \<in> set (xs[i := Some x]) \<longleftrightarrow> t = x \<or> Some t \<in> set xs" for t
  proof
    assume "Some t \<in> set (xs[i := Some x])"
    then show "t = x \<or> Some t \<in> set xs" using set_update_subset_insert [of xs i "Some x"] by auto
  next
    assume "t = x \<or> Some t \<in> set xs"
    then consider "t = x" | k where "k < length xs" "xs ! k = Some t" by (auto simp: in_set_conv_nth)
    then show "Some t \<in> set (xs[i := Some x])"
    proof cases
      case (2 k)
      then have "xs[i := Some x] ! k = Some t" using 2 assms(2) by (cases "i = k") auto
      then show ?thesis using 2(1) by (metis length_list_update nth_mem)
    qed (use assms(1) in \<open>auto simp: set_update_memI\<close>)
  qed
  then show ?thesis by auto
qed

lemma submit_step_inv:
  assumes "submit_step free ev p = Some q" "pool_inv n p"
  shows "pool_inv n q"
proof (cases ev)
  case Ev_Enter
  then show ?thesis using assms by (auto simp: pool_inv_def split: list.splits if_splits)
next
  case (Ev_Task i tid)
  then have i: "i \<in> set (sp_running p)" and q: "q = p\<lparr>sp_slots := (sp_slots p)[i := Some tid],
      sp_running := removeAll i (sp_running p)\<rparr>"
    using assms(1) by (auto split: if_splits)
  have ni: "i \<notin> set (sp_waiting p)" using assms(2) i by (auto simp: pool_inv_def)
  show ?thesis using assms(2) i ni unfolding q
    by (auto simp: pool_inv_def nth_list_update distinct_removeAll)
next
  case (Ev_Fail i e)
  then obtain x where q: "q = p\<lparr>sp_running := removeAll i (sp_running p), sp_error := Some x\<rparr>"
    using assms(1) by (auto split: if_splits option.splits)
  show ?thesis using assms(2) unfolding q pool_inv_def by (simp add: distinct_removeAll) blast
next
  case Ev_Stop
  then have e: "sp_error p \<noteq> None" and q: "q = p\<lparr>sp_stop := True\<rparr>"
    using assms(1) by (metis submit_step.simps(4) option.distinct(1) option.inject)+
  show ?thesis using assms(2) e unfolding q pool_inv_def by simp
next
  case Ev_Cancel
  then have q: "q = p\<lparr>sp_waiting := [], sp_running := [], sp_stop := True, sp_error := Some CancelledError\<rparr>"
    using assms(1) by (simp split: if_splits)
  show ?thesis using assms(2) unfolding q pool_inv_def by simp
qed

lemma submit_step_ids:
  assumes "submit_step free ev p = Some q" "pool_inv n p"
  shows "set (slot_ids q) = set (slot_ids p) \<union> {tid. \<exists>i. ev = Ev_Task i tid}"
proof (cases ev)
  case (Ev_Task i tid)
  then have i: "i \<in> set (sp_running p)" and q: "q = p\<lparr>sp_slots := (sp_slots p)[i := Some tid],
      sp_running := removeAll i (sp_running p)\<rparr>"
    using assms(1) by (auto split: if_splits)
  then have "i < length (sp_slots p)" "sp_slots p ! i = None" using assms(2) by (auto simp: pool_inv_def)
  from set_fill_slot [OF this, of tid] show ?thesis using Ev_Task by (auto simp: set_slot_ids q)
qed (use assms in \<open>auto simp: set_slot_ids split: if_splits list.splits option.splits\<close>)

lemma submit_run_inv:
  assumes "submit_run evs p = Some q" "pool_inv n p"
  shows "pool_inv n q \<and> set (slot_ids q) = set (slot_ids p) \<union> delivered evs"
  using assms
proof (induction evs arbitrary: p)
  case (Cons ev evs)
  obtain free e where ev: "ev = (free, e)" by (cases ev)
  from Cons.prems(1) obtain r where r: "submit_step free e p = Some r" "submit_run evs r = Some q"
    by (auto simp: ev split: option.splits)
  have "pool_inv n r" by (rule submit_step_inv [OF r(1) Cons.prems(2)])
  moreover have "delivered (ev # evs) = {tid. \<exists>i. e = Ev_Task i tid} \<union> delivered evs"
    by (auto simp: delivered_def ev)
  ultimately show ?case using Cons.IH [OF r(2)] submit_step_ids [OF r(1) Cons.prems(2)] by auto
qed (simp add: delivered_def)

lemma slot_plan_full:
  assumes "length (sp_slots p) = length plan" "\<forall>i < length plan. sp_slots p ! i \<noteq> None"
  shows "slot_plan plan p = plan" "length (slot_ids p) = length plan"
proof -
  have "filter (\<lambda>(e, t). t \<noteq> None) (zip plan (sp_slots p)) = zip plan (sp_slots p)"
    using assms by (intro filter_True) (auto simp: set_zip)
  then show "slot_plan plan p = plan" using assms(1) by (simp add: slot_plan_def)
  have "filter (\<lambda>x. x \<noteq> None) (sp_slots p) = sp_slots p"
    using assms by (intro filter_True) (auto simp: in_set_conv_nth)
  then show "length (slot_ids p) = length plan" using assms(1) by (simp add: slot_ids_def List.map_filter_def)
qed

lemma pool_done_full:
  assumes "pool_inv (length plan) p" "pool_done p" "sp_error p = None"
  shows "slot_plan plan p = plan" "length (slot_ids p) = length plan"
proof -
  have "length (sp_slots p) = length plan" "\<forall>i < length plan. sp_slots p ! i \<noteq> None"
    using assms by (auto simp: pool_inv_def pool_done_def)
  then show "slot_plan plan p = plan" "length (slot_ids p) = length plan" by (rule slot_plan_full)+
qed

section \<open>The process-wide submission limit\<close>

lemma submit_step_running:
  assumes "submit_step free ev p = Some q"
  shows "length (sp_running q) \<le> length (sp_running p) + (if free then 1 else 0)"
proof (cases ev)
  case (Ev_Task i tid)
  then show ?thesis using assms by (auto simp: length_removeAll_less_eq split: if_splits intro: le_SucI)
next
  case (Ev_Fail i e)
  then show ?thesis using assms by (auto simp: length_removeAll_less_eq split: if_splits intro: le_SucI)
qed (use assms in \<open>auto split: if_splits list.splits\<close>)

lemma in_flight_update:
  "j < length pools \<Longrightarrow> in_flight (pools[j := q]) + length (sp_running (pools ! j)) = in_flight pools + length (sp_running q)"
proof (induction pools arbitrary: j)
  case (Cons a pools)
  then show ?case by (cases j) (auto simp: in_flight_def)
qed simp

lemma gate_step_limit:
  assumes "gate_step limit ev pools = Some pools'" "in_flight pools \<le> limit"
  shows "in_flight pools' \<le> limit"
proof (cases ev)
  case (Gate_New n)
  then show ?thesis using assms by (auto simp: in_flight_def pool_start_def)
next
  case (Gate_Ev j e)
  then obtain q where j: "j < length pools" and q: "submit_step (in_flight pools < limit) e (pools ! j) = Some q"
    "pools' = pools[j := q]" using assms(1) by (auto split: if_splits option.splits)
  from submit_step_running [OF q(1)] in_flight_update [OF j, of q] assms(2) show ?thesis
    unfolding q(2) by (auto split: if_splits)
qed

lemma gate_run_limit:
  "gate_run limit evs pools = Some pools' \<Longrightarrow> in_flight pools \<le> limit \<Longrightarrow> in_flight pools' \<le> limit"
  by (induction evs arbitrary: pools) (auto dest: gate_step_limit split: option.splits)

end
