(* ===== verification/Keys_Laws.thy ===== *)
theory Keys_Laws
  imports Keys
begin

text \<open>
  What the key computation guarantees: the rank is read back from every printed key, keys of
  different blocks or ranks are different texts, the block-hash chain of an extended prompt extends
  the chain of the prompt, and a plan keeps the order of the keys and sends each to the segment of
  its own rank.
\<close>

section \<open>Reading the rank back\<close>

lemma rank_here_other: "c \<noteq> CHR ''@'' \<Longrightarrow> rank_here (c # s) = None"
  by (simp add: rank_here_def strip_head_def)

lemma rank_here_at: "c \<noteq> CHR ''h'' \<Longrightarrow> rank_here (CHR ''@'' # c # s) = None"
  by (simp add: rank_here_def strip_head_def)

lemma rank_search_skip: "CHR ''@'' \<notin> set a \<Longrightarrow> rank_search (a @ b) = rank_search b"
  by (induction a) (auto simp: rank_here_other)

lemma rank_search_at: "c \<noteq> CHR ''h'' \<Longrightarrow> rank_search (CHR ''@'' # c # s) = rank_search (c # s)"
  by (simp add: rank_here_at)

lemma show_int_no_at: "CHR ''@'' \<notin> set (show_int i)"
  using show_int_chars digit_char_props(6) by fastforce

lemma takeWhile_digits:
  "takeWhile is_digit (show_nat n @ CHR ''@'' # s) = show_nat n"
  "dropWhile is_digit (show_nat n @ CHR ''@'' # s) = CHR ''@'' # s"
proof -
  have d: "\<forall>c \<in> set (show_nat n). is_digit c" using show_nat_digits by (fastforce simp: is_digit_def)
  moreover have "\<not> is_digit (CHR ''@'')" by (simp add: is_digit_def digit_val_def)
  ultimately show "takeWhile is_digit (show_nat n @ CHR ''@'' # s) = show_nat n"
    "dropWhile is_digit (show_nat n @ CHR ''@'' # s) = CHR ''@'' # s" by auto
qed

lemma rank_search_hit:
  assumes "0 \<le> r"
  shows "rank_search (''@head_or_tp_rank:'' @ show_int r @ CHR ''@'' # s) = Some r"
proof -
  have s: "show_int r = show_nat (nat r)" using assms by (simp add: show_int_def)
  have "rank_here (''@head_or_tp_rank:'' @ show_int r @ CHR ''@'' # s) = Some r"
    unfolding rank_here_def strip_head_append s
    using assms by (simp add: takeWhile_digits read_show_nat)
  then show ?thesis by simp
qed

definition rank_key :: "string \<Rightarrow> int \<Rightarrow> int \<Rightarrow> int \<Rightarrow> string \<Rightarrow> string" where
  "rank_key model pcp dcp r rest = model @ ''@pcp:'' @ show_int pcp @ ''@dcp:'' @ show_int dcp
     @ ''@head_or_tp_rank:'' @ show_int r @ CHR ''@'' # rest"

lemma rank_search_key:
  assumes "CHR ''@'' \<notin> set model" "0 \<le> r"
  shows "rank_search (rank_key model pcp dcp r rest) = Some r"
proof -
  let ?t = "''@head_or_tp_rank:'' @ show_int r @ CHR ''@'' # rest"
  have "rank_search (rank_key model pcp dcp r rest) =
      rank_search (''@pcp:'' @ show_int pcp @ ''@dcp:'' @ show_int dcp @ ?t)"
    unfolding rank_key_def by (rule rank_search_skip [OF assms(1)])
  also have "\<dots> = rank_search ((''pcp:'' @ show_int pcp) @ ''@dcp:'' @ show_int dcp @ ?t)"
    by (simp add: rank_here_at del: rank_search.simps add: rank_search_at)
  also have "\<dots> = rank_search (''@dcp:'' @ show_int dcp @ ?t)"
    by (rule rank_search_skip) (simp add: show_int_no_at)
  also have "\<dots> = rank_search ((''dcp:'' @ show_int dcp) @ ?t)"
    by (simp del: rank_search.simps add: rank_search_at)
  also have "\<dots> = rank_search ?t" by (rule rank_search_skip) (simp add: show_int_no_at)
  also have "\<dots> = Some r" by (rule rank_search_hit [OF assms(2)])
  finally show ?thesis .
qed

lemma key_to_string_rank_key:
  "\<exists>rest. key_to_string k =
     rank_key (ks_model_name k) (ks_pcp_rank k) (ks_dcp_rank k) (ks_head_or_tp_rank k) rest"
  by (cases "ks_layer_id k") (simp_all add: key_to_string_def rank_key_def)

lemma parse_key_rank_string:
  assumes "CHR ''@'' \<notin> set (ks_model_name k)" "0 \<le> ks_head_or_tp_rank k"
  shows "parse_key_rank (key_to_string k) = Inr (ks_head_or_tp_rank k)"
proof -
  obtain rest where "key_to_string k =
      rank_key (ks_model_name k) (ks_pcp_rank k) (ks_dcp_rank k) (ks_head_or_tp_rank k) rest"
    using key_to_string_rank_key by blast
  then show ?thesis using rank_search_key [OF assms] by (simp add: parse_key_rank_def)
qed

section \<open>Different specifications, different keys\<close>

lemma append_sep_inj:
  assumes "c \<notin> set a" "c \<notin> set b" "a @ c # s = b @ c # t"
  shows "a = b \<and> s = t"
  using assms by (induction a arbitrary: b) (auto simp: Cons_eq_append_conv append_eq_Cons_conv)

lemma field_inj: "show_int i @ CHR ''@'' # s = show_int j @ CHR ''@'' # t \<Longrightarrow> i = j \<and> s = t"
  using append_sep_inj [OF show_int_no_at show_int_no_at] by auto

lemma key_to_string_inj:
  assumes eq: "key_to_string (base_spec m g f h pcp dcp r pp) = key_to_string (base_spec m g f h' pcp' dcp' r' pp')"
  shows "h = h' \<and> pcp = pcp' \<and> dcp = dcp' \<and> r = r' \<and> pp = pp'"
proof -
  from eq have 1: "show_int pcp @ CHR ''@'' # ''dcp:'' @ show_int dcp @ CHR ''@'' # ''head_or_tp_rank:''
       @ show_int r @ CHR ''@'' # ''pp_rank:'' @ show_int pp @ CHR ''@'' # ''group:'' @ show_int g
       @ ''@cache_role:kv@cache_family:'' @ f @ ''@'' @ h =
     show_int pcp' @ CHR ''@'' # ''dcp:'' @ show_int dcp' @ CHR ''@'' # ''head_or_tp_rank:''
       @ show_int r' @ CHR ''@'' # ''pp_rank:'' @ show_int pp' @ CHR ''@'' # ''group:'' @ show_int g
       @ ''@cache_role:kv@cache_family:'' @ f @ ''@'' @ h'"
    by (simp add: key_to_string_def base_spec_def)
  note a = field_inj [OF 1]
  from a have 2: "show_int dcp @ CHR ''@'' # ''head_or_tp_rank:'' @ show_int r @ CHR ''@'' # ''pp_rank:''
       @ show_int pp @ CHR ''@'' # ''group:'' @ show_int g @ ''@cache_role:kv@cache_family:'' @ f @ ''@'' @ h =
     show_int dcp' @ CHR ''@'' # ''head_or_tp_rank:'' @ show_int r' @ CHR ''@'' # ''pp_rank:''
       @ show_int pp' @ CHR ''@'' # ''group:'' @ show_int g @ ''@cache_role:kv@cache_family:'' @ f @ ''@'' @ h'"
    by simp
  note b = field_inj [OF 2]
  from b have 3: "show_int r @ CHR ''@'' # ''pp_rank:'' @ show_int pp @ CHR ''@'' # ''group:'' @ show_int g
       @ ''@cache_role:kv@cache_family:'' @ f @ ''@'' @ h =
     show_int r' @ CHR ''@'' # ''pp_rank:'' @ show_int pp' @ CHR ''@'' # ''group:'' @ show_int g
       @ ''@cache_role:kv@cache_family:'' @ f @ ''@'' @ h'" by simp
  note c = field_inj [OF 3]
  from c have 4: "show_int pp @ CHR ''@'' # ''group:'' @ show_int g @ ''@cache_role:kv@cache_family:'' @ f @ ''@'' @ h =
     show_int pp' @ CHR ''@'' # ''group:'' @ show_int g @ ''@cache_role:kv@cache_family:'' @ f @ ''@'' @ h'"
    by simp
  from field_inj [OF 4] a b c show ?thesis by simp
qed

section \<open>The expansion as a product of ranks\<close>

lemma concat_map_product:
  "concat (map (\<lambda>x. map (f x) ys) xs) = map (\<lambda>(x, y). f x y) (List.product xs ys)"
  by (induction xs) auto

lemma length_py_range [simp]: "length (py_range n) = nat n"
  by (simp add: py_range_def)

lemma set_py_range [simp]: "set (py_range n) = {0..<n}"
  by (auto simp: py_range_def)

lemma distinct_py_range [simp]: "distinct (py_range n)"
  by (simp add: py_range_def)

definition rank_product :: "string list \<Rightarrow> int \<Rightarrow> int \<Rightarrow> int \<Rightarrow> int \<Rightarrow> (string \<times> int \<times> int \<times> int \<times> int) list" where
  "rank_product hashes pcp dcp heads pp = List.product hashes (List.product (py_range pcp)
     (List.product (py_range dcp) (List.product (py_range heads) (py_range pp))))"

definition spec_at :: "string \<Rightarrow> int \<Rightarrow> string \<Rightarrow> string \<times> int \<times> int \<times> int \<times> int \<Rightarrow> key_spec" where
  "spec_at model gid family = (\<lambda>(h, pcp, dcp, r, pp). base_spec model gid family h pcp dcp r pp)"

lemma expand_mirror:
  assumes "v_pool_key v = None \<or> \<not> up"
  shows "expand_store_keys v model hashes tp step pcp dcp pp False layers gid family up =
    Inr (map (key_to_string \<circ> spec_at model gid family)
      (rank_product hashes pcp dcp (head_or_tp_ranks tp step) pp))"
proof -
  have k: "keys_of_spec v up False layers sp = [key_to_string sp]" for sp
    using assms by (auto simp: keys_of_spec_def)
  show ?thesis
    by (simp add: expand_store_keys_def k concat_map_product rank_product_def spec_at_def split_def o_def)
qed

lemma distinct_rank_product: "distinct hashes \<Longrightarrow> distinct (rank_product hashes pcp dcp heads pp)"
  by (simp add: rank_product_def distinct_product)

lemma inj_spec_at: "inj (key_to_string \<circ> spec_at model gid family)"
proof (rule injI)
  fix x y assume eq: "(key_to_string \<circ> spec_at model gid family) x = (key_to_string \<circ> spec_at model gid family) y"
  obtain h pcp dcp r pp where x: "x = (h, pcp, dcp, r, pp)" by (cases x) auto
  obtain h' pcp' dcp' r' pp' where y: "y = (h', pcp', dcp', r', pp')" by (cases y) auto
  from eq show "x = y" unfolding x y spec_at_def by (auto dest!: key_to_string_inj)
qed

lemma parse_spec_at:
  assumes "CHR ''@'' \<notin> set model" "x \<in> set (rank_product hashes pcp dcp heads pp)"
  shows "parse_key_rank (key_to_string (spec_at model gid family x)) = Inr (fst (snd (snd (snd x))))"
    and "fst (snd (snd (snd x))) \<in> {0..<heads}"
proof -
  obtain h a b r c where x: "x = (h, a, b, r, c)" by (cases x) auto
  then have r: "r \<in> {0..<heads}" using assms(2) by (auto simp: rank_product_def)
  then show "fst (snd (snd (snd x))) \<in> {0..<heads}" by (simp add: x)
  show "parse_key_rank (key_to_string (spec_at model gid family x)) = Inr (fst (snd (snd (snd x))))"
    using parse_key_rank_string [of "spec_at model gid family x"] assms(1) r
    by (simp add: x spec_at_def base_spec_def)
qed

section \<open>The chain of a prefix\<close>

lemma length_hash_blocks [simp]: "length (hash_blocks hb bs p n ts) = n"
  by (induction hb bs p n ts rule: hash_blocks.induct) (auto simp: Let_def)


lemma hash_blocks_take: "n * bs \<le> k \<Longrightarrow> hash_blocks hb bs p n (take k ts) = hash_blocks hb bs p n ts"
proof (induction n arbitrary: p ts k)
  case (Suc n)
  then have "n * bs \<le> k - bs" "bs \<le> k" by auto
  then show ?case using Suc.IH [of "k - bs" _ "drop bs ts"]
    by (simp add: Let_def drop_take min_def)
qed simp


lemma chain_Inr:
  assumes "v_hash_seed v = Some ''0''" "0 < bs"
  shows "hash_token_block_chain v ts (int bs) = Inr
    \<lparr>bc_block_hashes = hash_blocks (v_hash_block v) bs None (length ts div bs) ts,
     bc_parent_block_hash = None, bc_token_ids = take (length ts div bs * bs) ts, bc_block_size = int bs\<rparr>"
proof -
  have n: "py_len ts div int bs * int bs = int (length ts div bs * bs)" by (simp add: zdiv_int)
  have "nat (int (length ts div bs * bs) div int bs) = length ts div bs"
    using assms(2) by (simp add: nat_div_distrib)
  then show ?thesis using assms
    by (simp add: hash_token_block_chain_def Let_def n hash_blocks_take del: of_nat_mult)
qed





section \<open>Plans\<close>

lemma parse_key_rank_nonneg: "parse_key_rank k = Inr r \<Longrightarrow> 0 \<le> r"
proof -
  have "rank_search s = Some r \<Longrightarrow> 0 \<le> r" for s
    by (induction s) (auto simp: rank_here_def Let_def split: option.splits if_splits)
  then show "parse_key_rank k = Inr r \<Longrightarrow> 0 \<le> r"
    by (auto simp: parse_key_rank_def split: option.splits)
qed

lemma map_res_parse:
  assumes "map_res f xs = Inr ys"
  shows "length ys = length xs" "i < length xs \<Longrightarrow> f (xs ! i) = Inr (ys ! i)"
proof -
  show "length ys = length xs" by (rule map_res_Inr_length [OF assms])
  show "i < length xs \<Longrightarrow> f (xs ! i) = Inr (ys ! i)"
    using assms by (induction xs arbitrary: ys i) (auto simp: bind_res_Inr_iff nth_Cons split: nat.splits)
qed

definition plan_ok :: "string list \<Rightarrow> string list \<Rightarrow> int \<Rightarrow> (string \<times> string) list \<Rightarrow> bool" where
  "plan_ok keys targets n_sub plan = (map fst plan = keys \<and>
     (\<forall>(k, seg) \<in> set plan. (case parse_key_rank k of Inl e \<Rightarrow> False
       | Inr r \<Rightarrow> 0 \<le> r \<and> r < n_sub * py_len targets \<and> seg = targets ! nat (r div n_sub))))"

lemma plan_okI:
  assumes "map_res parse_key_rank keys = Inr ranks"
    and "\<And>r. r \<in> set ranks \<Longrightarrow> r < n_sub * py_len targets \<and> ts ! nat r = targets ! nat (r div n_sub)"
  shows "plan_ok keys targets n_sub (map2 (\<lambda>k r. (k, ts ! nat r)) keys ranks)"
proof -
  note m = map_res_parse [OF assms(1)]
  have "map fst (map2 (\<lambda>k r. (k, ts ! nat r)) keys ranks) = keys"
    using m(1) by (simp add: split_def o_def)
  moreover have "case parse_key_rank k of Inl e \<Rightarrow> False
       | Inr r \<Rightarrow> 0 \<le> r \<and> r < n_sub * py_len targets \<and> seg = targets ! nat (r div n_sub)"
    if mem: "(k, seg) \<in> set (map2 (\<lambda>k r. (k, ts ! nat r)) keys ranks)" for k seg
  proof -
    from mem obtain i where i: "i < length keys" "k = keys ! i" "seg = ts ! nat (ranks ! i)"
      using m(1) by (auto simp: set_zip)
    moreover have "ranks ! i \<in> set ranks" using i(1) m(1) by simp
    ultimately show ?thesis using m(2) [OF i(1)] assms(2) [of "ranks ! i"] parse_key_rank_nonneg by auto
  qed
  ultimately show ?thesis unfolding plan_ok_def by blast
qed

lemma spread_targets_ok:
  assumes "spread_targets kc m targets = Inr ts"
  shows "\<exists>n_sub \<ge> 1. n_sub * py_len targets = m + 1 \<and> py_len ts = m + 1 \<and>
    (\<forall>r. 0 \<le> r \<and> r \<le> m \<longrightarrow> ts ! nat r = targets ! nat (r div n_sub))"
proof -
  define local where "local = kc_tp_size kc"
  define eff where "eff = max local (peer_or_0 kc)"
  define n_sub where "n_sub = eff div local"
  from assms have c: "local > 0" "peer_or_0 kc > local" "eff mod local = 0" "py_len targets = local" "m = eff - 1"
    and ts: "ts = map (\<lambda>i. targets ! nat (i div n_sub)) (py_range eff)"
    by (auto simp: spread_targets_def local_def eff_def n_sub_def Let_def split: if_splits)
  have eff: "eff > local" using c(2) by (simp add: eff_def)
  have "n_sub * local = eff" using c(3) by (simp add: n_sub_def mult.commute) (metis mult_div_mod_eq add.right_neutral)
  moreover have "n_sub \<ge> 1"
  proof (rule ccontr)
    assume "\<not> 1 \<le> n_sub"
    then have "n_sub * local \<le> 0" using c(1) by (simp add: mult_nonpos_nonneg)
    then show False using \<open>n_sub * local = eff\<close> eff c(1) by simp
  qed
  moreover have "py_len ts = eff" using eff c(1) by (simp add: ts)
  moreover have "ts ! nat r = targets ! nat (r div n_sub)" if "0 \<le> r" "r \<le> m" for r
    using that c(5) by (simp add: ts py_range_def)
  ultimately show ?thesis using c(4,5) by (intro exI [of _ n_sub]) auto
qed

lemma build_plan_ok:
  assumes "build_plan kc keys targets = Inr plan"
  shows "\<exists>n_sub \<ge> 1. plan_ok keys targets n_sub plan \<and>
    (\<forall>ranks. map_res parse_key_rank keys = Inr ranks \<longrightarrow> ranks \<noteq> [] \<longrightarrow>
      n_sub * py_len targets = Max (set ranks) + 1)"
proof -
  from assms obtain ranks where r: "map_res parse_key_rank keys = Inr ranks"
    by (auto simp: build_plan_def bind_res_Inr_iff)
  define m where "m = Max (set ranks)"
  have le: "q \<le> m" if "q \<in> set ranks" for q using that by (simp add: m_def)
  have pos: "0 \<le> q" if "q \<in> set ranks" for q
    using that map_res_parse [OF r] parse_key_rank_nonneg by (metis in_set_conv_nth)
  consider (empty) "ranks = []" | (single) "ranks \<noteq> []" "m \<le> 0" | (many) "ranks \<noteq> []" "m > 0" by force
  then show ?thesis
  proof cases
    case empty
    then have "keys = []" "plan = []" using assms r map_res_Inr_length [OF r] by (auto simp: build_plan_def)
    then show ?thesis using r empty by (intro exI [of _ 1]) (simp add: plan_ok_def)
  next
    case single
    then have len: "length targets = 1" and p: "plan = map (\<lambda>k. (k, targets ! 0)) keys"
      using assms by (auto simp: build_plan_def r m_def Let_def split: if_splits)
    have z: "q = 0" if "q \<in> set ranks" for q using le [OF that] pos [OF that] single(2) by simp
    have zi: "ranks ! i = 0" if "i < length keys" for i
      using z [of "ranks ! i"] that map_res_Inr_length [OF r] by simp
    have m0: "m = 0" using z single(1) Max_in [of "set ranks"] by (auto simp: m_def)
    have "plan = map2 (\<lambda>k r. (k, targets ! nat r)) keys ranks"
      using zi map_res_Inr_length [OF r] by (intro nth_equalityI) (simp_all add: p)
    moreover have "q < 1 * py_len targets \<and> targets ! nat q = targets ! nat (q div 1)" if "q \<in> set ranks" for q
      using z [OF that] len by simp
    ultimately have "plan_ok keys targets 1 plan" using plan_okI [OF r, of 1 targets targets] by blast
    then show ?thesis using r len m0 by (intro exI [of _ 1]) (simp add: m_def)
  next
    case many
    from assms obtain ts where
      ts: "(if m \<ge> py_len targets then spread_targets kc m targets else Inr targets) = Inr ts"
      and le_ts: "py_len ts \<le> m + 1" and p: "plan = map2 (\<lambda>k r. (k, ts ! nat r)) keys ranks"
      using many by (auto simp: build_plan_def r m_def [symmetric] Let_def bind_res_Inr_iff split: if_splits)
    obtain n_sub where n: "n_sub \<ge> 1" "n_sub * py_len targets = m + 1"
      "\<forall>q. 0 \<le> q \<and> q \<le> m \<longrightarrow> ts ! nat q = targets ! nat (q div n_sub)"
    proof (cases "m \<ge> py_len targets")
      case True
      then show ?thesis using spread_targets_ok ts that by (metis (full_types))
    next
      case False
      then show ?thesis using ts le_ts that [of 1] by simp
    qed
    have "plan_ok keys targets n_sub plan"
      unfolding p using plan_okI [OF r, of n_sub targets ts] n le pos by force
    then show ?thesis using n r by (intro exI [of _ n_sub]) (simp add: m_def)
  qed
qed

lemma expand_keys_mirror:
  assumes "v_pool_key v = None"
  shows "expand_keys v kc hashes = Inr (map (key_to_string \<circ> spec_at (kc_model_name kc) 0 ''default'')
    (rank_product hashes 1 1 (head_or_tp_ranks (effective_tp kc) (kc_put_step kc)) 1))"
  using assms by (simp add: expand_keys_def expand_mirror)

lemma head_or_tp_ranks_pos: "1 \<le> head_or_tp_ranks tp step"
  by (simp add: head_or_tp_ranks_def)

lemma build_plan_full:
  assumes "CHR ''@'' \<notin> set model" "hashes \<noteq> []" "length targets = nat heads" "1 \<le> heads"
  shows "is_ok (build_plan kc
    (map (key_to_string \<circ> spec_at model g f) (rank_product hashes 1 1 heads 1)) targets)"
proof -
  let ?P = "rank_product hashes 1 1 heads 1"
  let ?keys = "map (key_to_string \<circ> spec_at model g f) ?P"
  let ?rank = "\<lambda>x. fst (snd (snd (snd x)))"
  have r: "map_res parse_key_rank ?keys = Inr (map ?rank ?P)"
  proof -
    have "map_res parse_key_rank (map key xs) = Inr (map ?rank xs)"
      if "\<forall>x \<in> set xs. parse_key_rank (key x) = Inr (?rank x)" for key xs
      using that by (induction xs) auto
    from this [of ?P "key_to_string \<circ> spec_at model g f"] show ?thesis
      using parse_spec_at(1) [OF assms(1), of _ hashes 1 1 heads 1 g f] by simp
  qed
  have set: "set (map ?rank ?P) = {0..<heads}"
  proof (intro equalityI subsetI)
    fix q assume q: "q \<in> {0..<heads}"
    obtain h where "h \<in> set hashes" using assms(2) by (cases hashes) auto
    then have "(h, 0, 0, q, 0) \<in> set ?P" using q by (simp add: rank_product_def)
    then show "q \<in> set (map ?rank ?P)" by force
  qed (auto simp: rank_product_def)
  have "0 \<in> set (map ?rank ?P)" unfolding set using assms(4) by simp
  then have ne: "map ?rank ?P \<noteq> []" by auto
  have max: "Max (set (map ?rank ?P)) = heads - 1"
    unfolding set using assms(4) by (intro Max_eqI) auto
  show ?thesis
  proof (cases "heads = 1")
    case True
    then show ?thesis unfolding build_plan_def r bind_res.simps Let_def max
      using assms(3) ne by simp
  next
    case False
    then have "heads - 1 > 0" "\<not> heads - 1 \<ge> py_len targets" "py_len targets = heads" using assms(3,4) by auto
    moreover have "\<not> (\<exists>q \<in> set (map ?rank ?P). q < 0 \<or> q \<ge> py_len targets)"
      unfolding set using calculation(3) by auto
    ultimately show ?thesis unfolding build_plan_def r bind_res.simps Let_def max
      using ne by (simp del: set_map)
  qed
qed

section \<open>Properties\<close>



text \<open>Outside the vllm-ascend container the expansion of distinct block hashes yields one key per
  block and rank combination, all different, and the rank read from each key is below the number of
  key-value head ranks, which is at least one.\<close>

theorem expand_store_keys_distinct:
  assumes "v_pool_key v = None" and "CHR ''@'' \<notin> set model" and "distinct hashes"
  shows "\<exists>keys. expand_store_keys v model hashes tp step pcp dcp pp False layers gid family up = Inr keys \<and>
    distinct keys \<and>
    length keys = length hashes * nat pcp * nat dcp * nat (head_or_tp_ranks tp step) * nat pp \<and>
    (\<forall>k \<in> set keys. \<exists>r. parse_key_rank k = Inr r \<and> 0 \<le> r \<and> r < head_or_tp_ranks tp step)"
proof -
  let ?P = "rank_product hashes pcp dcp (head_or_tp_ranks tp step) pp"
  let ?keys = "map (key_to_string \<circ> spec_at model gid family) ?P"
  have "expand_store_keys v model hashes tp step pcp dcp pp False layers gid family up = Inr ?keys"
    using assms(1) by (simp add: expand_mirror)
  moreover have "distinct ?keys"
    using distinct_rank_product [OF assms(3)] inj_spec_at
    by (simp add: distinct_map inj_on_subset [OF _ subset_UNIV])
  moreover have "length ?keys = length hashes * nat pcp * nat dcp * nat (head_or_tp_ranks tp step) * nat pp"
    by (simp add: rank_product_def)
  moreover have "\<forall>k \<in> set ?keys. \<exists>r. parse_key_rank k = Inr r \<and> 0 \<le> r \<and> r < head_or_tp_ranks tp step"
    using parse_spec_at(1) [OF assms(2), of _ hashes pcp dcp "head_or_tp_ranks tp step" pp gid family]
      parse_spec_at(2) [OF assms(2), of _ hashes pcp dcp "head_or_tp_ranks tp step" pp] by fastforce
  ultimately show ?thesis by blast
qed

datatype demo_hash = Demo_Hash "demo_hash option" "int list"

definition demo_vllm :: "demo_hash vllm" where
  "demo_vllm = \<lparr>v_hash_block = Demo_Hash,
     v_hash_str = (\<lambda>h. case h of Demo_Hash p t \<Rightarrow> json_dumps_ints t), v_pool_key = None,
     v_hash_seed = Some ''0''\<rparr>"

theorem expand_store_keys_distinct_witness:
  "\<exists>keys. expand_store_keys demo_vllm ''m'' [''a'', ''b''] 2 1 1 1 1 False 0 0 ''default'' True = Inr keys \<and>
    distinct keys \<and> length keys = 4"
proof -
  have "head_or_tp_ranks 2 1 = 2" by (simp add: head_or_tp_ranks_def)
  with expand_store_keys_distinct [where v = demo_vllm and model = "''m''" and hashes = "[''a'', ''b'']"
      and tp = 2 and step = 1 and pcp = 1 and dcp = 1 and pp = 1 and layers = 0 and gid = 0
      and family = "''default''" and up = True]
  show ?thesis by (auto simp: demo_vllm_def)
qed


definition demo_kc :: key_computer where
  "demo_kc = \<lparr>kc_model_name = ''m'', kc_block_size = 2, kc_tp_size = 2, kc_peer_tp_size = None, kc_put_step = 1\<rparr>"



text \<open>A plan keeps every key in order and sends the key of rank \<open>r\<close> to target \<open>r div n\<close>, where \<open>n\<close> is the
  number of ranks one target serves: one unless the target side has fewer ranks, and the targets
  together always serve exactly the ranks from 0 to the highest one, so no segment is left over and
  no key lacks one. And the keys computed for a prompt of at least one block get a plan whenever the
  target has one segment per rank.\<close>

theorem build_plan_places_ranks:
  shows "(\<forall>plan. build_plan kc keys targets = Inr plan \<longrightarrow>
      (\<exists>n_sub \<ge> 1. plan_ok keys targets n_sub plan \<and>
        (\<forall>ranks. map_res parse_key_rank keys = Inr ranks \<longrightarrow> ranks \<noteq> [] \<longrightarrow>
           n_sub * py_len targets = Max (set ranks) + 1))) \<and>
    (v_pool_key v = None \<longrightarrow> v_hash_seed v = Some ''0'' \<longrightarrow> CHR ''@'' \<notin> set (kc_model_name kc) \<longrightarrow>
     0 < bs \<longrightarrow> kc_block_size kc = int bs \<longrightarrow> bs \<le> length ts \<longrightarrow>
     length targets = nat (head_or_tp_ranks (effective_tp kc) (kc_put_step kc)) \<longrightarrow>
     (\<exists>ks. keys_for_tokens v kc ts = Inr ks \<and> is_ok (build_plan kc ks targets)))"
proof (intro conjI allI impI)
  fix plan assume "build_plan kc keys targets = Inr plan"
  then show "\<exists>n_sub \<ge> 1. plan_ok keys targets n_sub plan \<and>
      (\<forall>ranks. map_res parse_key_rank keys = Inr ranks \<longrightarrow> ranks \<noteq> [] \<longrightarrow>
         n_sub * py_len targets = Max (set ranks) + 1)" by (rule build_plan_ok)
next
  assume a: "v_pool_key v = None" "v_hash_seed v = Some ''0''" "CHR ''@'' \<notin> set (kc_model_name kc)"
    "0 < bs" "kc_block_size kc = int bs" "bs \<le> length ts"
    "length targets = nat (head_or_tp_ranks (effective_tp kc) (kc_put_step kc))"
  let ?hs = "map (v_hash_str v) (hash_blocks (v_hash_block v) bs None (length ts div bs) ts)"
  have "length ts div bs \<noteq> 0" using a(4,6) by (simp add: div_eq_0_iff)
  then have "?hs \<noteq> []" by (metis length_0_conv length_hash_blocks length_map)
  from build_plan_full [OF a(3) this a(7) head_or_tp_ranks_pos]
  show "\<exists>ks. keys_for_tokens v kc ts = Inr ks \<and> is_ok (build_plan kc ks targets)"
    using chain_Inr [OF a(2,4), of ts]
    by (simp add: keys_for_tokens_def hash_token_blocks_def a(5) expand_keys_mirror [OF a(1)])
qed

theorem build_plan_places_ranks_witness:
  "\<exists>ks. keys_for_tokens demo_vllm demo_kc [1, 2, 3] = Inr ks \<and> is_ok (build_plan demo_kc ks [''s0'', ''s1''])"
  using build_plan_places_ranks [of demo_kc "[]" "[''s0'', ''s1'']" demo_vllm 2 "[1, 2, 3]"]
  by (simp add: demo_vllm_def demo_kc_def head_or_tp_ranks_def effective_tp_def peer_or_0_def)

end
