(* ===== verification/Mooncake_Tracking.thy ===== *)
theory Mooncake_Tracking
  imports Mooncake_Tasks Keys_Laws
begin

text \<open>
  The ledger mirrors the tracking dictionaries: over every run of the backend, a task row is running
  exactly when some tracked handle still waits for that task, and the tasks a handle lost to a
  concurrent replication are recorded as failed.
\<close>

section \<open>The invariant\<close>

definition watched :: "backend \<Rightarrow> task_handle \<Rightarrow> task_id set" where
  "watched s h = (case b_watch s h of None \<Rightarrow> {} | Some c \<Rightarrow> set c)"

definition live :: "backend \<Rightarrow> task_handle \<Rightarrow> task_id set" where
  "live s h = set (h_task_ids h) - watched s h"

definition tracked :: "backend \<Rightarrow> task_id set" where
  "tracked s = (\<Union>h \<in> dom (b_plans s). live s h)"

definition running_rows :: "backend \<Rightarrow> string set" where
  "running_rows s = {i. statuses s i = Some ''running''}"

definition handles_ok :: "backend \<Rightarrow> bool" where
  "handles_ok s = ((\<forall>h \<in> dom (b_plans s). h_task_ids h \<noteq> [] \<and> (\<forall>t \<in> set (h_task_ids h). is_pair t)) \<and>
     (\<forall>h \<in> dom (b_plans s). \<forall>g \<in> dom (b_plans s). h \<noteq> g \<longrightarrow> set (h_task_ids h) \<inter> set (h_task_ids g) = {}) \<and>
     (\<forall>h. b_watch s h \<noteq> None \<longrightarrow> h \<in> dom (b_plans s) \<and> watched s h \<subseteq> set (h_task_ids h)))"

definition tracking_inv :: "'h backend_env \<Rightarrow> backend \<Rightarrow> bool" where
  "tracking_inv env s = (ledger_live env s \<and> handles_ok s \<and>
     running_rows s = encode_task_id ` tracked s \<and>
     (\<forall>h. \<forall>t \<in> watched s h. statuses s (encode_task_id t) = Some ''failed''))"

lemma tracked_pairs: "handles_ok s \<Longrightarrow> t \<in> tracked s \<Longrightarrow> is_pair t"
  by (auto simp: handles_ok_def tracked_def live_def)

lemma watched_pairs:
  assumes "handles_ok s" "t \<in> watched s h"
  shows "h \<in> dom (b_plans s)" "t \<in> set (h_task_ids h)" "is_pair t"
proof -
  have w: "b_watch s h \<noteq> None" using assms(2) by (auto simp: watched_def split: option.splits)
  show d: "h \<in> dom (b_plans s)" and "t \<in> set (h_task_ids h)" using assms w unfolding handles_ok_def by blast+
  then show "is_pair t" using assms(1) unfolding handles_ok_def by blast
qed

lemma encode_image_diff:
  assumes "\<And>t. t \<in> A \<union> B \<Longrightarrow> is_pair t"
  shows "encode_task_id ` A - encode_task_id ` B = encode_task_id ` (A - B)"
  using assms encode_inj by (auto simp: image_iff)

lemma encode_mem_iff:
  assumes "is_pair t" "\<And>u. u \<in> B \<Longrightarrow> is_pair u"
  shows "encode_task_id t \<in> encode_task_id ` B \<longleftrightarrow> t \<in> B"
  using assms encode_inj by (auto simp: image_iff)

text \<open>A handle leaves: its live tasks are recorded with a terminal status.\<close>

lemma settle_inv:
  assumes inv: "tracking_inv env s" and h: "b_plans s h = Some e" and st: "st \<noteq> ''running''"
    and T: "live s h \<subseteq> T" "T \<subseteq> set (h_task_ids h)"
    and s': "ledger_live env s'" "b_plans s' = (b_plans s)(h := None)" "b_watch s' = (b_watch s)(h := None)"
      "statuses s' = (\<lambda>i. if i \<in> encode_task_id ` T then Some st else statuses s i)"
  shows "tracking_inv env s'"
proof -
  have ok: "handles_ok s" and run: "running_rows s = encode_task_id ` tracked s"
    and w: "\<And>h t. t \<in> watched s h \<Longrightarrow> statuses s (encode_task_id t) = Some ''failed''"
    using inv by (auto simp: tracking_inv_def)
  have hd: "h \<in> dom (b_plans s)" using h by auto
  have pT: "is_pair t" if "t \<in> T" for t using ok hd that T(2) unfolding handles_ok_def by blast
  have disj: "t \<notin> T" if "g \<in> dom (b_plans s)" "g \<noteq> h" "t \<in> set (h_task_ids g)" for g t
    using ok hd that T(2) unfolding handles_ok_def by blast
  have wt: "watched s' g = (if g = h then {} else watched s g)" for g by (simp add: watched_def s'(3))
  have "tracked s' = tracked s - T"
    using disj T(1) by (auto simp: tracked_def live_def wt s'(2) split: if_splits)
  moreover have "running_rows s' = running_rows s - encode_task_id ` T"
    using st by (auto simp: running_rows_def s'(4) split: if_splits)
  ultimately have "running_rows s' = encode_task_id ` tracked s'"
    unfolding run using encode_image_diff [of "tracked s" T] pT tracked_pairs [OF ok] by auto
  moreover have "handles_ok s'"
    using ok unfolding handles_ok_def s'(2,3) wt by auto
  moreover have "statuses s' (encode_task_id t) = Some ''failed''" if "t \<in> watched s' g" for g t
  proof -
    have g: "g \<noteq> h" "t \<in> watched s g" using that by (auto simp: wt split: if_splits)
    note p = watched_pairs [OF ok g(2)]
    have "encode_task_id t \<notin> encode_task_id ` T"
      using encode_mem_iff [OF p(3) pT] disj [OF p(1) g(1) p(2)] by blast
    then show ?thesis using w [OF g(2)] by (simp add: s'(4))
  qed
  ultimately show ?thesis using s'(1) by (simp add: tracking_inv_def)
qed

text \<open>A handle loses some tasks to a concurrent replication.\<close>

lemma conflict_inv:
  assumes inv: "tracking_inv env s" and h: "b_plans s h = Some e" "b_watch s h = None"
    and c: "set c \<subseteq> set (h_task_ids h)"
    and s': "ledger_live env s'" "b_plans s' = b_plans s" "b_watch s' = (b_watch s)(h \<mapsto> c)"
      "statuses s' = (\<lambda>i. if i \<in> encode_task_id ` set c then Some ''failed'' else statuses s i)"
  shows "tracking_inv env s'"
proof -
  have ok: "handles_ok s" and run: "running_rows s = encode_task_id ` tracked s"
    and w: "\<And>h t. t \<in> watched s h \<Longrightarrow> statuses s (encode_task_id t) = Some ''failed''"
    using inv by (auto simp: tracking_inv_def)
  have hd: "h \<in> dom (b_plans s)" using h by auto
  have pc: "is_pair t" if "t \<in> set c" for t using ok hd that c unfolding handles_ok_def by blast
  have disj: "t \<notin> set c" if "g \<in> dom (b_plans s)" "g \<noteq> h" "t \<in> set (h_task_ids g)" for g t
    using ok hd that c unfolding handles_ok_def by blast
  have wt: "watched s' g = (if g = h then set c else watched s g)" for g by (simp add: watched_def s'(3))
  have wh: "watched s h = {}" using h(2) by (simp add: watched_def)
  have "tracked s' = tracked s - set c"
    using disj [OF domI] wh by (auto simp: tracked_def live_def wt s'(2) split: if_splits)
  moreover have "running_rows s' = running_rows s - encode_task_id ` set c"
    by (auto simp: running_rows_def s'(4) split: if_splits)
  ultimately have "running_rows s' = encode_task_id ` tracked s'"
    unfolding run using encode_image_diff [of "tracked s" "set c"] pc tracked_pairs [OF ok] by auto
  moreover have "handles_ok s'"
    using ok hd c unfolding handles_ok_def s'(2,3) wt by auto
  moreover have "statuses s' (encode_task_id t) = Some ''failed''" if "t \<in> watched s' g" for g t
    using that w [of t g] by (auto simp: wt s'(4) split: if_splits)
  ultimately show ?thesis using s'(1) by (simp add: tracking_inv_def)
qed

text \<open>A new handle with task numbers no tracked handle has.\<close>

lemma add_inv:
  assumes inv: "tracking_inv env s" and ids: "h_task_ids h \<noteq> []" "\<And>t. t \<in> set (h_task_ids h) \<Longrightarrow> is_pair t"
    and fresh: "\<And>g t. g \<in> dom (b_plans s) \<Longrightarrow> t \<in> set (h_task_ids h) \<Longrightarrow> t \<notin> set (h_task_ids g)"
    and s': "ledger_live env s'" "b_plans s' = (b_plans s)(h \<mapsto> e)" "b_watch s' = b_watch s"
      "statuses s' = (\<lambda>i. if i \<in> encode_task_id ` set (h_task_ids h) then Some ''running'' else statuses s i)"
  shows "tracking_inv env s'"
proof -
  have ok: "handles_ok s" and run: "running_rows s = encode_task_id ` tracked s"
    and w: "\<And>h t. t \<in> watched s h \<Longrightarrow> statuses s (encode_task_id t) = Some ''failed''"
    using inv by (auto simp: tracking_inv_def)
  have new: "h \<notin> dom (b_plans s)" using fresh [of h "hd (h_task_ids h)"] ids(1) by auto
  have wt: "watched s' = watched s" by (simp add: fun_eq_iff watched_def s'(3))
  have wh: "b_watch s h = None" using ok new unfolding handles_ok_def by blast
  then have "watched s h = {}" by (simp add: watched_def)
  then have "tracked s' = tracked s \<union> set (h_task_ids h)"
    using new by (auto simp: tracked_def live_def wt s'(2))
  moreover have "running_rows s' = running_rows s \<union> encode_task_id ` set (h_task_ids h)"
    by (auto simp: running_rows_def s'(4))
  ultimately have "running_rows s' = encode_task_id ` tracked s'" unfolding run by auto
  moreover have "handles_ok s'"
  proof -
    have sym: "set (h_task_ids h) \<inter> set (h_task_ids g) = {}" if "g \<in> dom (b_plans s)" for g
      using fresh [OF that] by blast
    show ?thesis using ok ids sym unfolding handles_ok_def s'(2,3) wt by auto
  qed
  moreover have "statuses s' (encode_task_id t) = Some ''failed''" if "t \<in> watched s' g" for g t
  proof -
    have g: "t \<in> watched s g" using that by (simp add: wt)
    note p = watched_pairs [OF ok g]
    have "t \<notin> set (h_task_ids h)" using fresh [OF p(1)] p(2) by blast
    then have "encode_task_id t \<notin> encode_task_id ` set (h_task_ids h)"
      using encode_mem_iff [OF p(3) ids(2)] by blast
    then show ?thesis using w [OF g] by (simp add: s'(4))
  qed
  ultimately show ?thesis using s'(1) by (simp add: tracking_inv_def)
qed

section \<open>Every operation keeps the invariant\<close>

lemma tracking_live: "tracking_inv env s \<Longrightarrow> ledger_live env s"
  by (simp add: tracking_inv_def)

lemma statuses_terminal [simp]:
  "''ready'' \<in> task_statuses" "''failed'' \<in> task_statuses" "''abandoned'' \<in> task_statuses" "''running'' \<in> task_statuses"
  by (simp_all add: task_statuses_def)

lemma finish_handle_inv:
  assumes "tracking_inv env s" "b_plans s h = Some e" "st \<in> task_statuses" "st \<noteq> ''running''"
  shows "\<exists>s'. finish_handle env now h st s = (Inr (), s') \<and> tracking_inv env s' \<and>
    b_plans s' = (b_plans s)(h := None) \<and> b_watch s' = (b_watch s)(h := None) \<and>
    (\<forall>t \<in> set (h_task_ids h). statuses s' (encode_task_id t) = Some st)"
proof -
  from record_tasks_live [OF tracking_live [OF assms(1)] assms(2,3), of now "h_task_ids h"]
  obtain s1 where r: "record_tasks env now h st (h_task_ids h) s = (Inr (), s1)" "ledger_live env s1"
    "b_plans s1 = b_plans s" "b_watch s1 = b_watch s"
    "statuses s1 = (\<lambda>i. if i \<in> encode_task_id ` set (h_task_ids h) then Some st else statuses s i)" by blast
  have "tracking_inv env (forget h s1)"
    by (rule settle_inv [OF assms(1,2,4), of "set (h_task_ids h)"])
      (use r in \<open>auto simp: live_def forget_def\<close>)
  then show ?thesis using r by (intro exI [of _ "forget h s1"]) (simp add: finish_handle_def forget_def)
qed

lemma release_inv:
  assumes "tracking_inv env s" "b_plans s h = Some e" "st \<in> task_statuses" "st \<noteq> ''running''"
  shows "\<exists>s1. record_rest env now h st s = (Inr (), s1) \<and> tracking_inv env (untrack h s1) \<and>
    b_plans s1 = b_plans s \<and> b_watch s1 = (b_watch s)(h := None) \<and>
    (\<forall>t \<in> live s h. statuses s1 (encode_task_id t) = Some st) \<and>
    (\<forall>t \<in> watched s h. statuses s1 (encode_task_id t) = Some ''failed'')"
proof -
  let ?rest = "filter (\<lambda>t. t \<notin> watched s h) (h_task_ids h)"
  have r: "record_rest env now h st s =
      (if ?rest \<noteq> [] then record_tasks env now h st ?rest (unwatch h s) else (Inr (), unwatch h s))"
    by (simp add: record_rest_def watched_def split: option.splits)
  have l: "ledger_live env (unwatch h s)" using tracking_live [OF assms(1)] by (simp add: unwatch_def)
  have rest: "set ?rest = live s h" by (auto simp: live_def)
  have u: "statuses (unwatch h s) = statuses s" "b_plans (unwatch h s) = b_plans s"
    "b_watch (unwatch h s) = (b_watch s)(h := None)" by (simp_all add: unwatch_def)
  have "\<exists>s1. record_rest env now h st s = (Inr (), s1) \<and> ledger_live env s1 \<and> b_plans s1 = b_plans s \<and>
      b_watch s1 = (b_watch s)(h := None) \<and>
      statuses s1 = (\<lambda>i. if i \<in> encode_task_id ` live s h then Some st else statuses s i)"
  proof (cases "?rest = []")
    case True
    then have "live s h = {}" using rest by (metis empty_set)
    then show ?thesis unfolding r using True l u by (intro exI [of _ "unwatch h s"]) simp
  next
    case False
    have "b_plans (unwatch h s) h = Some e" using assms(2) u by simp
    from record_tasks_live [OF l this assms(3), of now ?rest, unfolded rest u] False
    show ?thesis unfolding r by auto
  qed
  then obtain s1 where s1: "record_rest env now h st s = (Inr (), s1)"
    "ledger_live env s1" "b_plans s1 = b_plans s" "b_watch s1 = (b_watch s)(h := None)"
    "statuses s1 = (\<lambda>i. if i \<in> encode_task_id ` live s h then Some st else statuses s i)" by blast
  have inv: "tracking_inv env (untrack h s1)"
    by (rule settle_inv [OF assms(1,2,4), of "live s h"]) (use s1 in \<open>auto simp: live_def untrack_def\<close>)
  have ok: "handles_ok s" using assms(1) by (simp add: tracking_inv_def)
  have "statuses s1 (encode_task_id t) = Some ''failed''" if "t \<in> watched s h" for t
  proof -
    have "\<And>u. u \<in> live s h \<Longrightarrow> is_pair u" using ok assms(2) by (auto simp: live_def handles_ok_def)
    then have "encode_task_id t \<notin> encode_task_id ` live s h"
      using encode_mem_iff [OF watched_pairs(3) [OF ok that], of "live s h"] that by (auto simp: live_def)
    then show ?thesis using assms(1) that by (simp add: s1(5) tracking_inv_def)
  qed
  then show ?thesis using inv s1 by (intro exI [of _ s1]) simp
qed

lemma abandon_inv:
  assumes "tracking_inv env s" "b_plans s h = Some e"
  shows "\<exists>s'. abandon env now h s = (Inr (), s') \<and> tracking_inv env s' \<and>
    b_plans s' = (b_plans s)(h := None) \<and> b_watch s' = (b_watch s)(h := None) \<and>
    (\<forall>t \<in> live s h. statuses s' (encode_task_id t) = Some ''abandoned'') \<and>
    (\<forall>t \<in> watched s h. statuses s' (encode_task_id t) = Some ''failed'')"
proof -
  from release_inv [OF assms, of "''abandoned''" now] obtain s1 where
    "record_rest env now h ''abandoned'' s = (Inr (), s1)" "tracking_inv env (untrack h s1)"
    "b_plans s1 = b_plans s" "b_watch s1 = (b_watch s)(h := None)"
    "\<forall>t \<in> live s h. statuses s1 (encode_task_id t) = Some ''abandoned''"
    "\<forall>t \<in> watched s h. statuses s1 (encode_task_id t) = Some ''failed''" by auto
  then show ?thesis using assms(2)
    by (intro exI [of _ "untrack h s1"]) (simp add: abandon_def untrack_def)
qed

lemma verify_watch_inv:
  assumes "tracking_inv env s" "b_plans s h = Some e" "verify_watch env bq now h plan s = (r, s')"
  shows "tracking_inv env s' \<and>
    (if r = Inr TS_READY then verify_missing (be_has_admin env) bq plan = Inr [] \<and>
       b_plans s' = (b_plans s)(h := None) \<and> b_watch s' = (b_watch s)(h := None) \<and>
       (\<forall>t \<in> set (h_task_ids h). statuses s' (encode_task_id t) \<in> {Some ''ready'', Some ''failed''})
     else s' = s \<and> (r = Inr TS_RUNNING \<or> \<not> is_ok r))"
proof -
  from release_inv [OF assms(1,2), of "''ready''" now] obtain s1 where
    t: "record_rest env now h ''ready'' s = (Inr (), s1)" "tracking_inv env (untrack h s1)"
    "b_plans s1 = b_plans s" "b_watch s1 = (b_watch s)(h := None)"
    "\<forall>t \<in> live s h. statuses s1 (encode_task_id t) = Some ''ready''"
    "\<forall>t \<in> watched s h. statuses s1 (encode_task_id t) = Some ''failed''" by auto
  have v: "verify_watch env bq now h plan s = (case verify_missing (be_has_admin env) bq plan of
      Inl e \<Rightarrow> (Inl e, s)
    | Inr missing \<Rightarrow> if missing \<noteq> [] then (Inr TS_RUNNING, s) else (Inr TS_READY, untrack h s1))"
    using t(1) assms(2) by (simp add: verify_watch_def split: sum.splits)
  have all: "\<forall>x \<in> set (h_task_ids h). statuses (untrack h s1) (encode_task_id x) \<in> {Some ''ready'', Some ''failed''}"
    using t(5,6) by (auto simp: live_def untrack_def)
  have p: "b_plans (untrack h s1) = (b_plans s)(h := None)" "b_watch (untrack h s1) = (b_watch s)(h := None)"
    using t(3,4) by (simp_all add: untrack_def)
  show ?thesis
  proof (cases "verify_missing (be_has_admin env) bq plan")
    case (Inr missing)
    then show ?thesis using assms(1,3) t(2) all p unfolding v by (cases "missing = []") auto
  qed (use assms(1,3) v in auto)
qed

lemma conflicts_subset: "set (map fst (filter (\<lambda>(t, r). is_conflict r) (zip ts rs))) \<subseteq> set ts"
  by (auto dest: set_zip_leftD)

text \<open>The outcome of a status query, for each of its results.\<close>

definition query_outcome ::
  "'h backend_env \<Rightarrow> (string list \<Rightarrow> kv_exn + (string, key_query) dict) \<Rightarrow> task_handle \<Rightarrow>
   (string \<times> string) list \<Rightarrow> backend \<Rightarrow> kv_exn + task_status \<Rightarrow> backend \<Rightarrow> bool" where
  "query_outcome env bq h plan s r s' =
     (if r \<in> {Inr TS_READY, Inr TS_FAILED, Inl VerifyError} then
        b_plans s' = (b_plans s)(h := None) \<and> b_watch s' = (b_watch s)(h := None) \<and>
        (\<forall>t \<in> set (h_task_ids h). statuses s' (encode_task_id t) \<in> {Some ''ready'', Some ''failed''}) \<and>
        (r = Inr TS_READY \<longrightarrow> verify_missing (be_has_admin env) bq plan = Inr [])
      else b_plans s' = b_plans s \<and> (r = Inr TS_RUNNING \<or> \<not> is_ok r))"

lemma verify_missing_not_verify_error:
  assumes "verify_missing a bq plan = Inl e" "\<forall>ks. bq ks \<noteq> Inl VerifyError"
  shows "e \<noteq> VerifyError"
  using assms(1) spec [OF assms(2), of "map fst plan"]
  by (auto simp: verify_missing_def require_admin_rows_def split: if_splits sum.splits)

lemma verify_watch_outcome:
  assumes "tracking_inv env s" "b_plans s h = Some e" "verify_watch env bq now h plan s = (r, s')"
    and "\<forall>ks. bq ks \<noteq> Inl VerifyError"
  shows "tracking_inv env s' \<and> query_outcome env bq h plan s r s'"
proof -
  note v = verify_watch_inv [OF assms(1-3)]
  have "r \<noteq> Inl VerifyError"
    using assms(2,3) verify_missing_not_verify_error [OF _ assms(4), where a = "be_has_admin env" and plan = plan]
      release_inv [OF assms(1,2), of "''ready''" now]
    by (auto simp: verify_watch_def split: sum.splits if_splits)
  then show ?thesis using v by (cases "r = Inr TS_READY") (auto simp: query_outcome_def)
qed

lemma query_apply_inv:
  assumes inv: "tracking_inv env s" and h: "b_plans s h = Some e" "b_watch s h = None"
    and q: "query_apply env bq now h plan resps s = (r, s')" and bq: "\<forall>ks. bq ks \<noteq> Inl VerifyError"
  shows "tracking_inv env s' \<and> query_outcome env bq h plan s r s'"
proof -
  define conflicted where "conflicted = map fst (filter (\<lambda>(t, r). is_conflict r) (zip (h_task_ids h) resps))"
  define failed where "failed = filter (\<lambda>r. tr_status r = SS_FAILED) resps"
  have fin: "\<exists>t. finish_handle env now h st s = (Inr (), t) \<and> tracking_inv env t \<and>
      b_plans t = (b_plans s)(h := None) \<and> b_watch t = (b_watch s)(h := None) \<and>
      (\<forall>x \<in> set (h_task_ids h). statuses t (encode_task_id x) = Some st)"
    if "st \<in> {''failed'', ''ready''}" for st
    using finish_handle_inv [OF inv h(1), of st now] that by auto
  have sub: "set conflicted \<subseteq> set (h_task_ids h)"
    unfolding conflicted_def by (rule conflicts_subset)
  note [simp] = conflicted_def [symmetric] failed_def [symmetric]
  consider (conflict) "failed \<noteq> []" "length conflicted = length failed"
    | (failed) "failed \<noteq> []" "length conflicted \<noteq> length failed"
    | (running) "failed = []" "\<exists>r \<in> set resps. tr_status r \<noteq> SS_SUCCESS"
    | (done_err) x where "failed = []" "\<not> (\<exists>r \<in> set resps. tr_status r \<noteq> SS_SUCCESS)"
        "verify_missing (be_has_admin env) bq plan = Inl x"
    | (done_missing) m where "failed = []" "\<not> (\<exists>r \<in> set resps. tr_status r \<noteq> SS_SUCCESS)"
        "verify_missing (be_has_admin env) bq plan = Inr m" "m \<noteq> []"
    | (done_ok) "failed = []" "\<not> (\<exists>r \<in> set resps. tr_status r \<noteq> SS_SUCCESS)"
        "verify_missing (be_has_admin env) bq plan = Inr []"
    by (metis sum.exhaust)
  then show ?thesis
  proof cases
    case conflict
    let ?s = "s\<lparr>b_watch := (b_watch s)(h \<mapsto> conflicted)\<rparr>"
    have "ledger_live env ?s" "b_plans ?s h = Some e" using tracking_live [OF inv] h by simp_all
    from record_tasks_live [OF this, of "''failed''" now conflicted, unfolded statuses_watch(1)] obtain s1 where
      s1: "record_tasks env now h ''failed'' conflicted ?s = (Inr (), s1)" "ledger_live env s1"
        "b_plans s1 = b_plans s" "b_watch s1 = (b_watch s)(h \<mapsto> conflicted)"
        "statuses s1 = (\<lambda>i. if i \<in> encode_task_id ` set conflicted then Some ''failed'' else statuses s i)" by auto
    have inv1: "tracking_inv env s1"
      by (rule conflict_inv [OF inv h sub s1(2-5)])
    have "verify_watch env bq now h plan s1 = (r, s')"
      using q conflict s1(1) h(1) unfolding query_apply_def Let_def by simp
    from verify_watch_outcome [OF inv1 _ this bq] s1(3,4) h(1) show ?thesis
      by (auto simp: query_outcome_def)
  next
    case failed
    then show ?thesis using q fin [of "''failed''"] unfolding query_apply_def Let_def
      by (auto simp: query_outcome_def)
  next
    case running
    then show ?thesis using q inv unfolding query_apply_def Let_def by (auto simp: query_outcome_def)
  next
    case (done_err x)
    then show ?thesis using q inv verify_missing_not_verify_error [OF done_err(3) bq]
      unfolding query_apply_def Let_def by (auto simp: query_outcome_def)
  next
    case (done_missing m)
    then show ?thesis using q fin [of "''failed''"] unfolding query_apply_def Let_def
      by (auto simp: query_outcome_def)
  next
    case done_ok
    then show ?thesis using q fin [of "''ready''"] unfolding query_apply_def Let_def
      by (auto simp: query_outcome_def)
  qed
qed

lemma query_task_inv:
  assumes "tracking_inv env s" "query_task env ask bq now h s = (r, s')"
    and "\<forall>ks. bq ks \<noteq> Inl VerifyError" and "\<forall>t. ask t \<noteq> Inl VerifyError"
  shows "tracking_inv env s' \<and>
    (case b_plans s h of None \<Rightarrow> s' = s \<and> \<not> is_ok r | Some e \<Rightarrow> query_outcome env bq h (pe_plan e) s r s')"
proof (cases "b_plans s h")
  case None
  then show ?thesis using assms(1,2) by (auto simp: query_task_def split: if_splits)
next
  case (Some e)
  have ne: "h_task_ids h \<noteq> []" using assms(1) Some by (auto simp: tracking_inv_def handles_ok_def)
  show ?thesis
  proof (cases "b_watch s h")
    case (Some c)
    then have "verify_watch env bq now h (pe_plan e) s = (r, s')"
      using assms(2) ne \<open>b_plans s h = Some e\<close> by (simp add: query_task_def)
    from verify_watch_outcome [OF assms(1) \<open>b_plans s h = Some e\<close> this assms(3)] show ?thesis
      using \<open>b_plans s h = Some e\<close> by simp
  next
    case None
    have err: "x \<noteq> VerifyError" if "map_res ask ts = Inl x" for ts x
      using that assms(4) by (induction ts) (auto split: sum.splits simp: bind_res_def)
    show ?thesis
    proof (cases "map_res ask (h_task_ids h)")
      case (Inl x)
      then show ?thesis using assms(1,2) ne None \<open>b_plans s h = Some e\<close> err [OF Inl]
        by (auto simp: query_task_def query_outcome_def split: if_splits)
    next
      case (Inr resps)
      then have "query_apply env bq now h (pe_plan e) resps s = (r, s')"
        using assms(2) ne None \<open>b_plans s h = Some e\<close> by (simp add: query_task_def)
      from query_apply_inv [OF assms(1) \<open>b_plans s h = Some e\<close> None this assms(3)] show ?thesis
        using \<open>b_plans s h = Some e\<close> by simp
    qed
  qed
qed

section \<open>Submission\<close>

definition submitted :: "op_kind \<Rightarrow> submit_pool \<Rightarrow> task_handle" where
  "submitted op pool = \<lparr>h_op = op, h_task_ids = slot_ids pool\<rparr>"

definition submit_entry :: "string \<Rightarrow> prefix \<Rightarrow> instance_id \<Rightarrow> (string \<times> string) list \<Rightarrow> submit_pool \<Rightarrow> plan_entry" where
  "submit_entry uuid p target plan pool = \<lparr>pe_prefix = p, pe_target = target,
     pe_plan = (if sp_error pool = None then plan else slot_plan plan pool), pe_handle_id = uuid\<rparr>"

lemma submit_finish_inv:
  assumes inv: "tracking_inv env s" and "slot_ids pool \<noteq> []"
    and pairs: "\<forall>t \<in> set (slot_ids pool). is_pair t"
    and fresh: "\<forall>t \<in> set (slot_ids pool). \<forall>g \<in> dom (b_plans s). t \<notin> set (h_task_ids g)"
    and f: "submit_finish env op now uuid p target plan pool s = (r, s')"
  shows "tracking_inv env s' \<and>
    b_plans s' = (b_plans s)(submitted op pool \<mapsto> submit_entry uuid p target plan pool) \<and>
    (\<forall>t \<in> set (slot_ids pool). statuses s' (encode_task_id t) = Some ''running'') \<and>
    (r = (case sp_error pool of None \<Rightarrow> Inr (submitted op pool)
      | Some e \<Rightarrow> if e = CancelledError then (if op = OP_COPY then Inr (submitted op pool) else Inl CancelledError)
          else Inl (SubmitError (Some (submitted op pool)))))"
proof -
  let ?h = "submitted op pool" and ?e = "submit_entry uuid p target plan pool"
  let ?s = "track ?h p target (pe_plan ?e) uuid s"
  have pl: "b_plans ?s = (b_plans s)(?h \<mapsto> ?e)" "b_watch ?s = b_watch s"
    by (simp_all add: track_def submit_entry_def)
  have live: "ledger_live env ?s" using tracking_live [OF inv] by simp
  have "b_plans ?s ?h = Some ?e" using pl by simp
  from record_tasks_live [OF live this, of "''running''" now "slot_ids pool", unfolded statuses_watch] obtain s1 where
    s1: "record_tasks env now ?h ''running'' (slot_ids pool) ?s = (Inr (), s1)" "ledger_live env s1"
      "b_plans s1 = (b_plans s)(?h \<mapsto> ?e)" "b_watch s1 = b_watch s"
      "statuses s1 = (\<lambda>i. if i \<in> encode_task_id ` set (slot_ids pool) then Some ''running'' else statuses s i)"
    unfolding pl by auto
  have "tracking_inv env s1"
    by (rule add_inv [OF inv _ _ _ s1(2-4)]) (use assms s1(5) in \<open>simp_all add: submitted_def\<close>)
  moreover have "s' = s1" and "r = (case sp_error pool of None \<Rightarrow> Inr ?h
      | Some e \<Rightarrow> if e = CancelledError then (if op = OP_COPY then Inr ?h else Inl CancelledError)
          else Inl (SubmitError (Some ?h)))"
    using f s1(1) assms(2)
    by (auto simp: submit_finish_def Let_def submitted_def [symmetric] submit_entry_def split: option.splits if_splits)
  ultimately show ?thesis using s1 by simp
qed

lemma submit_finish_empty:
  assumes "slot_ids pool = []" "sp_error pool = Some e"
  shows "submit_finish env op now uuid p target plan pool s =
    (Inl (if e = CancelledError then CancelledError else SubmitError None), s)"
  using assms by (simp add: submit_finish_def)

lemma build_plan_nonempty: "build_plan kc keys targets = Inr plan \<Longrightarrow> keys \<noteq> [] \<Longrightarrow> plan \<noteq> []"
  using build_plan_ok by (fastforce simp: plan_ok_def)

lemma copy_prepare_nonempty: "copy_prepare env sizes qs p target slot = (Inr plan, slot') \<Longrightarrow> plan \<noteq> []"
  by (auto simp: copy_prepare_def bind_res_Inr_iff bind_st_Inr_iff build_plan_nonempty
      split: sum.splits if_splits)

lemma move_plan_nonempty:
  assumes "move_plan env p target source = Inr (moves, plan)"
  shows "plan \<noteq> []" "length moves = length plan"
proof -
  from assms obtain keys t1 t2 sp where k: "keys \<noteq> []" "build_plan (be_keys env) keys t1 = Inr plan"
    "build_plan (be_keys env) keys t2 = Inr sp" "moves = map2 (\<lambda>(k, tgt) (k', src). (k, src, tgt)) plan sp"
    by (auto simp: move_plan_def bind_res_Inr_iff split: if_splits)
  show "plan \<noteq> []" using build_plan_nonempty k by blast
  have "length plan = length keys" "length sp = length keys"
    using build_plan_ok [OF k(2)] build_plan_ok [OF k(3)] by (auto simp: plan_ok_def dest!: arg_cong [where f = length])
  then show "length moves = length plan" by (simp add: k(4))
qed

lemma submit_inv:
  assumes inv: "tracking_inv env s" and run: "submit_run evs (pool_start (length plan)) = Some pool"
    and d: "pool_done pool" "plan \<noteq> []"
    and new: "\<forall>t \<in> delivered evs. is_pair t \<and> (\<forall>g \<in> dom (b_plans s). t \<notin> set (h_task_ids g))"
    and f: "submit_finish env op now uuid p target plan pool s = (r, s')"
  shows "tracking_inv env s' \<and> set (slot_ids pool) = delivered evs \<and>
    (if delivered evs = {} then s' = s \<and> \<not> is_ok r
     else b_plans s' = (b_plans s)(submitted op pool \<mapsto> submit_entry uuid p target plan pool) \<and>
       (\<forall>t \<in> delivered evs. statuses s' (encode_task_id t) = Some ''running'') \<and>
       (r = (case sp_error pool of None \<Rightarrow> Inr (submitted op pool)
         | Some e \<Rightarrow> if e = CancelledError then (if op = OP_COPY then Inr (submitted op pool) else Inl CancelledError)
             else Inl (SubmitError (Some (submitted op pool))))))"
proof -
  have "slot_ids (pool_start (length plan)) = []"
    by (simp add: slot_ids_def pool_start_def List.map_filter_def)
  with submit_run_inv [OF run pool_inv_start] have pi: "pool_inv (length plan) pool"
    and ids: "set (slot_ids pool) = delivered evs" by auto
  show ?thesis
  proof (cases "delivered evs = {}")
    case True
    then have e: "slot_ids pool = []" using ids by simp
    with pool_done_full(2) [OF pi d(1)] d(2) obtain x where "sp_error pool = Some x" by fastforce
    from f [unfolded submit_finish_empty [OF e this]] have "s' = s \<and> \<not> is_ok r" by auto
    then show ?thesis using True inv ids by simp
  next
    case False
    then have ne: "slot_ids pool \<noteq> []" using ids by auto
    have "\<forall>t \<in> set (slot_ids pool). is_pair t"
      "\<forall>t \<in> set (slot_ids pool). \<forall>g \<in> dom (b_plans s). t \<notin> set (h_task_ids g)"
      using new unfolding ids by auto
    from submit_finish_inv [OF inv ne this f] show ?thesis using False ids by simp
  qed
qed

lemma with_ledger_inv:
  assumes "tracking_inv env s" "with_ledger f s = (r, s')"
    and "\<And>l. ledger_ok (be_sha env) l \<Longrightarrow> ledger_ok (be_sha env) (f l)" "\<And>l. l_tasks (f l) = l_tasks l"
  shows "tracking_inv env s' \<and> b_plans s' = b_plans s"
proof -
  have l: "b_ledger s = Some (Some (open_ledger s))" "ledger_ok (be_sha env) (open_ledger s)"
    using tracking_live [OF assms(1)] by (auto simp: ledger_live_def)
  have s': "s' = s\<lparr>b_ledger := Some (Some (f (open_ledger s)))\<rparr>"
    using assms(2) unfolding with_ledger_def l(1) by simp
  have eq: "statuses s' = statuses s" "b_plans s' = b_plans s" "b_watch s' = b_watch s"
    by (simp_all add: s' statuses_def open_ledger_def row_status_def fun_eq_iff assms(4))
  then have "watched s' = watched s" "running_rows s' = running_rows s"
    by (simp_all add: fun_eq_iff watched_def running_rows_def)
  moreover from this have "tracked s' = tracked s" "handles_ok s' = handles_ok s"
    by (simp_all add: tracked_def live_def handles_ok_def eq)
  moreover have "ledger_live env s'" using l assms(3) by (simp add: s' ledger_live_def open_ledger_def)
  ultimately show ?thesis using assms(1) eq by (simp add: tracking_inv_def)
qed

section \<open>Runs of the backend\<close>

text \<open>Any interleaving of the operations of a process, with any answers of the store and of the
  administration port. The store's task numbers are pairs and never repeat one that is still tracked.\<close>

definition new_numbers :: "backend \<Rightarrow> (bool \<times> submit_event) list \<Rightarrow> bool" where
  "new_numbers s evs = (\<forall>t \<in> delivered evs. is_pair t \<and> (\<forall>g \<in> dom (b_plans s). t \<notin> set (h_task_ids g)))"

inductive backend_step :: "'h backend_env \<Rightarrow> backend \<Rightarrow> backend \<Rightarrow> bool" for env where
  bs_copy: "copy env sizes qs evs now uuid p target slot s = Some (r, s') \<Longrightarrow> new_numbers s evs \<Longrightarrow>
    backend_step env s s'"
| bs_move: "move env sizes qs evs now uuid p target source slot s = Some (r, s') \<Longrightarrow> new_numbers s evs \<Longrightarrow>
    backend_step env s s'"
| bs_query: "query_task env ask bq now h s = (r, s') \<Longrightarrow> \<forall>ks. bq ks \<noteq> Inl VerifyError \<Longrightarrow>
    \<forall>t. ask t \<noteq> Inl VerifyError \<Longrightarrow> backend_step env s s'"
| bs_abandon: "abandon env now h s = (r, s') \<Longrightarrow> backend_step env s s'"
| bs_register: "backend_register_keepalive env now p s = (r, s') \<Longrightarrow> backend_step env s s'"
| bs_unregister: "backend_unregister_keepalive env p s = (r, s') \<Longrightarrow> backend_step env s s'"
| bs_remove: "remove env rm now force p s = (r, s') \<Longrightarrow> backend_step env s s'"

lemma copy_inv:
  assumes "tracking_inv env s" "copy env sizes qs evs now uuid p target slot s = Some (r, s')" "new_numbers s evs"
  shows "tracking_inv env s'"
proof -
  consider e where "s' = s" | plan pool where "plan \<noteq> []" "submit_run evs (pool_start (length plan)) = Some pool"
    "pool_done pool" "submit_finish env OP_COPY now uuid p target plan pool s = (r, s')"
    using assms(2)
    by (auto simp: copy_def dest: copy_prepare_nonempty split: prod.splits sum.splits option.splits if_splits)
  then show ?thesis
  proof cases
    case 2
    then show ?thesis using submit_inv [OF assms(1)] assms(3) unfolding new_numbers_def by blast
  qed (use assms(1) in simp)
qed

lemma move_inv:
  assumes "tracking_inv env s" "move env sizes qs evs now uuid p target source slot s = Some (r, s')" "new_numbers s evs"
  shows "tracking_inv env s'"
proof -
  consider e where "s' = s" | moves plan pool where "move_plan env p target source = Inr (moves, plan)"
    "submit_run evs (pool_start (length moves)) = Some pool"
    "pool_done pool" "submit_finish env OP_MOVE now uuid p target plan pool s = (r, s')"
    using assms(2) by (auto simp: move_def split: prod.splits sum.splits option.splits if_splits)
  then show ?thesis
  proof cases
    case 2
    note n = move_plan_nonempty [OF 2(1)]
    show ?thesis using submit_inv [OF assms(1) 2(2) [unfolded n(2)] 2(3) n(1) _ 2(4)] assms(3)
      unfolding new_numbers_def by blast
  qed (use assms(1) in simp)
qed

lemma keepalive_tasks:
  "l_tasks (register_keepalive sha now p l) = l_tasks l" "l_tasks (unregister_keepalive sha p l) = l_tasks l"
  by (simp_all add: register_keepalive_def unregister_keepalive_def)

lemma unregister_inv:
  assumes "tracking_inv env s" "backend_unregister_keepalive env p s = (r, s')"
  shows "tracking_inv env s' \<and> b_plans s' = b_plans s"
  using with_ledger_inv [OF assms(1) assms(2) [unfolded backend_unregister_keepalive_def]]
    ledger_ok_unregister keepalive_tasks by blast

lemma backend_step_inv: "backend_step env s s' \<Longrightarrow> tracking_inv env s \<Longrightarrow> tracking_inv env s'"
proof (induction rule: backend_step.induct)
  case (bs_copy sizes qs evs now uuid p target slot s r s')
  then show ?case using copy_inv by blast
next
  case (bs_move sizes qs evs now uuid p target source slot s r s')
  then show ?case using move_inv by blast
next
  case (bs_query ask bq now h s r s')
  then show ?case using query_task_inv by blast
next
  case (bs_abandon now h s r s')
  then show ?case
  proof (cases "b_plans s h")
    case (Some e)
    then show ?thesis using abandon_inv [OF bs_abandon(2) Some, of now] bs_abandon(1) by auto
  qed (simp add: abandon_def)
next
  case (bs_register now p s r s')
  then show ?case using with_ledger_inv [OF bs_register(2) bs_register(1) [unfolded backend_register_keepalive_def]]
    ledger_ok_register keepalive_tasks by blast
next
  case (bs_unregister p s r s')
  then show ?case using unregister_inv by blast
next
  case (bs_remove rm now force p s r s')
  have "s' = s \<or> (\<exists>r1. backend_unregister_keepalive env p s = (r1, s'))"
    using bs_remove(1) by (cases "backend_unregister_keepalive env p s"; cases "fst (backend_unregister_keepalive env p s)")
      (auto simp: remove_def split: sum.splits if_splits)
  then show ?case using bs_remove(2) unregister_inv by blast
qed

definition fresh_backend :: "'h backend_env \<Rightarrow> backend \<Rightarrow> bool" where
  "fresh_backend env s = (\<exists>l. backend_init env (Some (Some l)) = Inr s \<and> ledger_ok (be_sha env) l \<and>
     (\<forall>r \<in> set (l_tasks l). t_status r \<noteq> ''running''))"

lemma fresh_inv: "fresh_backend env s \<Longrightarrow> tracking_inv env s"
proof -
  assume "fresh_backend env s"
  then obtain l where s: "s = \<lparr>b_plans = Map.empty, b_watch = Map.empty, b_ledger = Some (Some l)\<rparr>"
    "ledger_ok (be_sha env) l" "\<forall>r \<in> set (l_tasks l). t_status r \<noteq> ''running''"
    by (auto simp: fresh_backend_def backend_init_def split: if_splits)
  have "row_status l i \<noteq> Some ''running''" for i
    using s(3) by (auto simp: row_status_def find_Some_iff)
  then show ?thesis using s(2)
    by (auto simp: s(1) tracking_inv_def ledger_live_def open_ledger_def handles_ok_def running_rows_def
        statuses_def tracked_def watched_def)
qed

lemma backend_reachable_inv:
  "(backend_step env)\<^sup>*\<^sup>* s0 s \<Longrightarrow> fresh_backend env s0 \<Longrightarrow> tracking_inv env s"
  by (induction rule: rtranclp_induct) (auto intro: fresh_inv backend_step_inv)

end
