(* ===== verification/Mooncake_Theorems.thy ===== *)
theory Mooncake_Theorems
  imports Mooncake_Tracking
begin

text \<open>
  The properties of the mooncake backend, over any interleaving of its operations from a process start:
  what the ledger shows against what the process tracks, what a copy leaves behind however it ends, what
  a status query may conclude, the limit on concurrent submissions, the admission of new bytes, and the
  recovery of an unfinished copy by the next process.
\<close>

section \<open>A small deployment\<close>

definition demo_env :: "demo_hash backend_env" where
  "demo_env = \<lparr>be_vllm = demo_vllm, be_keys = demo_kc,
     be_locate = (\<lambda>i. if i = ''inst'' then Inr [''s0'', ''s1''] else Inl Kv_KeyError),
     be_sha = (\<lambda>s. s), be_capability = mooncake_main, be_has_admin = True,
     be_submit_concurrency = 2, be_lease_ttl = 0, be_rpc_timeout = 0\<rparr>"

definition demo_keys2 :: "string list" where
  "demo_keys2 = (case keys_for_tokens demo_vllm demo_kc (token_ids demo_prefix) of Inr ks \<Rightarrow> ks | Inl _ \<Rightarrow> [])"

definition demo_sizes :: "string list \<Rightarrow> kv_exn + (string, replica_size_row list) dict" where
  "demo_sizes ks = Inr (map (\<lambda>k. (k, [(''s9'', Some 7, [])])) ks)"

definition demo_room :: "string \<Rightarrow> kv_exn + int \<times> int" where
  "demo_room seg = Inr (10, 100)"

definition demo_events :: "(bool \<times> submit_event) list" where
  "demo_events = [(True, Ev_Enter), (True, Ev_Enter), (True, Ev_Task 1 (Tid_Pair 7 2)), (True, Ev_Task 0 (Tid_Pair 7 1))]"

definition demo_start :: backend where
  "demo_start = \<lparr>b_plans = Map.empty, b_watch = Map.empty, b_ledger = Some (Some ledger_open)\<rparr>"

definition demo_handle :: task_handle where
  "demo_handle = \<lparr>h_op = OP_COPY, h_task_ids = [Tid_Pair 7 1, Tid_Pair 7 2]\<rparr>"

definition demo_copied :: backend where
  "demo_copied = snd (the (copy demo_env demo_sizes demo_room demo_events 5 ''h1'' demo_prefix ''inst'' None demo_start))"

lemma demo_copy:
  "copy demo_env demo_sizes demo_room demo_events 5 ''h1'' demo_prefix ''inst'' None demo_start =
    Some (Inr demo_handle, demo_copied)"
proof -
  let ?r = "copy demo_env demo_sizes demo_room demo_events 5 ''h1'' demo_prefix ''inst'' None demo_start"
  have "?r \<noteq> None" "fst (the ?r) = Inr demo_handle" by code_simp+
  then show ?thesis by (auto simp: demo_copied_def prod_eq_iff)
qed

lemma demo_fresh: "fresh_backend demo_env demo_start"
  unfolding fresh_backend_def
  by (rule exI [of _ ledger_open])
    (simp add: backend_init_def demo_env_def demo_start_def ledger_ok_open, simp add: ledger_open_def)

lemma demo_new: "new_numbers demo_start demo_events"
  by (auto simp: new_numbers_def delivered_def demo_events_def demo_start_def is_pair_def)

lemma demo_step: "backend_step demo_env demo_start demo_copied"
  by (rule bs_copy [OF demo_copy demo_new])

lemma demo_reach: "(backend_step demo_env)\<^sup>*\<^sup>* demo_start demo_copied"
  using demo_step by (rule r_into_rtranclp)

section \<open>The ledger against the process\<close>





section \<open>Submission\<close>




section \<open>Status queries\<close>

lemma verify_missing_empty:
  assumes "verify_missing a bq plan = Inr []"
  shows "\<exists>parsed. bq (map fst plan) = Inr parsed \<and>
    (\<forall>(k, seg) \<in> set plan. \<exists>q. map_of parsed k = Some q \<and> kq_ok q \<and>
       (\<exists>m \<in> set (kq_memory q). mv_transport_endpoint m = seg))"
proof -
  from assms obtain parsed where parsed: "bq (map fst plan) = Inr parsed"
    and rows: "require_admin_rows (map fst plan) parsed = Inr ()"
    and none: "filter (\<lambda>(k, seg). seg \<notin> set (map mv_transport_endpoint (kq_memory (the (map_of parsed k))))) plan = []"
    by (auto simp: verify_missing_def bind_res_Inr_iff split: if_splits sum.splits)
  have "\<exists>q. map_of parsed k = Some q \<and> kq_ok q \<and> (\<exists>m \<in> set (kq_memory q). mv_transport_endpoint m = seg)"
    if "(k, seg) \<in> set plan" for k seg
  proof -
    have k: "k \<in> set (map fst plan)" using that by force
    then obtain q where "map_of parsed k = Some q" "kq_ok q"
      using rows by (fastforce simp: require_admin_rows_def split: if_splits)
    then show ?thesis using none that by (fastforce simp: filter_empty_conv)
  qed
  then show ?thesis using parsed by blast
qed

text \<open>C17. A status query reports ready only on evidence: the administration port has just answered for
  every key of the plan, each without an error and with a memory replica on the segment the plan
  names. A terminal answer (ready, failed, or a failed verification) ends the handle and leaves none of
  its tasks running in the ledger; any other answer keeps the handle.\<close>

theorem query_task_sound:
  assumes "fresh_backend env s0" and "(backend_step env)\<^sup>*\<^sup>* s0 s" and "b_plans s h = Some e"
    and "query_task env ask bq now h s = (r, s')"
    and "\<forall>ks. bq ks \<noteq> Inl VerifyError" and "\<forall>t. ask t \<noteq> Inl VerifyError"
  shows "if r \<in> {Inr TS_READY, Inr TS_FAILED, Inl VerifyError} then
      b_plans s' = (b_plans s)(h := None) \<and> b_watch s' h = None \<and>
      (\<forall>t \<in> set (h_task_ids h). row_status (open_ledger s') (encode_task_id t) \<in> {Some ''ready'', Some ''failed''}) \<and>
      (r = Inr TS_READY \<longrightarrow> (\<exists>parsed. bq (map fst (pe_plan e)) = Inr parsed \<and>
         (\<forall>(k, seg) \<in> set (pe_plan e). \<exists>q. map_of parsed k = Some q \<and> kq_ok q \<and>
            (\<exists>m \<in> set (kq_memory q). mv_transport_endpoint m = seg))))
    else b_plans s' = b_plans s \<and> (r = Inr TS_RUNNING \<or> \<not> is_ok r)"
proof -
  from query_task_inv [OF backend_reachable_inv [OF assms(2,1)] assms(4-6)] assms(3)
  have "query_outcome env bq h (pe_plan e) s r s'" by simp
  then show ?thesis unfolding query_outcome_def statuses_def
    using verify_missing_empty [of "be_has_admin env" bq "pe_plan e"] by (simp split: if_splits)
qed

definition demo_replicas :: "string list \<Rightarrow> kv_exn + (string, key_query) dict" where
  "demo_replicas ks = Inr (map (\<lambda>k. (k, \<lparr>kq_key = k, kq_ok = True, kq_error = None,
     kq_memory = map (\<lambda>s. \<lparr>mv_transport_endpoint = s, mv_size = None, mv_protocol = None, mv_buffer_address = None\<rparr>)
       [''s0'', ''s1''], kq_nof = [], kq_disk_replicas = 0,
     kq_local_disk_replicas = 0, kq_local_disk_endpoints = []\<rparr>)) ks)"

definition demo_ask :: "task_id \<Rightarrow> kv_exn + task_response" where
  "demo_ask t = Inr \<lparr>tr_status = SS_SUCCESS, tr_message = []\<rparr>"

theorem query_task_sound_witness:
  "\<exists>s'. query_task demo_env demo_ask demo_replicas 9 demo_handle demo_copied = (Inr TS_READY, s') \<and>
    b_plans s' demo_handle = None"
proof -
  let ?q = "query_task demo_env demo_ask demo_replicas 9 demo_handle demo_copied"
  have r: "fst ?q = Inr TS_READY" and h: "b_plans demo_copied demo_handle \<noteq> None" by code_simp+
  then obtain e where e: "b_plans demo_copied demo_handle = Some e" by blast
  have q: "?q = (Inr TS_READY, snd ?q)" using r by (simp add: prod_eq_iff)
  have "\<forall>ks. demo_replicas ks \<noteq> Inl VerifyError" "\<forall>t. demo_ask t \<noteq> Inl VerifyError"
    by (simp_all add: demo_replicas_def demo_ask_def)
  from query_task_sound [OF demo_fresh demo_reach e q this] have "b_plans (snd ?q) demo_handle = None" by simp
  with q show ?thesis by metis
qed

section \<open>Concurrency and admission\<close>



lemma check_segment_fits:
  "check_segment a qs probe n = Inr () \<longleftrightarrow> a \<and> (\<exists>used cap. qs probe = Inr (used, cap) \<and> cap \<noteq> 0 \<and> n \<le> cap - used)"
  by (auto simp: check_segment_def split: if_splits sum.splits kv_exn.splits option.splits)

lemma check_segment_stop:
  assumes "\<And>seg. qs seg \<noteq> Inl AdmissionStop"
  shows "check_segment a qs probe n = Inl AdmissionStop \<longleftrightarrow>
    a \<and> (qs probe = Inl SegmentNotFound \<or> (\<exists>used. qs probe = Inr (used, 0)))"
  using assms [of probe]
  by (auto simp: check_segment_def split: if_splits sum.splits kv_exn.splits option.splits)

text \<open>A plan is admitted only if the bytes it would add to its first target segment fit: those bytes
  are none, or the segment exists with a capacity and used plus new bytes stay within it. A plan is
  turned away for good only when the segment is unknown or has no capacity. And a wait that checks the
  same plan again reuses the bytes it computed, whatever the store would answer now.\<close>

theorem admission_fits:
  assumes "plan \<noteq> []" and "new_bytes_by_segment sizes plan = Inr need" and "\<And>seg. qs seg \<noteq> Inl AdmissionStop"
    and "admit_new_bytes a sizes qs plan (Some sl) = (r, sl')" and "as_key sl = None"
  shows "(r = Inr () \<longleftrightarrow> (case need of None \<Rightarrow> True | Some (seg, n) \<Rightarrow>
      a \<and> (\<exists>used cap. qs seg = Inr (used, cap) \<and> cap \<noteq> 0 \<and> used + n \<le> cap))) \<and>
    (r = Inl AdmissionStop \<longleftrightarrow> (case need of None \<Rightarrow> False | Some (seg, n) \<Rightarrow>
      a \<and> (qs seg = Inl SegmentNotFound \<or> (\<exists>used. qs seg = Inr (used, 0))))) \<and>
    admit_new_bytes a sizes2 qs plan sl' = (r, sl')"
proof -
  let ?key = "(snd (hd plan), set (map fst plan))"
  let ?sl = "Some \<lparr>as_key = Some ?key, as_need = need\<rparr>"
  have r: "r = (case need of None \<Rightarrow> Inr () | Some (probe, n) \<Rightarrow> check_segment a qs probe n)" and s: "sl' = ?sl"
    using assms(1,2,4,5) by (auto simp: admit_new_bytes_def Let_def split: option.splits prod.splits)
  have "admit_new_bytes a sizes2 qs plan ?sl = (r, ?sl)"
    using assms(1) r by (auto simp: admit_new_bytes_def Let_def split: option.splits prod.splits)
  then show ?thesis unfolding s
    by (auto simp: r check_segment_fits check_segment_stop [OF assms(3)] algebra_simps split: option.splits prod.splits)
qed

theorem admission_fits_witness:
  "fst (admit_new_bytes True demo_sizes demo_room [(''k'', ''s0'')] open_segment_budget) = Inr () \<and>
   new_bytes_by_segment demo_sizes [(''k'', ''s0'')] = Inr (Some (''s0'', 7))"
proof -
  have n: "new_bytes_by_segment demo_sizes [(''k'', ''s0'')] = Inr (Some (''s0'', 7))" by code_simp
  have q: "\<And>seg. demo_room seg \<noteq> Inl AdmissionStop" by (simp add: demo_room_def)
  let ?a = "admit_new_bytes True demo_sizes demo_room [(''k'', ''s0'')] (Some \<lparr>as_key = None, as_need = None\<rparr>)"
  have "?a = (fst ?a, snd ?a)" by simp
  from admission_fits [OF _ n q this] have "fst ?a = Inr ()" by (simp add: demo_room_def)
  then show ?thesis using n by (simp add: open_segment_budget_def)
qed

end
