(* ===== verification/Mooncake_Recovery.thy ===== *)
theory Mooncake_Recovery
  imports Mooncake_Theorems
begin










end
