(* ===== verification/Topology.thy ===== *)
theory Topology
  imports Py_Text
begin

text \<open>
  Which segment each rank of a vLLM worker owns (\<^verbatim>\<open>engines/vllm/topology.py\<close>): the process tree under a
  pid file, the listening ports of its processes, and the intersection with the segment list.

  What the code reads from the operating system is an argument: the entries of \<^verbatim>\<open>/proc\<close> with the
  contents of their files (\<open>None\<close> where reading fails), the output of \<^verbatim>\<open>ps\<close> and \<^verbatim>\<open>ss\<close> (\<open>None\<close> where
  the program is missing or fails), and the outcome of the remote probe.
\<close>

datatype topo_exn = Probe_Error int | Resolve_Error | Topo_ValueError | Topo_IndexError

abbreviation probe_missing :: int where "probe_missing \<equiv> 3"
abbreviation probe_stale :: int where "probe_stale \<equiv> 4"
abbreviation probe_no_ss :: int where "probe_no_ss \<equiv> 5"
abbreviation probe_no_ps :: int where "probe_no_ps \<equiv> 6"

definition int_of :: "string \<Rightarrow> topo_exn + int" where
  "int_of s = (case py_int s of Some i \<Rightarrow> Inr i | None \<Rightarrow> Inl Topo_ValueError)"

section \<open>The process tree\<close>

text \<open>One entry of \<^verbatim>\<open>/proc\<close>: the parent and the process, or nothing where the entry is skipped.\<close>

definition stat_row :: "string \<times> string option \<Rightarrow> topo_exn + (int \<times> int) list" where
  "stat_row = (\<lambda>(pid_s, stat).
     if \<not> py_isdigit pid_s then Inr []
     else case stat of
       None \<Rightarrow> Inr []
     | Some text \<Rightarrow>
         (case after_last CHR '')'' text of
            None \<Rightarrow> Inr []
          | Some tail \<Rightarrow>
              (case py_words tail of
                 state # ppid # rest \<Rightarrow>
                   bind_res (int_of ppid) (\<lambda>pp. bind_res (int_of pid_s) (\<lambda>p. Inr [(pp, p)]))
               | _ \<Rightarrow> Inr [])))"

definition ps_row :: "string \<Rightarrow> topo_exn + (int \<times> int) list" where
  "ps_row ln = (case py_words ln of
     [pid, ppid] \<Rightarrow> bind_res (int_of pid) (\<lambda>p. bind_res (int_of ppid) (\<lambda>pp. Inr [(pp, p)]))
   | _ \<Rightarrow> Inr [])"

definition children_of :: "(int \<times> int) list \<Rightarrow> int \<Rightarrow> int list" where
  "children_of rows p = map snd (filter (\<lambda>(pp, c). pp = p) rows)"

text \<open>The pairs of parent and child; the dictionary the code builds from them is \<open>children_of\<close>.\<close>

definition pid_children_map :: "(string \<times> string option) list \<Rightarrow> string option \<Rightarrow> topo_exn + (int \<times> int) list" where
  "pid_children_map proc ps = bind_res (map_res stat_row proc) (\<lambda>rows.
     if concat rows \<noteq> [] then Inr (concat rows)
     else case ps of
       None \<Rightarrow> Inl (Probe_Error probe_no_ps)
     | Some out \<Rightarrow> bind_res (map_res ps_row (py_splitlines out)) (\<lambda>rows. Inr (concat rows)))"

text \<open>The depth-first walk; the head of the list is the top of the stack.\<close>

function tree_loop :: "(int \<times> int) list \<Rightarrow> int list \<Rightarrow> int set \<Rightarrow> int set" where
  "tree_loop rows [] seen = seen"
| "tree_loop rows (p # stack) seen =
    (if p \<in> seen then tree_loop rows stack seen
     else tree_loop rows (rev (children_of rows p) @ stack) (insert p seen))"
  by pat_completeness auto

lemma tree_loop_universe:
  assumes "p \<notin> seen"
  shows "card ((set (rev (children_of rows p) @ stack) \<union> snd ` set rows) - insert p seen)
    < card ((set (p # stack) \<union> snd ` set rows) - seen)"
proof (rule psubset_card_mono)
  have "set (children_of rows p) \<subseteq> snd ` set rows" by (auto simp: children_of_def)
  then show "(set (rev (children_of rows p) @ stack) \<union> snd ` set rows) - insert p seen
      \<subset> (set (p # stack) \<union> snd ` set rows) - seen" using assms by auto
qed simp

termination tree_loop
proof (relation "measures [\<lambda>(rows, stack, seen). card ((set stack \<union> snd ` set rows) - seen),
    \<lambda>(rows, stack, seen). length stack]")
  fix rows :: "(int \<times> int) list" and p :: int and stack seen
  assume "p \<in> seen"
  moreover have "card ((set stack \<union> snd ` set rows) - seen) \<le> card ((set (p # stack) \<union> snd ` set rows) - seen)"
    by (rule card_mono) auto
  ultimately show "((rows, stack, seen), rows, p # stack, seen)
      \<in> measures [\<lambda>(rows, stack, seen). card ((set stack \<union> snd ` set rows) - seen),
        \<lambda>(rows, stack, seen). length stack]" by auto
qed (use tree_loop_universe in auto)

definition process_tree :: "(int \<times> int) list \<Rightarrow> int \<Rightarrow> int set" where
  "process_tree rows root_pid = tree_loop rows [root_pid] {}"

section \<open>Listening ports\<close>

definition ports_dict :: "(int \<times> int) list \<Rightarrow> int \<Rightarrow> int list" where
  "ports_dict pairs pid = sorted_list_of_set (set (map snd (filter (\<lambda>(p, port). p = pid) pairs)))"

text \<open>One line of \<^verbatim>\<open>ss -ltnp\<close>.\<close>

definition ss_row :: "string \<Rightarrow> (int \<times> int) list" where
  "ss_row ln = (case search_number ''pid='' ln of
     None \<Rightarrow> []
   | Some pid \<Rightarrow>
       (let fields = py_words ln;
            before = takeWhile (\<lambda>f. strip_head ''users:'' f = None) fields in
        if length before = length fields \<or> length before < 2 then []
        else (case after_last CHR '':'' (fields ! (length before - 2)) of
                None \<Rightarrow> []
              | Some t \<Rightarrow> (case py_int t of None \<Rightarrow> [] | Some port \<Rightarrow> [(pid, port)]))))"

definition hex_val :: "char \<Rightarrow> nat option" where
  "hex_val c = (let k = of_char c in
     if 48 \<le> k \<and> k \<le> 57 then Some (k - 48) else if 97 \<le> k \<and> k \<le> 102 then Some (k - 87)
     else if 65 \<le> k \<and> k \<le> 70 then Some (k - 55) else None)"

text \<open>\<^verbatim>\<open>int(t, 16)\<close> on the texts without sign, prefix and underscore; the kernel writes four digits.\<close>

definition hex_int :: "string \<Rightarrow> int option" where
  "hex_int s = (if s \<noteq> [] \<and> (\<forall>c \<in> set s. hex_val c \<noteq> None)
     then Some (foldl (\<lambda>a c. 16 * a + int (the (hex_val c))) 0 s) else None)"

text \<open>One row of \<^verbatim>\<open>/proc/net/tcp\<close>: the socket and its port.\<close>

definition tcp_row :: "string \<Rightarrow> topo_exn + (int \<times> int) list" where
  "tcp_row ln = (let fields = py_words ln in
     if length fields < 10 \<or> fields ! 3 \<noteq> ''0A'' then Inr []
     else case after_last CHR '':'' (fields ! 1) of
       None \<Rightarrow> Inl Topo_IndexError
     | Some t \<Rightarrow> Inr (case (hex_int t, py_int (fields ! 9)) of (Some port, Some inode) \<Rightarrow> [(inode, port)] | _ \<Rightarrow> []))"

definition inode_ports :: "string option list \<Rightarrow> topo_exn + (int, int) dict" where
  "inode_ports tables = bind_res
     (map_res tcp_row (concat (map (\<lambda>t. case t of None \<Rightarrow> [] | Some text \<Rightarrow> tl (py_splitlines text)) tables)))
     (\<lambda>rows. Inr (dict_update [] (concat rows)))"

definition socket_inode :: "string \<Rightarrow> int option" where
  "socket_inode target = (case strip_head ''socket:['' target of
     None \<Rightarrow> None
   | Some t \<Rightarrow> if leading_digits t \<noteq> [] \<and> t = leading_digits t @ '']'' then py_int (leading_digits t) else None)"

text \<open>\<open>fds\<close>: the entries of \<^verbatim>\<open>/proc\<close> with the links of their descriptors.\<close>

definition listen_ports_by_pid_proc ::
  "string option list \<Rightarrow> (string \<times> string option list option) list \<Rightarrow> topo_exn + (int \<times> int) list" where
  "listen_ports_by_pid_proc tables fds =
     bind_res (inode_ports tables) (\<lambda>ports.
      if ports = [] then Inl (Probe_Error probe_no_ss)
      else bind_res (map_res (\<lambda>(pid_s, links).
          if \<not> py_isdigit pid_s then Inr []
          else bind_res (int_of pid_s) (\<lambda>pid. Inr (case links of None \<Rightarrow> []
            | Some ls \<Rightarrow> concat (map (\<lambda>l. case Option.bind (Option.bind l socket_inode) (map_of ports) of
                None \<Rightarrow> [] | Some port \<Rightarrow> [(pid, port)]) ls)))) fds)
        (\<lambda>rows. Inr (concat rows)))"

datatype ss_outcome = Ss_Missing | Ss_Timeout | Ss_Output string

definition listen_ports_by_pid ::
  "ss_outcome \<Rightarrow> string option list \<Rightarrow> (string \<times> string option list option) list \<Rightarrow> topo_exn + (int \<times> int) list" where
  "listen_ports_by_pid ss tables fds = (case ss of
     Ss_Missing \<Rightarrow> listen_ports_by_pid_proc tables fds
   | Ss_Timeout \<Rightarrow> Inl (Probe_Error probe_no_ss)
   | Ss_Output out \<Rightarrow> Inr (concat (map ss_row (py_splitlines out))))"

section \<open>The probe\<close>

type_synonym probe_row = "int \<times> int option \<times> int list"

definition rank_of_pid :: "(int \<Rightarrow> string option) \<Rightarrow> int \<Rightarrow> int option" where
  "rank_of_pid cmdline pid = (case cmdline pid of
     None \<Rightarrow> None
   | Some cmd \<Rightarrow> search_number ''Worker_TP'' (map (\<lambda>c. if c = CHR 0x00 then CHR '' '' else c) cmd))"

record host =
  hs_pidfile :: "string option"
  hs_alive :: "int \<Rightarrow> bool"
  hs_proc :: "(string \<times> string option) list"
  hs_ps :: "string option"
  hs_ss :: ss_outcome
  hs_tcp :: "string option list"
  hs_fds :: "(string \<times> string option list option) list"
  hs_cmdline :: "int \<Rightarrow> string option"

definition probe_host :: "host \<Rightarrow> topo_exn + probe_row list" where
  "probe_host h = (case hs_pidfile h of
     None \<Rightarrow> Inl (Probe_Error probe_missing)
   | Some text \<Rightarrow>
       if py_strip text = [] then Inl (Probe_Error probe_missing)
       else case py_int (py_strip text) of
         None \<Rightarrow> Inl (Probe_Error probe_missing)
       | Some root \<Rightarrow>
           if \<not> hs_alive h root then Inl (Probe_Error probe_stale)
           else bind_res (pid_children_map (hs_proc h) (hs_ps h)) (\<lambda>rows.
             bind_res (listen_ports_by_pid (hs_ss h) (hs_tcp h) (hs_fds h)) (\<lambda>pairs.
               Inr (map (\<lambda>pid. (pid, rank_of_pid (hs_cmdline h) pid, ports_dict pairs pid))
                 (filter (\<lambda>pid. ports_dict pairs pid \<noteq> []) (sorted_list_of_set (process_tree rows root)))))))"

text \<open>The rows as the remote probe prints them, and as the caller reads them back. \<open>host_at\<close> is the machine
  with the pid file at a path; the result is the exit code and the standard output.\<close>

definition tsv_line :: "probe_row \<Rightarrow> string" where
  "tsv_line = (\<lambda>(pid, rank, ports). show_int pid @ [CHR 0x09] @
     (case rank of None \<Rightarrow> ''-'' | Some r \<Rightarrow> show_int r) @ [CHR 0x09] @ py_join '','' (map show_int ports))"

definition local_probe_main :: "(string \<Rightarrow> host) \<Rightarrow> string list \<Rightarrow> topo_exn + int \<times> string" where
  "local_probe_main host_at argv = (case argv of
     [flag, pidfile] \<Rightarrow>
       if flag \<noteq> ''--local-probe'' then Inr (2, [])
       else (case probe_host (host_at pidfile) of
          Inl (Probe_Error code) \<Rightarrow> Inr (code, [])
        | Inl e \<Rightarrow> Inl e
        | Inr rows \<Rightarrow> Inr (0, concat (map (\<lambda>r. tsv_line r @ [CHR 0x0A]) rows)))
   | _ \<Rightarrow> Inr (2, []))"

definition tsv_row :: "string \<Rightarrow> topo_exn + probe_row list" where
  "tsv_row ln = (case py_split CHR 0x09 ln of
     [pid_s, rank_s, ports_s] \<Rightarrow>
       bind_res (int_of pid_s) (\<lambda>pid.
       bind_res (if rank_s = ''-'' then Inr None else bind_res (int_of rank_s) (\<lambda>r. Inr (Some r))) (\<lambda>rank.
       bind_res (map_res int_of (filter (\<lambda>x. x \<noteq> []) (py_split CHR '','' ports_s))) (\<lambda>ports.
         Inr [(pid, rank, ports)])))
   | _ \<Rightarrow> Inr [])"

text \<open>The outcome of the ssh command: a timeout, or an exit code and the output.\<close>

definition probe_ssh :: "(int \<times> string) option \<Rightarrow> topo_exn + probe_row list" where
  "probe_ssh out = (case out of
     None \<Rightarrow> Inl (Probe_Error (- 1))
   | Some (code, text) \<Rightarrow>
       if code \<noteq> 0 then Inl (Probe_Error code)
       else bind_res (map_res tsv_row (py_splitlines text)) (\<lambda>rows. Inr (concat rows)))"

section \<open>Rank and segment\<close>

definition port_of :: "string \<Rightarrow> topo_exn + string" where
  "port_of seg = (case after_last CHR '':'' seg of Some t \<Rightarrow> Inr t | None \<Rightarrow> Inl Topo_IndexError)"

definition on_host :: "string \<Rightarrow> string \<Rightarrow> bool" where
  "on_host target_ip seg = (target_ip = [] \<or> strip_head (target_ip @ '':'') seg \<noteq> None)"

definition port_matches :: "string list \<Rightarrow> string \<Rightarrow> int \<Rightarrow> topo_exn + string list" where
  "port_matches segs target_ip port = bind_res (map_res port_of segs) (\<lambda>ports.
     Inr (map fst (filter (\<lambda>(s, p). p = show_int port \<and> on_host target_ip s) (zip segs ports))))"

type_synonym pinned = "(int \<rightharpoonup> string) \<times> string list"

definition pin_port :: "string list \<Rightarrow> string \<Rightarrow> int option \<Rightarrow> int \<Rightarrow> pinned \<Rightarrow> topo_exn + pinned" where
  "pin_port segs target_ip rank port = (\<lambda>(rank_seg, unknown).
     bind_res (port_matches segs target_ip port) (\<lambda>ms. case ms of
       [] \<Rightarrow> Inr (rank_seg, unknown)
     | [seg] \<Rightarrow>
         (case rank of
            None \<Rightarrow> Inr (rank_seg, unknown @ [seg])
          | Some r \<Rightarrow>
              if rank_seg r \<noteq> None \<and> rank_seg r \<noteq> Some seg then Inl Resolve_Error
              else Inr (rank_seg(r \<mapsto> seg), unknown))
     | _ \<Rightarrow> Inl Resolve_Error))"

fun pin_ports :: "string list \<Rightarrow> string \<Rightarrow> (int option \<times> int) list \<Rightarrow> pinned \<Rightarrow> topo_exn + pinned" where
  "pin_ports segs target_ip [] st = Inr st"
| "pin_ports segs target_ip ((rank, port) # ps) st =
    bind_res (pin_port segs target_ip rank port st) (pin_ports segs target_ip ps)"

definition row_ports :: "probe_row list \<Rightarrow> (int option \<times> int) list" where
  "row_ports rows = concat (map (\<lambda>(pid, rank, ports). map (\<lambda>port. (rank, port)) ports) rows)"

definition intersect_rank_seg :: "string list \<Rightarrow> probe_row list \<Rightarrow> nat \<Rightarrow> string \<Rightarrow> topo_exn + string list" where
  "intersect_rank_seg segs rows tp target_ip =
     bind_res (pin_ports segs target_ip (row_ports rows) (Map.empty, [])) (\<lambda>(rank_seg, unknown).
       bind_res (if tp = 1 \<and> rank_seg 0 = None
                 then (if length unknown \<noteq> 1 then Inl Resolve_Error else Inr (rank_seg(0 \<mapsto> hd unknown), []))
                 else Inr (rank_seg, unknown))
         (\<lambda>(rank_seg, unknown).
            if tp > 1 \<and> unknown \<noteq> [] then Inl Resolve_Error
            else map_res (\<lambda>i. case rank_seg (int i) of None \<Rightarrow> Inl Resolve_Error | Some s \<Rightarrow> Inr s) [0..<tp]))"

text \<open>\<open>ssh\<close>, \<open>pidfile\<close>: the command and the path are empty or not; \<open>probe\<close> is the outcome of the probe.\<close>

definition resolve_segments ::
  "string list \<Rightarrow> nat \<Rightarrow> string \<Rightarrow> string \<Rightarrow> string \<Rightarrow> topo_exn + probe_row list \<Rightarrow> topo_exn + string list" where
  "resolve_segments segs tp pidfile ssh target_ip probe =
     (if ssh \<noteq> [] \<and> pidfile = [] then Inl Resolve_Error
      else case probe of
        Inl (Probe_Error code) \<Rightarrow>
          (let solo = filter (on_host target_ip) segs in
           if tp = 1 \<and> code \<noteq> probe_stale \<and> length solo = 1 then Inr solo else Inl Resolve_Error)
      | Inl e \<Rightarrow> Inl e
      | Inr rows \<Rightarrow>
          if rows = [] then Inl Resolve_Error else intersect_rank_seg segs rows tp target_ip)"

definition rank_topology_init :: "int \<Rightarrow> topo_exn + nat" where
  "rank_topology_init tp_size = (if tp_size < 1 then Inl Topo_ValueError else Inr (nat tp_size))"

definition topology_resolve ::
  "nat \<Rightarrow> string list \<Rightarrow> string \<Rightarrow> string \<Rightarrow> string \<Rightarrow> host \<Rightarrow> (int \<times> string) option \<Rightarrow> topo_exn + string list" where
  "topology_resolve tp segs pidfile ssh target_ip this_host ssh_out =
     resolve_segments segs tp pidfile ssh target_ip
       (if ssh \<noteq> [] then probe_ssh ssh_out else probe_host this_host)"

end
