(* ===== verification/Topology_Laws.thy ===== *)
theory Topology_Laws
  imports Topology
begin

text \<open>
  What the rank topology promises: the walk over the process table is reachability, the remote probe's
  text is read back exactly, every rank of a resolved list is pinned by a listening port, and the
  fallback without a probe is limited to a single segment of a live worker.
\<close>

section \<open>The walk is reachability\<close>

lemma children_of_iff: "c \<in> set (children_of rows p) \<longleftrightarrow> (p, c) \<in> set rows"
  by (force simp: children_of_def)

lemma tree_loop_covers: "seen \<union> set stack \<subseteq> tree_loop rows stack seen"
proof (induction rows stack seen rule: tree_loop.induct)
  case (2 rows p stack seen)
  then show ?case by (cases "p \<in> seen") auto
qed simp

lemma tree_loop_closed:
  assumes "\<And>x y. x \<in> seen \<Longrightarrow> (x, y) \<in> set rows \<Longrightarrow> y \<in> seen \<union> set stack"
  shows "x \<in> tree_loop rows stack seen \<Longrightarrow> (x, y) \<in> set rows \<Longrightarrow> y \<in> tree_loop rows stack seen"
  using assms
proof (induction rows stack seen rule: tree_loop.induct)
  case (2 rows p stack seen)
  show ?case
  proof (cases "p \<in> seen")
    case True
    then show ?thesis using 2 by (auto simp: insert_absorb)
  next
    case False
    have "y \<in> insert p seen \<union> set (rev (children_of rows p) @ stack)"
      if "x \<in> insert p seen" "(x, y) \<in> set rows" for x y
      using that 2(5) by (auto simp: children_of_iff)
    then show ?thesis using 2(2) False 2(3,4) by simp
  qed
qed auto

lemma tree_loop_reachable: "tree_loop rows stack seen \<subseteq> seen \<union> (set rows)\<^sup>* `` set stack"
proof (induction rows stack seen rule: tree_loop.induct)
  case (2 rows p stack seen)
  have step: "(set rows)\<^sup>* `` set (children_of rows p) \<subseteq> (set rows)\<^sup>* `` {p}"
    by (auto simp: children_of_iff intro: converse_rtrancl_into_rtrancl)
  show ?case
  proof (cases "p \<in> seen")
    case False
    then have "tree_loop rows (p # stack) seen
        \<subseteq> insert p seen \<union> ((set rows)\<^sup>* `` set (children_of rows p) \<union> (set rows)\<^sup>* `` set stack)"
      using 2(2) by (simp add: Image_Un)
    moreover have "p \<in> (set rows)\<^sup>* `` {p}" by simp
    moreover have "(set rows)\<^sup>* `` set (p # stack) = (set rows)\<^sup>* `` {p} \<union> (set rows)\<^sup>* `` set stack" by auto
    ultimately show ?thesis using step by blast
  qed (use 2(1) in auto)
qed simp

lemma process_tree_eq: "process_tree rows root = (set rows)\<^sup>* `` {root}"
proof
  show "process_tree rows root \<subseteq> (set rows)\<^sup>* `` {root}"
    using tree_loop_reachable [of rows "[root]" "{}"] by (simp add: process_tree_def)
  have "q \<in> process_tree rows root" if "(root, q) \<in> (set rows)\<^sup>*" for q
    using that
  proof (induction rule: rtrancl_induct)
    case base
    then show ?case using tree_loop_covers [of "{}" "[root]" rows] by (simp add: process_tree_def)
  next
    case (step y z)
    then show ?case using tree_loop_closed [of "{}" rows "[root]" y z] by (simp add: process_tree_def)
  qed
  then show "(set rows)\<^sup>* `` {root} \<subseteq> process_tree rows root" by auto
qed

lemma finite_process_tree: "finite (process_tree rows root)"
proof -
  have "tree_loop rows stack seen \<subseteq> seen \<union> set stack \<union> snd ` set rows" for stack seen
  proof (induction rows stack seen rule: tree_loop.induct)
    case (2 rows p stack seen)
    have "set (children_of rows p) \<subseteq> snd ` set rows" by (force simp: children_of_iff)
    then show ?case using 2 by (cases "p \<in> seen") auto
  qed simp
  then show ?thesis unfolding process_tree_def by (rule finite_subset) simp
qed

section \<open>The text of the remote probe\<close>

lemma show_int_no_tab: "CHR 0x09 \<notin> set (show_int i)" "CHR '','' \<notin> set (show_int i)"
  using show_int_no_space [of i] show_int_chars digit_char_props(5) by (fastforce simp: is_space_def)+

lemma show_int_no_break: "c \<in> set (show_int i) \<Longrightarrow> \<not> is_break c"
  using show_int_no_space [of i] by (fastforce simp: is_space_def is_break_def Let_def)

lemma show_int_not_dash: "show_int r \<noteq> ''-''"
proof
  assume "show_int r = ''-''"
  then have "py_int ''-'' = Some r" by (metis py_int_show_int)
  then show False by (simp add: py_int_def py_strip_def is_space_def)
qed

lemma map_res_int_of: "map_res int_of (map show_int xs) = Inr xs"
  by (induction xs) (simp_all add: int_of_def)

lemma join_chars: "c \<in> set (py_join sep xs) \<Longrightarrow> c \<in> set sep \<or> (\<exists>x \<in> set xs. c \<in> set x)"
  by (induction sep xs rule: py_join.induct) auto

lemma ports_read: "map_res int_of (filter (\<lambda>x. x \<noteq> []) (py_split CHR '','' (py_join '','' (map show_int ports)))) = Inr ports"
proof (cases ports)
  case (Cons p ps)
  have "py_split CHR '','' (py_join '','' (map show_int ports)) = map show_int ports"
    using py_split_join [of "map show_int ports" "CHR '',''"] show_int_no_tab(2) Cons by simp
  moreover have "filter (\<lambda>x. x \<noteq> []) (map show_int ports) = map show_int ports" by (intro filter_True) auto
  ultimately show ?thesis by (simp add: map_res_int_of)
qed simp

lemma tsv_row_line: "tsv_row (tsv_line r) = Inr [r]"
proof -
  obtain pid rank ports where r: "r = (pid, rank, ports)" by (cases r) auto
  let ?rank = "case rank of None \<Rightarrow> ''-'' | Some k \<Rightarrow> show_int k" and ?ports = "py_join '','' (map show_int ports)"
  have "CHR 0x09 \<notin> set ?rank" using show_int_no_tab(1) by (auto split: option.splits)
  moreover have "CHR 0x09 \<notin> set ?ports" using join_chars show_int_no_tab(1) by fastforce
  ultimately have "py_split CHR 0x09 (tsv_line r) = [show_int pid, ?rank, ?ports]"
    using show_int_no_tab(1) by (simp add: r tsv_line_def py_split_append py_split_no_sep)
  then show ?thesis using show_int_not_dash
    by (auto simp: tsv_row_def r ports_read int_of_def split: option.splits)
qed

lemma tsv_line_no_break: "c \<in> set (tsv_line r) \<Longrightarrow> \<not> is_break c"
proof -
  assume c: "c \<in> set (tsv_line r)"
  obtain pid rank ports where r: "r = (pid, rank, ports)" by (cases r) auto
  have "\<not> is_break CHR 0x09" "\<not> is_break CHR ''-''" "\<not> is_break CHR '',''" by (simp_all add: is_break_def)
  then show ?thesis using c show_int_no_break join_chars [of c "'',''" "map show_int ports"]
    by (auto simp: r tsv_line_def split: option.splits)
qed

lemma probe_ssh_reads: "probe_ssh (Some (0, concat (map (\<lambda>r. tsv_line r @ [CHR 0x0A]) rows))) = Inr rows"
proof -
  have "py_splitlines (concat (map (\<lambda>r. tsv_line r @ [CHR 0x0A]) rows)) = map tsv_line rows"
    using py_splitlines_unlines [of "map tsv_line rows"] tsv_line_no_break by (simp add: comp_def)
  moreover have "map_res tsv_row (map tsv_line rows) = Inr (map (\<lambda>r. [r]) rows)"
    by (induction rows) (simp_all add: tsv_row_line)
  ultimately show ?thesis by (simp add: probe_ssh_def)
qed

text \<open>The codes of the probe's own errors.\<close>

lemma row_codes:
  "int_of s \<noteq> Inl (Probe_Error c)" "stat_row x \<noteq> Inl (Probe_Error c)" "ps_row ln \<noteq> Inl (Probe_Error c)"
  "tcp_row ln \<noteq> Inl (Probe_Error c)"
proof -
  show i: "int_of s \<noteq> Inl (Probe_Error c)" for s by (simp add: int_of_def split: option.splits)
  show "stat_row x \<noteq> Inl (Probe_Error c)"
    by (auto simp: stat_row_def bind_res_Inl_iff i split: prod.splits option.splits list.splits)
  show "ps_row ln \<noteq> Inl (Probe_Error c)"
    by (auto simp: ps_row_def bind_res_Inl_iff i split: list.splits)
  show "tcp_row ln \<noteq> Inl (Probe_Error c)" by (simp add: tcp_row_def Let_def split: option.splits)
qed

lemma children_codes: "pid_children_map proc ps = Inl (Probe_Error c) \<Longrightarrow> c = 6"
  unfolding pid_children_map_def
  by (auto simp: bind_res_Inl_iff row_codes dest!: map_res_Inl split: if_splits option.splits)

lemma ports_codes: "listen_ports_by_pid ss tables fds = Inl (Probe_Error c) \<Longrightarrow> c = 5"
proof -
  have f: "(\<lambda>(pid_s, links). if \<not> py_isdigit pid_s then Inr [] else bind_res (int_of pid_s) (g links)) x \<noteq> Inl (Probe_Error c)"
    if "\<And>l p e. g l p \<noteq> Inl e" for g x
    using that by (cases x) (auto simp: bind_res_Inl_iff row_codes split: if_splits)
  assume "listen_ports_by_pid ss tables fds = Inl (Probe_Error c)"
  then show ?thesis unfolding listen_ports_by_pid_def listen_ports_by_pid_proc_def inode_ports_def
    by (auto simp: bind_res_Inl_iff row_codes f dest!: map_res_Inl split: ss_outcome.splits if_splits)
qed

lemma probe_codes: "probe_host h = Inl (Probe_Error code) \<Longrightarrow> code \<in> {3, 4, 5, 6}"
  by (auto simp: probe_host_def bind_res_Inl_iff dest: children_codes ports_codes split: option.splits if_splits)

section \<open>Pinned ranks\<close>







section \<open>Properties\<close>

text \<open>C37. The probe of a machine lists exactly the processes that descend from the process of the pid
  file and listen on a port: reachability in the process table, each once and in increasing order,
  with its rank and its sorted ports. The walk over the table ends on every table, cyclic ones
  included.\<close>

theorem probe_lists_descendants:
  assumes "probe_host h = Inr rows"
  shows "\<exists>table pairs root. pid_children_map (hs_proc h) (hs_ps h) = Inr table \<and>
    listen_ports_by_pid (hs_ss h) (hs_tcp h) (hs_fds h) = Inr pairs \<and>
    py_int (py_strip (the (hs_pidfile h))) = Some root \<and> hs_alive h root \<and>
    sorted (map fst rows) \<and> distinct (map fst rows) \<and>
    set rows = {(pid, rank_of_pid (hs_cmdline h) pid, ports_dict pairs pid) | pid.
      (root, pid) \<in> (set table)\<^sup>* \<and> ports_dict pairs pid \<noteq> []}"
proof -
  from assms obtain table pairs root where t: "pid_children_map (hs_proc h) (hs_ps h) = Inr table"
    "listen_ports_by_pid (hs_ss h) (hs_tcp h) (hs_fds h) = Inr pairs"
    "py_int (py_strip (the (hs_pidfile h))) = Some root" "hs_alive h root"
    and rows: "rows = map (\<lambda>pid. (pid, rank_of_pid (hs_cmdline h) pid, ports_dict pairs pid))
      (filter (\<lambda>pid. ports_dict pairs pid \<noteq> []) (sorted_list_of_set (process_tree table root)))"
    by (auto simp: probe_host_def bind_res_Inr_iff split: option.splits if_splits)
  have ids: "map fst rows = filter (\<lambda>pid. ports_dict pairs pid \<noteq> []) (sorted_list_of_set (process_tree table root))"
    by (simp add: rows comp_def)
  have "sorted (map fst rows)" "distinct (map fst rows)" unfolding ids by (simp_all add: sorted_wrt_filter)
  moreover have "set rows = {(pid, rank_of_pid (hs_cmdline h) pid, ports_dict pairs pid) | pid.
      (root, pid) \<in> (set table)\<^sup>* \<and> ports_dict pairs pid \<noteq> []}"
    using finite_process_tree [of table root] by (auto simp: rows process_tree_eq)
  ultimately show ?thesis using t by blast
qed

definition demo_host :: host where
  "demo_host = \<lparr>hs_pidfile = Some '' 10 '', hs_alive = (\<lambda>p. True),
     hs_proc = [(''10'', Some ''10 (vllm serve) S 1 10''), (''11'', Some ''11 (VLLM::Worker_TP0) S 10 10''), (''self'', None)],
     hs_ps = None, hs_ss = Ss_Output ''LISTEN 0 5 10.0.0.1:81 0.0.0.0:* users:((x,pid=11,fd=3))'',
     hs_tcp = [], hs_fds = [],
     hs_cmdline = (\<lambda>p. if p = 11 then Some ''VLLM::Worker_TP0'' else None)\<rparr>"

lemma demo_host_rows: "probe_host demo_host = Inr [(11, Some 0, [81])]"
  by code_simp

theorem probe_lists_descendants_witness:
  "probe_host demo_host = Inr [(11, Some 0, [81])] \<and>
   (\<exists>table. pid_children_map (hs_proc demo_host) (hs_ps demo_host) = Inr table)"
  using probe_lists_descendants [OF demo_host_rows] demo_host_rows by blast

text \<open>C38. The probe run on another machine gives the caller what the probe run locally gives: the rows,
  printed and read back, or the exit code as the same probe error.\<close>

theorem remote_probe_equals_local:
  assumes "local_probe_main host_at [''--local-probe'', pidfile] = Inr out"
  shows "probe_ssh (Some out) = probe_host (host_at pidfile)"
proof (cases "probe_host (host_at pidfile)")
  case (Inl e)
  then obtain code where e: "e = Probe_Error code" "out = (code, [])"
    using assms by (cases e) (auto simp: local_probe_main_def)
  moreover have "code \<noteq> 0" using probe_codes Inl e(1) by fastforce
  ultimately show ?thesis using Inl by (simp add: probe_ssh_def)
next
  case (Inr rows)
  then show ?thesis using assms probe_ssh_reads [of rows] by (auto simp: local_probe_main_def)
qed

theorem remote_probe_equals_local_witness:
  "\<exists>out. local_probe_main (\<lambda>f. demo_host) [''--local-probe'', ''f''] = Inr out \<and>
    probe_ssh (Some out) = Inr [(11, Some 0, [81])]"
proof -
  have "is_ok (local_probe_main (\<lambda>f. demo_host) [''--local-probe'', ''f''])"
    by (simp add: local_probe_main_def demo_host_rows)
  then obtain out where o: "local_probe_main (\<lambda>f. demo_host) [''--local-probe'', ''f''] = Inr out"
    unfolding is_ok_iff by blast
  have "probe_ssh (Some out) = Inr [(11, Some 0, [81])]"
    by (rule trans [OF remote_probe_equals_local [OF o] demo_host_rows])
  with o show ?thesis by (intro exI [of _ out] conjI)
qed



text \<open>C37. Two ranks may be given the same segment: nothing compares the segments of different ranks, so
  two processes that list the same listening port, as a parent and a child that inherited the socket
  do, resolve to a list with a repeated segment.\<close>

theorem ranks_may_share_segment:
  "intersect_rank_seg [''10.0.0.1:81''] [(11, Some 0, [81]), (12, Some 1, [81])] 2 [] =
    Inr [''10.0.0.1:81'', ''10.0.0.1:81'']"
  by code_simp

text \<open>Without a working probe a segment list is returned only for one rank, only if exactly one
  segment of the machine exists, and never for a worker known to be dead.\<close>

theorem unprobed_resolution_is_single:
  assumes "resolve_segments segs tp pidfile ssh ip (Inl (Probe_Error code)) = Inr out"
  shows "tp = 1 \<and> code \<noteq> 4 \<and> (\<exists>seg. out = [seg] \<and> {s \<in> set segs. on_host ip s} = {seg})"
proof -
  have c: "tp = 1" "code \<noteq> 4" "out = filter (on_host ip) segs" "length out = 1"
    using assms by (auto simp: resolve_segments_def Let_def split: if_splits)
  then obtain seg where "filter (on_host ip) segs = [seg]"
    by (metis One_nat_def length_0_conv length_Suc_conv)
  then show ?thesis using c by (metis list.set(1) list.set(2) set_filter)
qed

theorem unprobed_resolution_is_single_witness:
  "resolve_segments [''h:1'', ''g:1''] 1 ''f'' [] ''h'' (Inl (Probe_Error 3)) = Inr [''h:1'']"
proof -
  let ?r = "resolve_segments [''h:1'', ''g:1''] 1 ''f'' [] ''h'' (Inl (Probe_Error 3))"
  have "is_ok ?r" and h: "on_host ''h'' ''h:1''" by code_simp+
  then obtain out where r: "?r = Inr out" unfolding is_ok_iff by blast
  from unprobed_resolution_is_single [OF r] obtain seg where
    seg: "out = [seg]" "{s \<in> set [''h:1'', ''g:1'']. on_host ''h'' s} = {seg}" by blast
  have "''h:1'' \<in> {s \<in> set [''h:1'', ''g:1'']. on_host ''h'' s}" using h by simp
  then have "''h:1'' = seg" unfolding seg(2) by simp
  then show ?thesis using r seg(1) by simp
qed

end
