(* ===== verification/Keepalive.thy ===== *)
theory Keepalive
  imports Ledger_Laws
begin

text \<open>
  The loop that renews the leases of registered prefixes (\<^verbatim>\<open>loops.py\<close>, class \<^verbatim>\<open>KeepaliveLoop\<close>).

  The registrations are the ledger's keepalive table. A write handed to the ledger's thread ends in one
  of the ways of \<open>write_end\<close>. During a sweep other coroutines may change the ledger whenever the sweep
  waits: a \<open>sweep_turn\<close> holds what they do before the registration is looked at again and while the
  renewal is under way, and the answer of the renewal.
\<close>

section \<open>State and registration\<close>

record keepalive_loop =
  kl_interval :: time
  kl_window :: time
  kl_failures :: nat
  kl_task :: bool
  kl_stop :: bool

definition keepalive_init :: "time \<Rightarrow> time \<Rightarrow> kv_exn + keepalive_loop" where
  "keepalive_init interval_s window_s =
     (if interval_s \<le> 0 then Inl Kv_ValueError
      else if window_s \<le> 0 then Inl Kv_ValueError
      else Inr \<lparr>kl_interval = interval_s, kl_window = window_s, kl_failures = 0, kl_task = False, kl_stop = False\<rparr>)"

text \<open>\<open>W_Refused\<close>: the ledger's thread pool or the event loop is closed. A cancelled write may still have run.\<close>

datatype write_end = W_Written | W_Failed | W_Refused | W_Cancelled bool

definition note_failure :: "keepalive_loop \<Rightarrow> keepalive_loop" where
  "note_failure k = k\<lparr>kl_failures := Suc (kl_failures k)\<rparr>"

definition submit_ledger :: "write_end \<Rightarrow> (ledger \<Rightarrow> ledger) \<Rightarrow> keepalive_loop \<times> ledger \<Rightarrow> keepalive_loop \<times> ledger" where
  "submit_ledger w f = (\<lambda>(k, l). case w of
     W_Written \<Rightarrow> (k, f l)
   | W_Failed \<Rightarrow> (note_failure k, l)
   | W_Refused \<Rightarrow> (note_failure k, l)
   | W_Cancelled wrote \<Rightarrow> (k, if wrote then f l else l))"

definition kl_register ::
  "(string \<Rightarrow> string) \<Rightarrow> write_end \<Rightarrow> time \<Rightarrow> prefix \<Rightarrow> keepalive_loop \<times> ledger \<Rightarrow> keepalive_loop \<times> ledger" where
  "kl_register sha w now p = submit_ledger w (register_keepalive sha now p)"

definition kl_unregister ::
  "(string \<Rightarrow> string) \<Rightarrow> write_end \<Rightarrow> prefix \<Rightarrow> keepalive_loop \<times> ledger \<Rightarrow> keepalive_loop \<times> ledger" where
  "kl_unregister sha w p = submit_ledger w (unregister_keepalive sha p)"

text \<open>The awaited form: only a cancellation reaches the caller.\<close>

definition register_await ::
  "(string \<Rightarrow> string) \<Rightarrow> write_end \<Rightarrow> time \<Rightarrow> prefix \<Rightarrow> keepalive_loop \<times> ledger \<Rightarrow>
   (kv_exn + unit) \<times> keepalive_loop \<times> ledger" where
  "register_await sha w now p st =
     (case w of W_Cancelled wrote \<Rightarrow> (Inl CancelledError, submit_ledger w (register_keepalive sha now p) st)
      | _ \<Rightarrow> (Inr (), submit_ledger w (register_keepalive sha now p) st))"

definition kl_start :: "keepalive_loop \<Rightarrow> keepalive_loop" where
  "kl_start k = (if kl_task k then k else k\<lparr>kl_stop := False, kl_task := True\<rparr>)"

definition kl_stop_loop :: "keepalive_loop \<Rightarrow> keepalive_loop" where
  "kl_stop_loop k = k\<lparr>kl_stop := True, kl_task := False\<rparr>"

section \<open>One sweep\<close>

record sweep_turn =
  st_before :: "ledger \<Rightarrow> ledger"
  st_during :: "ledger \<Rightarrow> ledger"
  st_answer :: "kv_exn + bool"

text \<open>The result is the prefixes whose lease was asked for, how the sweep ended, and the ledger.\<close>

fun sweep_records ::
  "(string \<Rightarrow> string) \<Rightarrow> time \<Rightarrow> time \<Rightarrow> (keepalive_record \<times> sweep_turn) list \<Rightarrow> ledger \<Rightarrow>
   prefix list \<times> (kv_exn + unit) \<times> ledger" where
  "sweep_records sha window now [] l = ([], Inr (), l)"
| "sweep_records sha window now ((r, t) # rs) l =
    (let l1 = st_before t l in
     if now - ka_registered_at r \<ge> window
     then sweep_records sha window now rs (unregister_keepalive sha (ka_prefix r) l1)
     else if \<not> has_keepalive sha (ka_prefix r) l1
     then sweep_records sha window now rs l1
     else let l2 = st_during t l1 in
       case st_answer t of
         Inl QueryError \<Rightarrow> (let (ps, e, l') = sweep_records sha window now rs l2 in (ka_prefix r # ps, e, l'))
       | Inl e \<Rightarrow> ([ka_prefix r], Inl e, l2)
       | Inr present \<Rightarrow>
           (let (ps, e, l') = sweep_records sha window now rs
              (if present then l2 else unregister_keepalive sha (ka_prefix r) l2) in (ka_prefix r # ps, e, l')))"

definition sweep_once ::
  "(string \<Rightarrow> string) \<Rightarrow> time \<Rightarrow> time \<Rightarrow> (keepalive_record \<Rightarrow> sweep_turn) \<Rightarrow> ledger \<Rightarrow>
   prefix list \<times> (kv_exn + unit) \<times> ledger" where
  "sweep_once sha window now turn l = (case list_keepalive_records l of
     Inl e \<Rightarrow> ([], Inl Kv_ValueError, l)
   | Inr rs \<Rightarrow> sweep_records sha window now (map (\<lambda>r. (r, turn r)) rs) l)"

section \<open>The loop\<close>

text \<open>What happens when a sleep of the loop ends: a sweep, the stop flag is set, or the task is cancelled.\<close>

datatype loop_event = Sweep time "keepalive_record \<Rightarrow> sweep_turn" | Stopped | Cancelled

fun keepalive_run ::
  "(string \<Rightarrow> string) \<Rightarrow> time \<Rightarrow> loop_event list \<Rightarrow> ledger \<Rightarrow> (time \<times> prefix) list \<times> (kv_exn + unit) \<times> ledger" where
  "keepalive_run sha window [] l = ([], Inr (), l)"
| "keepalive_run sha window (Stopped # evs) l = ([], Inr (), l)"
| "keepalive_run sha window (Cancelled # evs) l = ([], Inl CancelledError, l)"
| "keepalive_run sha window (Sweep now turn # evs) l =
    (let (ps, e, l1) = sweep_once sha window now turn l in
     if e = Inl CancelledError then (map (Pair now) ps, e, l1)
     else let (qs, e2, l2) = keepalive_run sha window evs l1 in (map (Pair now) ps @ qs, e2, l2))"

section \<open>Sweeps without interference\<close>

text \<open>A turn in which no other coroutine touches the ledger and the renewal is answered.\<close>

definition quiet :: "sweep_turn \<Rightarrow> bool" where
  "quiet t = (st_before t = id \<and> st_during t = id \<and> (st_answer t = Inl QueryError \<or> is_ok (st_answer t)))"

definition dropped :: "time \<Rightarrow> time \<Rightarrow> keepalive_record \<Rightarrow> sweep_turn \<Rightarrow> bool" where
  "dropped window now r t = (now - ka_registered_at r \<ge> window \<or> st_answer t = Inr False)"

lemma sweep_records_quiet:
  assumes "ledger_ok sha l" "\<forall>(r, t) \<in> set rs. quiet t" "distinct (map (prefix_key sha \<circ> ka_prefix \<circ> fst) rs)"
    and "\<forall>(r, t) \<in> set rs. keepalive_view l (prefix_key sha (ka_prefix r)) \<noteq> None"
  shows "\<exists>l'. sweep_records sha window now rs l =
      (map (ka_prefix \<circ> fst) (filter (\<lambda>(r, t). now - ka_registered_at r < window) rs), Inr (), l') \<and>
    ledger_ok sha l' \<and> keepalive_view l' =
      (\<lambda>k. if \<exists>(r, t) \<in> set rs. k = prefix_key sha (ka_prefix r) \<and> dropped window now r t then None else keepalive_view l k)"
  using assms
proof (induction rs arbitrary: l)
  case Nil
  then show ?case by simp
next
  case (Cons a rs)
  obtain r t where a: "a = (r, t)" by (cases a)
  let ?k = "prefix_key sha (ka_prefix r)" and ?u = "unregister_keepalive sha (ka_prefix r) l"
  have q: "st_before t = id" "st_during t = id" "st_answer t = Inl QueryError \<or> is_ok (st_answer t)"
    using Cons.prems(2) by (auto simp: a quiet_def)
  have "?k \<notin> set (map (prefix_key sha \<circ> ka_prefix \<circ> fst) rs)" using Cons.prems(3) by (simp add: a)
  then have fresh: "\<forall>(r', t') \<in> set rs. prefix_key sha (ka_prefix r') \<noteq> ?k" by force
  have u: "ledger_ok sha ?u" "keepalive_view ?u = (keepalive_view l)(?k := None)"
    using kt.ok_unregister kt.view_unregister Cons.prems(1) by blast+
  have reg: "has_keepalive sha (ka_prefix r) l" using kt.registered_iff Cons.prems(1,4) by (auto simp: a)
  let ?l = "if dropped window now r t then ?u else l"
  have rest: "\<forall>(r', t') \<in> set rs. keepalive_view ?l (prefix_key sha (ka_prefix r')) \<noteq> None"
    using Cons.prems(4) fresh u(2) by (auto simp: a)
  have "ledger_ok sha ?l" using Cons.prems(1) u(1) by simp
  moreover have "\<forall>(r, t) \<in> set rs. quiet t" using Cons.prems(2) by simp
  moreover have "distinct (map (prefix_key sha \<circ> ka_prefix \<circ> fst) rs)" using Cons.prems(3) by (simp add: comp_def)
  ultimately obtain l' where
    ih: "sweep_records sha window now rs ?l =
      (map (ka_prefix \<circ> fst) (filter (\<lambda>(r, t). now - ka_registered_at r < window) rs), Inr (), l')" "ledger_ok sha l'"
      "keepalive_view l' = (\<lambda>k. if \<exists>(r, t) \<in> set rs. k = prefix_key sha (ka_prefix r) \<and> dropped window now r t
         then None else keepalive_view ?l k)" using Cons.IH [OF _ _ _ rest] by blast
  have "sweep_records sha window now (a # rs) l =
      (map (ka_prefix \<circ> fst) (filter (\<lambda>(r, t). now - ka_registered_at r < window) (a # rs)), Inr (), l')"
    using ih(1) q reg by (cases "st_answer t") (auto simp: a Let_def dropped_def split: if_splits)
  moreover have "keepalive_view l' = (\<lambda>k. if \<exists>(r, t) \<in> set (a # rs). k = prefix_key sha (ka_prefix r) \<and>
      dropped window now r t then None else keepalive_view l k)"
    unfolding ih(3) using u(2) by (auto simp: a fun_eq_iff)
  ultimately show ?case using ih(2) by blast
qed

lemma records_view:
  assumes "ledger_ok sha l"
  shows "\<exists>rs. list_keepalive_records l = Inr rs \<and> distinct (map (prefix_key sha \<circ> ka_prefix) rs) \<and>
    (\<forall>r \<in> set rs. keepalive_view l (prefix_key sha (ka_prefix r)) = Some (ka_prefix r, ka_registered_at r)) \<and>
    (\<forall>k p t. keepalive_view l k = Some (p, t) \<longrightarrow> k = prefix_key sha p \<and> \<lparr>ka_prefix = p, ka_registered_at = t\<rparr> \<in> set rs)"
proof -
  obtain rs where rs: "list_keepalive_records l = Inr rs" "distinct (map (prefix_key sha \<circ> ka_prefix) rs)"
    "\<forall>r \<in> set rs. keepalive_view l (prefix_key sha (ka_prefix r)) = Some (ka_prefix r, ka_registered_at r)"
    "dom (keepalive_view l) = (prefix_key sha \<circ> ka_prefix) ` set rs"
    using kt.records_ok [OF assms] by blast
  have "k = prefix_key sha p \<and> \<lparr>ka_prefix = p, ka_registered_at = t\<rparr> \<in> set rs" if v: "keepalive_view l k = Some (p, t)" for k p t
  proof -
    have "k \<in> dom (keepalive_view l)" using v by blast
    then obtain r where r: "r \<in> set rs" "k = prefix_key sha (ka_prefix r)" unfolding rs(4) by auto
    with rs(3) v have "ka_prefix r = p" "ka_registered_at r = t" by auto
    then have "r = \<lparr>ka_prefix = p, ka_registered_at = t\<rparr>" by (cases r) simp
    then show ?thesis using r by simp
  qed
  then show ?thesis using rs(1-3) by blast
qed

lemma dropped_of_record:
  assumes "\<forall>r \<in> set rs. keepalive_view l (prefix_key sha (ka_prefix r)) = Some (ka_prefix r, ka_registered_at r)"
    and "keepalive_view l k = Some (p, t)" "k = prefix_key sha p" "\<lparr>ka_prefix = p, ka_registered_at = t\<rparr> \<in> set rs"
  shows "(\<exists>(r, s) \<in> set (map (\<lambda>r. (r, turn r)) rs). k = prefix_key sha (ka_prefix r) \<and> dropped window now r s) \<longleftrightarrow>
    dropped window now \<lparr>ka_prefix = p, ka_registered_at = t\<rparr> (turn \<lparr>ka_prefix = p, ka_registered_at = t\<rparr>)"
    (is "_ \<longleftrightarrow> dropped window now ?r (turn ?r)")
proof -
  have same: "r = ?r" if r: "r \<in> set rs" "k = prefix_key sha (ka_prefix r)" for r
  proof -
    have "Some (ka_prefix r, ka_registered_at r) = Some (p, t)"
      using bspec [OF assms(1) r(1)] assms(2) by (simp add: r(2))
    then show ?thesis by (cases r) simp
  qed
  have "(\<exists>r \<in> set rs. k = prefix_key sha (ka_prefix r) \<and> dropped window now r (turn r)) \<longleftrightarrow> dropped window now ?r (turn ?r)"
  proof
    assume "\<exists>r \<in> set rs. k = prefix_key sha (ka_prefix r) \<and> dropped window now r (turn r)"
    then obtain r where "r \<in> set rs" "k = prefix_key sha (ka_prefix r)" "dropped window now r (turn r)" by blast
    then show "dropped window now ?r (turn ?r)" using same by simp
  qed (use assms(3,4) in \<open>intro bexI [of _ ?r]; simp\<close>)
  then show ?thesis by simp
qed

text \<open>What a quiet sweep makes of one registration.\<close>

definition after_sweep :: "time \<Rightarrow> time \<Rightarrow> (keepalive_record \<Rightarrow> sweep_turn) \<Rightarrow> prefix \<times> time \<Rightarrow> (prefix \<times> time) option" where
  "after_sweep window now turn = (\<lambda>(p, t). let r = \<lparr>ka_prefix = p, ka_registered_at = t\<rparr> in
     if dropped window now r (turn r) then None else Some (p, t))"

lemma sweep_once_quiet:
  assumes "ledger_ok sha l" "\<And>r. quiet (turn r)"
  shows "\<exists>ps l'. sweep_once sha window now turn l = (ps, Inr (), l') \<and> ledger_ok sha l' \<and>
    set ps = {p. \<exists>k t. keepalive_view l k = Some (p, t) \<and> now - t < window} \<and>
    keepalive_view l' = (\<lambda>k. Option.bind (keepalive_view l k) (after_sweep window now turn))"
proof -
  obtain rs where rs: "list_keepalive_records l = Inr rs" "distinct (map (prefix_key sha \<circ> ka_prefix) rs)"
    "\<forall>r \<in> set rs. keepalive_view l (prefix_key sha (ka_prefix r)) = Some (ka_prefix r, ka_registered_at r)"
    and own: "\<And>k p t. keepalive_view l k = Some (p, t) \<Longrightarrow> k = prefix_key sha p \<and> \<lparr>ka_prefix = p, ka_registered_at = t\<rparr> \<in> set rs"
    using records_view [OF assms(1)] by blast
  let ?rs = "map (\<lambda>r. (r, turn r)) rs"
  have "\<forall>(r, t) \<in> set ?rs. quiet t" "\<forall>(r, t) \<in> set ?rs. keepalive_view l (prefix_key sha (ka_prefix r)) \<noteq> None"
    using assms(2) rs(3) by auto
  moreover have "distinct (map (prefix_key sha \<circ> ka_prefix \<circ> fst) ?rs)" using rs(2) by (simp add: comp_def)
  ultimately obtain l' where
    l': "sweep_records sha window now ?rs l =
      (map (ka_prefix \<circ> fst) (filter (\<lambda>(r, t). now - ka_registered_at r < window) ?rs), Inr (), l')" "ledger_ok sha l'"
      "keepalive_view l' = (\<lambda>k. if \<exists>(r, t) \<in> set ?rs. k = prefix_key sha (ka_prefix r) \<and> dropped window now r t
         then None else keepalive_view l k)" using sweep_records_quiet [OF assms(1)] by blast
  have "keepalive_view l' k = Option.bind (keepalive_view l k) (after_sweep window now turn)" for k
  proof (cases "keepalive_view l k")
    case (Some v)
    obtain p t where v: "v = (p, t)" by (cases v)
    let ?r = "\<lparr>ka_prefix = p, ka_registered_at = t\<rparr>"
    have o: "k = prefix_key sha p" "?r \<in> set rs" using own Some v by blast+
    have "(\<exists>(r, s) \<in> set ?rs. k = prefix_key sha (ka_prefix r) \<and> dropped window now r s) \<longleftrightarrow> dropped window now ?r (turn ?r)"
      by (rule dropped_of_record [OF rs(3) _ o]) (simp add: Some v)
    then show ?thesis using Some v by (simp add: l'(3) after_sweep_def Let_def)
  qed (simp add: l'(3))
  moreover have "set (map (ka_prefix \<circ> fst) (filter (\<lambda>(r, t). now - ka_registered_at r < window) ?rs)) =
      {p. \<exists>k t. keepalive_view l k = Some (p, t) \<and> now - t < window}" (is "?A = ?B")
  proof
    show "?A \<subseteq> ?B" using rs(3) by fastforce
    show "?B \<subseteq> ?A" using own by force
  qed
  ultimately show ?thesis using l'(1,2) rs(1) unfolding sweep_once_def by (simp add: fun_eq_iff)
qed

section \<open>What sweeps guarantee\<close>

lemma sweep_records_asked:
  "sweep_records sha window now rs l = (ps, e, l') \<Longrightarrow> p \<in> set ps \<Longrightarrow>
   \<exists>(r, t) \<in> set rs. ka_prefix r = p \<and> now - ka_registered_at r < window"
proof (induction rs arbitrary: l ps e l')
  case (Cons a rs)
  obtain r t where a: "a = (r, t)" by (cases a)
  show ?case
  proof (cases "p = ka_prefix r \<and> now - ka_registered_at r < window")
    case False
    then have "\<exists>l1 ps1 e1 l2. sweep_records sha window now rs l1 = (ps1, e1, l2) \<and> p \<in> set ps1"
      using Cons.prems
      by (auto simp: a Let_def split: if_splits sum.splits kv_exn.splits prod.splits) blast+
    then show ?thesis using Cons.IH by fastforce
  qed (auto simp: a)
qed simp

text \<open>C36. Whatever other coroutines do during a sweep and however the renewals are answered, a sweep asks for
  the lease of a prefix only when the ledger it started from has a registration of that prefix that is
  younger than the keepalive window.\<close>

theorem renewals_within_window:
  assumes "ledger_ok sha l" "sweep_once sha window now turn l = (ps, e, l')" "p \<in> set ps"
  shows "\<exists>t. keepalive_view l (prefix_key sha p) = Some (p, t) \<and> now - t < window"
proof -
  obtain rs where rs: "list_keepalive_records l = Inr rs"
    "\<forall>r \<in> set rs. keepalive_view l (prefix_key sha (ka_prefix r)) = Some (ka_prefix r, ka_registered_at r)"
    using records_view [OF assms(1)] by blast
  have "sweep_records sha window now (map (\<lambda>r. (r, turn r)) rs) l = (ps, e, l')"
    using assms(2) by (simp add: sweep_once_def rs(1))
  from sweep_records_asked [OF this assms(3)] show ?thesis using rs(2) by auto
qed

text \<open>A sweep that nothing interferes with, whose renewals are answered or fail with a query error, ends
  normally; it asks for the lease of exactly the prefixes still inside their window, and keeps exactly the
  registrations that are inside their window and whose prefix the pool did not report as gone.\<close>

theorem quiet_sweep_exact:
  assumes "ledger_ok sha l" "\<And>r. quiet (turn r)" "sweep_once sha window now turn l = (ps, e, l')"
  shows "e = Inr () \<and> set ps = {p. \<exists>k t. keepalive_view l k = Some (p, t) \<and> now - t < window} \<and>
    keepalive_view l' = (\<lambda>k. Option.bind (keepalive_view l k) (after_sweep window now turn))"
  using sweep_once_quiet [OF assms(1), of turn window now, OF assms(2)] assms(3) by auto

definition quiet_sweep :: "loop_event \<Rightarrow> bool" where
  "quiet_sweep ev = (case ev of Sweep now turn \<Rightarrow> (\<forall>r. quiet (turn r)) | Stopped \<Rightarrow> False | Cancelled \<Rightarrow> False)"

lemma keepalive_run_step:
  assumes "ledger_ok sha l" "\<And>r. quiet (turn r)"
  shows "\<exists>l1. ledger_ok sha l1 \<and> keepalive_view l1 = (\<lambda>k. Option.bind (keepalive_view l k) (after_sweep window now turn)) \<and>
    snd (snd (keepalive_run sha window (Sweep now turn # evs) l)) = snd (snd (keepalive_run sha window evs l1))"
  using sweep_once_quiet [OF assms(1), of turn window now, OF assms(2)] by (auto simp: Let_def split: prod.splits)

lemma keepalive_gone_stays:
  assumes "ledger_ok sha l" "\<forall>ev \<in> set evs. quiet_sweep ev" "keepalive_view l k = None"
  shows "keepalive_view (snd (snd (keepalive_run sha window evs l))) k = None"
  using assms
proof (induction evs arbitrary: l)
  case (Cons ev evs)
  then obtain now turn where ev: "ev = Sweep now turn" "\<And>r. quiet (turn r)"
    by (cases ev) (auto simp: quiet_sweep_def)
  obtain l1 where l1: "ledger_ok sha l1" "keepalive_view l1 = (\<lambda>k. Option.bind (keepalive_view l k) (after_sweep window now turn))"
    "snd (snd (keepalive_run sha window (Sweep now turn # evs) l)) = snd (snd (keepalive_run sha window evs l1))"
    using keepalive_run_step [where turn = turn, OF Cons.prems(1) ev(2)] by blast
  have "keepalive_view l1 k = None" using Cons.prems(3) by (simp add: l1(2))
  then show ?case using Cons.IH [OF l1(1)] Cons.prems(2) by (simp add: ev(1) l1(3) del: keepalive_run.simps)
qed simp

text \<open>C35. Every registration that is not made again expires: once the loop has swept, undisturbed, at a time at
  which the window of a registration is over, that registration is gone from the ledger.\<close>

theorem keepalive_expires:
  assumes "ledger_ok sha l" "\<forall>ev \<in> set evs. quiet_sweep ev"
    and "keepalive_view l k = Some (p, t)" "Sweep now turn \<in> set evs" "t + window \<le> now"
  shows "keepalive_view (snd (snd (keepalive_run sha window evs l))) k = None"
  using assms
proof (induction evs arbitrary: l)
  case (Cons ev evs)
  then obtain at turn' where ev: "ev = Sweep at turn'" "\<And>r. quiet (turn' r)"
    by (cases ev) (auto simp: quiet_sweep_def)
  obtain l1 where l1: "ledger_ok sha l1" "keepalive_view l1 = (\<lambda>k. Option.bind (keepalive_view l k) (after_sweep window at turn'))"
    "snd (snd (keepalive_run sha window (Sweep at turn' # evs) l)) = snd (snd (keepalive_run sha window evs l1))"
    using keepalive_run_step [where turn = turn', OF Cons.prems(1) ev(2)] by blast
  have rest: "\<forall>ev \<in> set evs. quiet_sweep ev" using Cons.prems(2) by simp
  show ?case
  proof (cases "keepalive_view l1 k")
    case None
    then show ?thesis using keepalive_gone_stays [OF l1(1) rest] by (simp add: ev(1) l1(3) del: keepalive_run.simps)
  next
    case (Some v)
    then have "keepalive_view l1 k = Some (p, t)" "at < t + window"
      using Cons.prems(3) by (auto simp: l1(2) after_sweep_def Let_def dropped_def split: if_splits)
    moreover from this have "Sweep now turn \<in> set evs" using Cons.prems(4,5) ev(1) by auto
    ultimately show ?thesis using Cons.IH [OF l1(1) rest] Cons.prems(5) by (simp add: ev(1) l1(3) del: keepalive_run.simps)
  qed
qed simp

subsection \<open>The properties on a small ledger\<close>

definition demo_keepalives :: ledger where
  "demo_keepalives = register_keepalive (\<lambda>s. s) 4 demo_prefix (register_keepalive (\<lambda>s. s) 1 \<lparr>model_id = ''m'', token_ids = [2]\<rparr> ledger_open)"

definition demo_turn :: "keepalive_record \<Rightarrow> sweep_turn" where
  "demo_turn r = \<lparr>st_before = id, st_during = id, st_answer = Inr True\<rparr>"

lemma demo_keepalives_ok: "ledger_ok (\<lambda>s. s) demo_keepalives"
  unfolding demo_keepalives_def by (intro kt.ok_register ledger_ok_open)

lemma demo_turn_quiet: "quiet (demo_turn r)"
  by (simp add: quiet_def demo_turn_def is_ok_def)

theorem renewals_within_window_witness:
  "\<exists>t. keepalive_view demo_keepalives (prefix_key (\<lambda>s. s) demo_prefix) = Some (demo_prefix, t) \<and> 6 - t < 5"
proof (rule renewals_within_window [OF demo_keepalives_ok])
  let ?r = "sweep_once (\<lambda>s. s) 5 6 demo_turn demo_keepalives"
  show "?r = (fst ?r, fst (snd ?r), snd (snd ?r))" by simp
  show "demo_prefix \<in> set (fst ?r)" by code_simp
qed

theorem quiet_sweep_exact_witness:
  "fst (snd (sweep_once (\<lambda>s. s) 5 6 demo_turn demo_keepalives)) = Inr () \<and>
   set (fst (sweep_once (\<lambda>s. s) 5 6 demo_turn demo_keepalives)) =
     {p. \<exists>k t. keepalive_view demo_keepalives k = Some (p, t) \<and> 6 - t < 5}"
proof -
  let ?r = "sweep_once (\<lambda>s. s) 5 6 demo_turn demo_keepalives"
  have "?r = (fst ?r, fst (snd ?r), snd (snd ?r))" by simp
  from quiet_sweep_exact [OF demo_keepalives_ok demo_turn_quiet this] show ?thesis by simp
qed

theorem keepalive_expires_witness:
  "keepalive_view (snd (snd (keepalive_run (\<lambda>s. s) 5 [Sweep 6 demo_turn, Sweep 9 demo_turn] demo_keepalives)))
     (prefix_key (\<lambda>s. s) demo_prefix) = None"
proof (rule keepalive_expires [OF demo_keepalives_ok])
  show "\<forall>ev \<in> set [Sweep 6 demo_turn, Sweep 9 demo_turn]. quiet_sweep ev"
    by (simp add: quiet_sweep_def demo_turn_quiet)
  show "keepalive_view demo_keepalives (prefix_key (\<lambda>s. s) demo_prefix) = Some (demo_prefix, 4)" by code_simp
  show "Sweep 9 demo_turn \<in> set [Sweep 6 demo_turn, Sweep 9 demo_turn]" by simp
qed simp

end
