(* ===== verification/Prefetch.thy ===== *)
theory Prefetch
  imports Mooncake_Tracking
begin

text \<open>
  The prefetch flow (\<^verbatim>\<open>flows/prefetch.py\<close>): submit a copy, poll it to an end, and give the handle up on a
  timeout or a cancellation.

  The operations it calls are a record of functions; the arguments \<open>'c\<close> and \<open>'q\<close> hold what the store
  answers. The copy runs as a task of its own, so how the flow's wait for it ends (\<open>copy_wait\<close>) is separate
  from how the copy ends. Every round of the polling starts with what other coroutines did meanwhile. The
  locale \<open>flow_contract\<close> states what the flow relies on, and is interpreted on the mooncake backend.
\<close>

section \<open>The flow\<close>

record ('c, 'q, 's) flow_ops =
  fo_copy :: "'c \<Rightarrow> prefix \<Rightarrow> instance_id \<Rightarrow> 's \<Rightarrow> ((kv_exn + task_handle) \<times> 's) option"
  fo_query :: "'q \<Rightarrow> task_handle \<Rightarrow> 's \<Rightarrow> (kv_exn + task_status) \<times> 's"
  fo_abandon :: "task_handle \<Rightarrow> 's \<Rightarrow> (kv_exn + unit) \<times> 's"

definition flow_abandon ::
  "('c, 'q, 's) flow_ops \<Rightarrow> task_handle option \<Rightarrow> 's \<Rightarrow> (kv_exn + unit) \<times> 's" where
  "flow_abandon ops ho s = (case ho of
     None \<Rightarrow> (Inr (), s)
   | Some h \<Rightarrow>
       (case fo_abandon ops h s of
          (Inl Kv_KeyError, s') \<Rightarrow> (Inr (), s')
        | (Inl Sqlite_Error, s') \<Rightarrow> (Inr (), s')
        | (Inl Ledger_Shutdown, s') \<Rightarrow> (Inr (), s')
        | (r, s') \<Rightarrow> (r, s')))"

text \<open>Give a handle up, then raise.\<close>

definition give_up ::
  "('c, 'q, 's) flow_ops \<Rightarrow> task_handle option \<Rightarrow> kv_exn \<Rightarrow> 's \<Rightarrow> (kv_exn + 'r) \<times> 's" where
  "give_up ops ho e s = bind_st (flow_abandon ops ho s) (\<lambda>_ s. (Inl e, s))"

text \<open>\<open>Drained c\<close>: the copy has ended and its result is delivered, while the flow itself is (\<open>c\<close>) or is not
  being cancelled. \<open>Drain_Cancelled\<close>: a cancellation of the flow arrives although the copy has ended.\<close>

datatype drain = Drained bool | Drain_Cancelled

primrec drain_copy :: "drain \<Rightarrow> kv_exn + task_handle \<Rightarrow> kv_exn + task_handle option" where
  "drain_copy (Drained c) r = (case r of
     Inl e \<Rightarrow> if e = CancelledError \<and> \<not> c then Inr None else Inl e
   | Inr h \<Rightarrow> Inr (Some h))"
| "drain_copy Drain_Cancelled r = Inl CancelledError"

definition handed :: "kv_exn + task_handle \<Rightarrow> task_handle option" where
  "handed r = (case r of Inl e \<Rightarrow> None | Inr h \<Rightarrow> Some h)"

definition abandon_if_handed ::
  "('c, 'q, 's) flow_ops \<Rightarrow> kv_exn + task_handle \<Rightarrow> 's \<Rightarrow> (kv_exn + unit) \<times> 's" where
  "abandon_if_handed ops r s = flow_abandon ops (handed r) s"

datatype copy_wait = In_Time | Timed_Out drain | Shut_Down drain

definition copy_phase ::
  "('c, 'q, 's) flow_ops \<Rightarrow> copy_wait \<Rightarrow> kv_exn + task_handle \<Rightarrow> 's \<Rightarrow> (kv_exn + task_handle) \<times> 's" where
  "copy_phase ops w r s = (case w of
     In_Time \<Rightarrow>
       (case r of
          Inl (SubmitError ho) \<Rightarrow> give_up ops ho PrefetchError s
        | _ \<Rightarrow> (r, s))
   | Timed_Out d \<Rightarrow>
       (case drain_copy d r of
          Inl (SubmitError ho) \<Rightarrow> give_up ops ho PrefetchError s
        | Inl CancelledError \<Rightarrow> bind_st (abandon_if_handed ops r s) (\<lambda>_ s. (Inl CancelledError, s))
        | Inl e \<Rightarrow> (Inl e, s)
        | Inr ho \<Rightarrow> give_up ops ho PrefetchError s)
   | Shut_Down d \<Rightarrow>
       (case drain_copy d r of
          Inl CancelledError \<Rightarrow> bind_st (abandon_if_handed ops r s) (\<lambda>_ s. (Inl CancelledError, s))
        | Inl e \<Rightarrow> (Inl e, s)
        | Inr ho \<Rightarrow> give_up ops ho CancelledError s))"

text \<open>A round of the polling: what others did, the answer, and the clock after it; or the flow is cancelled
  while it sleeps. The rounds may run out, then the flow has not ended.\<close>

datatype ('q, 's) poll = Poll "'s \<Rightarrow> 's" 'q time | Poll_Cancelled "'s \<Rightarrow> 's"

fun poll_loop ::
  "('c, 'q, 's) flow_ops \<Rightarrow> time \<Rightarrow> task_handle \<Rightarrow> ('q, 's) poll list \<Rightarrow> 's \<Rightarrow> ((kv_exn + unit) \<times> 's) option" where
  "poll_loop ops deadline h [] s = None"
| "poll_loop ops deadline h (Poll_Cancelled f # ps) s = Some (Inl CancelledError, f s)"
| "poll_loop ops deadline h (Poll f q t # ps) s =
    (case fo_query ops q h (f s) of
       (Inl VerifyError, s1) \<Rightarrow> Some (Inl PrefetchError, s1)
     | (Inl QueryError, s1) \<Rightarrow>
         if t \<ge> deadline then Some (give_up ops (Some h) PrefetchError s1) else poll_loop ops deadline h ps s1
     | (Inl e, s1) \<Rightarrow> Some (Inl e, s1)
     | (Inr TS_READY, s1) \<Rightarrow> Some (Inr (), s1)
     | (Inr TS_FAILED, s1) \<Rightarrow> Some (Inl PrefetchError, s1)
     | (Inr _, s1) \<Rightarrow>
         if t \<ge> deadline then Some (give_up ops (Some h) PrefetchError s1) else poll_loop ops deadline h ps s1)"

definition follow_copy ::
  "('c, 'q, 's) flow_ops \<Rightarrow> time \<Rightarrow> task_handle \<Rightarrow> ('q, 's) poll list \<Rightarrow> 's \<Rightarrow> ((kv_exn + unit) \<times> 's) option" where
  "follow_copy ops deadline h ps s = (case poll_loop ops deadline h ps s of
     Some (Inl CancelledError, s') \<Rightarrow> Some (give_up ops (Some h) CancelledError s')
   | r \<Rightarrow> r)"

definition run_after_exists ::
  "('c, 'q, 's) flow_ops \<Rightarrow> 'c \<Rightarrow> copy_wait \<Rightarrow> ('q, 's) poll list \<Rightarrow> prefix \<Rightarrow> instance_id \<Rightarrow> time \<Rightarrow> time \<Rightarrow> 's \<Rightarrow>
   ((kv_exn + unit) \<times> 's) option" where
  "run_after_exists ops c w ps p target start timeout s = (case fo_copy ops c p target s of
     None \<Rightarrow> None
   | Some (r, s1) \<Rightarrow>
       (case copy_phase ops w r s1 of
          (Inl e, s2) \<Rightarrow> Some (Inl e, s2)
        | (Inr h, s2) \<Rightarrow> follow_copy ops (start + timeout) h ps s2))"

text \<open>\<open>there\<close> is the answer of \<^verbatim>\<open>exists\<close>.\<close>

definition run ::
  "('c, 'q, 's) flow_ops \<Rightarrow> kv_exn + bool \<Rightarrow> 'c \<Rightarrow> copy_wait \<Rightarrow> ('q, 's) poll list \<Rightarrow> prefix \<Rightarrow> instance_id \<Rightarrow>
   time \<Rightarrow> time \<Rightarrow> 's \<Rightarrow> ((kv_exn + unit) \<times> 's) option" where
  "run ops there c w ps p target start timeout s = (case there of
     Inl e \<Rightarrow> Some (Inl e, s)
   | Inr False \<Rightarrow> Some (Inl PrefetchError, s)
   | Inr True \<Rightarrow> run_after_exists ops c w ps p target start timeout s)"

section \<open>What the flow relies on\<close>

definition copy_handle :: "kv_exn + task_handle \<Rightarrow> task_handle option" where
  "copy_handle r = (case r of Inr h \<Rightarrow> Some h | Inl (SubmitError ho) \<Rightarrow> ho | Inl _ \<Rightarrow> None)"

text \<open>The results a flow ends with when nothing unforeseen was raised.\<close>

definition orderly :: "kv_exn + unit \<Rightarrow> bool" where
  "orderly r = (r = Inr () \<or> r = Inl PrefetchError \<or> r = Inl CancelledError)"

fun answer_of :: "('q, 's) poll \<Rightarrow> 'q option" where
  "answer_of (Poll f q t) = Some q"
| "answer_of (Poll_Cancelled f) = None"

fun others_of :: "('q, 's) poll \<Rightarrow> 's \<Rightarrow> 's" where
  "others_of (Poll f q t) = f"
| "others_of (Poll_Cancelled f) = f"

text \<open>What the other coroutines may do while the flow waits: they keep the invariant and leave the
  handles they do not own alone.\<close>

definition rely :: "('s \<Rightarrow> bool) \<Rightarrow> ('s \<Rightarrow> task_handle \<Rightarrow> bool) \<Rightarrow> ('s \<Rightarrow> 's) \<Rightarrow> bool" where
  "rely ok held f = (\<forall>s. ok s \<longrightarrow> ok (f s) \<and> (\<forall>h. held s h \<longrightarrow> held (f s) h))"

definition poll_ok ::
  "('s \<Rightarrow> bool) \<Rightarrow> ('s \<Rightarrow> task_handle \<Rightarrow> bool) \<Rightarrow> ('q \<Rightarrow> bool) \<Rightarrow> ('q, 's) poll \<Rightarrow> bool" where
  "poll_ok ok held answer_ok p = (rely ok held (others_of p) \<and> (\<forall>q. answer_of p = Some q \<longrightarrow> answer_ok q))"

text \<open>The copy was submitted in part, and the flow does not learn of the handle: it is cancelled while the
  copy's error is delivered, or it was cancelled before.\<close>

definition loses_handle :: "copy_wait \<Rightarrow> kv_exn + task_handle \<Rightarrow> bool" where
  "loses_handle w g = ((\<exists>h. g = Inl (SubmitError (Some h))) \<and>
     (case w of In_Time \<Rightarrow> False | Timed_Out d \<Rightarrow> d = Drain_Cancelled | Shut_Down d \<Rightarrow> True))"

lemma copy_phase_cases:
  assumes "\<not> loses_handle w g"
  shows "((\<forall>ho. g \<noteq> Inl (SubmitError ho)) \<and> copy_phase ops w g s = (g, s)) \<or> (\<exists>e. copy_phase ops w g s = give_up ops (copy_handle g) e s) \<or>
    (\<exists>e. g = Inl e \<and> copy_handle g = None \<and> copy_phase ops w g s = (Inl e, s))"
proof (cases w)
  case In_Time
  then show ?thesis by (auto simp: copy_phase_def copy_handle_def split: sum.splits kv_exn.splits)
next
  case (Timed_Out d)
  then show ?thesis using assms
    by (cases d; cases g; cases "projl g"; cases "case projl g of SubmitError ho \<Rightarrow> ho | _ \<Rightarrow> None")
      (auto simp: copy_phase_def copy_handle_def loses_handle_def abandon_if_handed_def handed_def give_up_def)
next
  case (Shut_Down d)
  then show ?thesis using assms
    by (cases d; cases g; cases "projl g"; cases "case projl g of SubmitError ho \<Rightarrow> ho | _ \<Rightarrow> None")
      (auto simp: copy_phase_def copy_handle_def loses_handle_def abandon_if_handed_def handed_def give_up_def)
qed

locale flow_contract =
  fixes ops :: "('c, 'q, 's) flow_ops"
    and inv :: "'s \<Rightarrow> bool"
    and held :: "'s \<Rightarrow> task_handle \<Rightarrow> bool"
    and settled :: "'s \<Rightarrow> task_handle \<Rightarrow> bool"
    and answer_ok :: "'q \<Rightarrow> bool"
    and copy_ok :: "'c \<Rightarrow> 's \<Rightarrow> bool"
  assumes query_law: "inv s \<Longrightarrow> held s h \<Longrightarrow> answer_ok q \<Longrightarrow> fo_query ops q h s = (r, s') \<Longrightarrow>
      inv s' \<and> r \<noteq> Inl PrefetchError \<and>
      (if r \<in> {Inr TS_READY, Inr TS_FAILED, Inl VerifyError} then settled s' h else held s' h)"
    and abandon_law: "inv s \<Longrightarrow> held s h \<Longrightarrow> fo_abandon ops h s = (u, s') \<Longrightarrow> u = Inr () \<and> inv s' \<and> settled s' h"
    and copy_law: "inv s \<Longrightarrow> copy_ok c s \<Longrightarrow> fo_copy ops c p target s = Some (g, s') \<Longrightarrow> inv s'"
begin

lemma give_up_settles:
  assumes "inv s" "held s h" "give_up ops (Some h) e s = (r, s')"
  shows "r = Inl e" "inv s'" "settled s' h"
proof -
  obtain s1 where "fo_abandon ops h s = (Inr (), s1)" "inv s1" "settled s1 h"
    using abandon_law [OF assms(1,2)] by (metis surj_pair)
  then show "r = Inl e" "inv s'" "settled s' h" using assms(3) by (auto simp: give_up_def flow_abandon_def)
qed

lemma poll_loop_settles:
  assumes "inv s" "held s h" "\<forall>p \<in> set ps. poll_ok inv held answer_ok p" "poll_loop ops deadline h ps s = Some (r, s')"
  shows "inv s' \<and> (if r = Inr () \<or> r = Inl PrefetchError then settled s' h else held s' h)"
  using assms
proof (induction ps arbitrary: s)
  case (Cons p ps)
  show ?case
  proof (cases p)
    case (Poll_Cancelled f)
    then show ?thesis using Cons.prems by (auto simp: poll_ok_def rely_def)
  next
    case (Poll f q t)
    have f: "inv (f s)" "held (f s) h" "answer_ok q" using Cons.prems(1-3) by (auto simp: Poll poll_ok_def rely_def)
    obtain x s1 where x: "fo_query ops q h (f s) = (x, s1)" by fastforce
    note ql = query_law [OF f x]
    have rest: "\<forall>p \<in> set ps. poll_ok inv held answer_ok p" using Cons.prems(3) by simp
    consider "x \<in> {Inr TS_READY, Inr TS_FAILED, Inl VerifyError}"
      | "x \<in> {Inr TS_PENDING, Inr TS_RUNNING, Inl QueryError}"
      | e where "x = Inl e" "e \<noteq> VerifyError" "e \<noteq> QueryError"
      by (cases x) (auto intro: task_status.exhaust)
    then show ?thesis
    proof cases
      case 1
      then show ?thesis using Cons.prems(4) ql by (auto simp: Poll x)
    next
      case 2
      then have s1: "inv s1" "held s1 h" using ql by auto
      from 2 have "(if t \<ge> deadline then Some (give_up ops (Some h) PrefetchError s1)
          else poll_loop ops deadline h ps s1) = Some (r, s')" using Cons.prems(4) by (auto simp: Poll x)
      then consider "give_up ops (Some h) PrefetchError s1 = (r, s')" | "poll_loop ops deadline h ps s1 = Some (r, s')"
        by (auto split: if_splits)
      then show ?thesis
      proof cases
        case 1
        from give_up_settles [OF s1 1] show ?thesis by simp
      next
        case 2
        then show ?thesis by (rule Cons.IH [OF s1 rest])
      qed
    next
      case 3
      then show ?thesis using Cons.prems(4) ql by (cases e) (auto simp: Poll x)
    qed
  qed
qed simp

lemma follow_copy_settles:
  assumes "inv s" "held s h" "\<forall>p \<in> set ps. poll_ok inv held answer_ok p" "follow_copy ops deadline h ps s = Some (r, s')" "orderly r"
  shows "settled s' h"
proof -
  obtain r1 s1 where l: "poll_loop ops deadline h ps s = Some (r1, s1)"
    using assms(4) by (cases "poll_loop ops deadline h ps s") (auto simp: follow_copy_def)
  note pl = poll_loop_settles [OF assms(1-3) l]
  show ?thesis
  proof (cases "r1 = Inl CancelledError")
    case True
    then have "give_up ops (Some h) CancelledError s1 = (r, s')" using assms(4) l by (simp add: follow_copy_def)
    moreover have "inv s1" "held s1 h" using pl True by auto
    ultimately show ?thesis using give_up_settles(3) by blast
  next
    case False
    then have "r = r1" "s' = s1" using assms(4) l by (auto simp: follow_copy_def split: sum.splits kv_exn.splits)
    then show ?thesis using pl assms(5) False by (auto simp: orderly_def)
  qed
qed

lemma copy_phase_settles:
  assumes "inv s" "held s h" "copy_phase ops w g s = (r, s')" "\<not> loses_handle w g" "copy_handle g = Some h"
  shows "(\<exists>e. r = Inl e \<and> settled s' h) \<or> (r = Inr h \<and> s' = s)"
proof -
  from copy_phase_cases [OF assms(4), of ops s] assms(3,5)
  consider "g = Inr h" "r = g" "s' = s" | e where "give_up ops (Some h) e s = (r, s')"
    by (auto simp: copy_handle_def split: sum.splits kv_exn.splits)
  then show ?thesis using give_up_settles [OF assms(1,2)] by cases auto
qed

lemma flow_settles:
  assumes "inv s" "copy_ok c s" "fo_copy ops c p target s = Some (g, s1)" "copy_handle g = Some h" "held s1 h"
    and "\<forall>p \<in> set ps. poll_ok inv held answer_ok p" "\<not> loses_handle w g"
    and "run_after_exists ops c w ps p target start timeout s = Some (r, s')" "orderly r"
  shows "settled s' h"
proof -
  note cl = copy_law [OF assms(1-3)]
  obtain r1 s2 where cp: "copy_phase ops w g s1 = (r1, s2)" by fastforce
  from copy_phase_settles [OF cl assms(5) cp assms(7,4)]
  consider e where "r1 = Inl e" "settled s2 h" | "r1 = Inr h" "s2 = s1" by blast
  then show ?thesis
  proof cases
    case 1
    then show ?thesis using assms(8) by (simp add: run_after_exists_def assms(3) cp)
  next
    case 2
    then have "follow_copy ops (start + timeout) h ps s1 = Some (r, s')"
      using assms(8) by (simp add: run_after_exists_def assms(3) cp)
    then show ?thesis using follow_copy_settles [OF cl assms(5,6)] assms(9) by blast
  qed
qed

end

end
