(* ===== verification/Prefetch_Run.thy ===== *)
theory Prefetch_Run
  imports Prefetch Keepalive
begin

text \<open>
  What a consumer of the task engine does with one intent (\<^verbatim>\<open>task_engine.py\<close>, \<^verbatim>\<open>_run_prefetch\<close> and the methods
  it calls): wait outside the gate until the target has room, take a permit of the gate, run the flow, give the
  permit back; then register the keepalive and publish the event. Also the tracking of handles recovered after
  a restart.

  A \<open>wait_round\<close> is one turn of the waiting loop: the clock at its start, the answer of the room check and the
  clock after it, how the wait for a permit ended and the clock after that, and how the flow ended.
\<close>

section \<open>Waiting for room\<close>

datatype gate_end = G_Acquired | G_Timeout | G_Cancelled

record wait_round =
  wr_start :: time
  wr_room :: "kv_exn + unit"
  wr_checked :: time
  wr_sleep_cancelled :: bool
  wr_gate :: gate_end
  wr_inside :: time
  wr_flow :: "kv_exn + unit"

text \<open>What the loop does to the gate: \<open>Run_Flow left\<close> is the flow, started with the rest of the budget.\<close>

datatype gate_act = Acquire | Run_Flow time | Release

fun wait_rounds :: "time \<Rightarrow> wait_round list \<Rightarrow> (kv_exn + unit) option \<times> gate_act list" where
  "wait_rounds deadline [] = (None, [])"
| "wait_rounds deadline (r # rs) =
    (if deadline - wr_start r \<le> 0 then (Some (Inl PrefetchError), [])
     else (case wr_room r of
       Inl QueryError \<Rightarrow> (Some (Inl (if deadline - wr_checked r \<le> 0 then PrefetchError else QueryError)), [])
     | Inl AdmissionWait \<Rightarrow>
         if deadline - wr_checked r \<le> 0 then (Some (Inl PrefetchError), [])
         else if wr_sleep_cancelled r then (Some (Inl CancelledError), [])
         else wait_rounds deadline rs
     | Inl AdmissionStop \<Rightarrow> (Some (Inl PrefetchError), [])
     | Inl e \<Rightarrow> (Some (Inl e), [])
     | Inr _ \<Rightarrow>
         if deadline - wr_checked r \<le> 0 then (Some (Inl PrefetchError), [])
         else (case wr_gate r of
           G_Timeout \<Rightarrow> (Some (Inl PrefetchError), [])
         | G_Cancelled \<Rightarrow> (Some (Inl CancelledError), [])
         | G_Acquired \<Rightarrow>
             if deadline - wr_inside r \<le> 0 then (Some (Inl PrefetchError), [Acquire, Release])
             else let acts = [Acquire, Run_Flow (deadline - wr_inside r), Release] in
               (case wr_flow r of
                  Inl AdmissionWait \<Rightarrow> (let (x, t) = wait_rounds deadline rs in (x, acts @ t))
                | Inl AdmissionStop \<Rightarrow> (Some (Inl PrefetchError), acts)
                | x \<Rightarrow> (Some x, acts)))))"

text \<open>The budget of the segments is opened before the first round and closed when the loop is left.\<close>

datatype run_act = Open_Budget | Gate gate_act | Close_Budget

definition wait_then_run :: "time \<Rightarrow> time \<Rightarrow> wait_round list \<Rightarrow> (kv_exn + unit) option \<times> run_act list" where
  "wait_then_run start timeout rs =
     (let (x, t) = wait_rounds (start + timeout) rs in
      (x, Open_Budget # map Gate t @ (if x = None then [] else [Close_Budget])))"

section \<open>A whole prefetch\<close>

text \<open>The limiter is asked until it agrees; without a limiter the prefetch starts at once.\<close>

fun throttle :: "bool list option \<Rightarrow> bool" where
  "throttle None = True"
| "throttle (Some []) = False"
| "throttle (Some (b # bs)) = (b \<or> throttle (Some bs))"

record ready_state =
  rs_keepalive :: keepalive_loop
  rs_ledger :: ledger
  rs_published :: "(prefix \<times> instance_id) list"

text \<open>\<open>w\<close> is the end of the keepalive write; \<open>publish\<close> whether the publisher takes the event, None without a publisher.
  A failed publication is logged only.\<close>

definition on_ready ::
  "(string \<Rightarrow> string) \<Rightarrow> write_end option \<Rightarrow> time \<Rightarrow> bool option \<Rightarrow> prefix option \<Rightarrow> instance_id option \<Rightarrow> ready_state \<Rightarrow>
   (kv_exn + unit) \<times> ready_state" where
  "on_ready sha w now publish po tgt s =
     bind_st
       (case (po, w) of
          (Some p, Some we) \<Rightarrow>
            (let (r, k, l) = register_await sha we now p (rs_keepalive s, rs_ledger s)
             in (r, s\<lparr>rs_keepalive := k, rs_ledger := l\<rparr>))
        | _ \<Rightarrow> (Inr (), s))
       (\<lambda>_ s. (Inr (), case (publish, po, tgt) of
          (Some True, Some p, Some i) \<Rightarrow> s\<lparr>rs_published := rs_published s @ [(p, i)]\<rparr>
        | _ \<Rightarrow> s))"

text \<open>The result is None while the limiter or the waiting has not come to an end.\<close>

definition run_prefetch ::
  "bool list option \<Rightarrow> kv_exn + bool \<Rightarrow> time \<Rightarrow> time \<Rightarrow> wait_round list \<Rightarrow> ('s \<Rightarrow> (kv_exn + unit) \<times> 's) \<Rightarrow> 's \<Rightarrow>
   ((kv_exn + unit) \<times> 's) option" where
  "run_prefetch limiter there start timeout rs ready s =
     (if \<not> throttle limiter then None
      else case there of
        Inl e \<Rightarrow> Some (Inl e, s)
      | Inr False \<Rightarrow> Some (Inl PrefetchError, s)
      | Inr True \<Rightarrow>
          (case fst (wait_then_run start timeout rs) of
             None \<Rightarrow> None
           | Some (Inl e) \<Rightarrow> Some (Inl e, s)
           | Some (Inr _) \<Rightarrow> Some (ready s)))"

section \<open>Recovered handles\<close>

fun track_loop ::
  "('c, 'q, 's) flow_ops \<Rightarrow> ('s \<Rightarrow> (kv_exn + unit) \<times> 's) \<Rightarrow> time \<Rightarrow> task_handle \<Rightarrow> ('q, 's) poll list \<Rightarrow> 's \<Rightarrow>
   ((kv_exn + unit) \<times> 's) option" where
  "track_loop ops ready deadline h [] s = None"
| "track_loop ops ready deadline h (Poll_Cancelled f # ps) s = Some (Inl CancelledError, f s)"
| "track_loop ops ready deadline h (Poll f q t # ps) s =
    (case fo_query ops q h (f s) of
       (Inl QueryError, s1) \<Rightarrow> if t \<ge> deadline then Some (fo_abandon ops h s1) else track_loop ops ready deadline h ps s1
     | (Inl VerifyError, s1) \<Rightarrow> Some (Inr (), s1)
     | (Inl Kv_KeyError, s1) \<Rightarrow> Some (Inr (), s1)
     | (Inl e, s1) \<Rightarrow> Some (Inl e, s1)
     | (Inr TS_READY, s1) \<Rightarrow> Some (ready s1)
     | (Inr TS_FAILED, s1) \<Rightarrow> Some (Inr (), s1)
     | (Inr _, s1) \<Rightarrow> if t \<ge> deadline then Some (fo_abandon ops h s1) else track_loop ops ready deadline h ps s1)"

definition track_handle ::
  "('c, 'q, 's) flow_ops \<Rightarrow> ('s \<Rightarrow> (kv_exn + unit) \<times> 's) \<Rightarrow> time \<Rightarrow> time \<Rightarrow> task_handle \<Rightarrow> ('q, 's) poll list \<Rightarrow> 's \<Rightarrow>
   ((kv_exn + unit) \<times> 's) option" where
  "track_handle ops ready start timeout h ps s = (case track_loop ops ready (start + timeout) h ps s of
     Some (Inl CancelledError, s1) \<Rightarrow>
       Some (case fo_abandon ops h s1 of
               (Inl Kv_KeyError, s2) \<Rightarrow> (Inl CancelledError, s2)
             | (Inl e, s2) \<Rightarrow> (Inl e, s2)
             | (Inr _, s2) \<Rightarrow> (Inl CancelledError, s2))
   | r \<Rightarrow> r)"

section \<open>The gate\<close>

text \<open>A permit is taken at most once, the flow runs only under it and with budget left, and it is given back.\<close>

fun gate_ok :: "time \<Rightarrow> bool \<Rightarrow> gate_act list \<Rightarrow> bool" where
  "gate_ok timeout held [] = (\<not> held)"
| "gate_ok timeout held (Acquire # t) = (\<not> held \<and> gate_ok timeout True t)"
| "gate_ok timeout held (Run_Flow left # t) = (held \<and> 0 < left \<and> left \<le> timeout \<and> gate_ok timeout held t)"
| "gate_ok timeout held (Release # t) = (held \<and> gate_ok timeout False t)"

lemma wait_rounds_gate:
  "\<forall>r \<in> set rs. start \<le> wr_inside r \<Longrightarrow> gate_ok timeout False (snd (wait_rounds (start + timeout) rs))"
proof (induction rs)
  case (Cons r rs)
  have "0 < start + timeout - wr_inside r \<Longrightarrow> start + timeout - wr_inside r \<le> timeout" using Cons.prems by simp
  then show ?case using Cons
    by (auto simp: Let_def split: sum.splits kv_exn.splits gate_end.splits prod.splits)
qed simp

lemma wait_rounds_ends:
  "r \<in> set rs \<Longrightarrow> deadline \<le> wr_start r \<Longrightarrow> fst (wait_rounds deadline rs) \<noteq> None"
proof (induction rs)
  case (Cons a rs)
  then show ?case
    by (auto simp: Let_def split: sum.splits kv_exn.splits gate_end.splits prod.splits)
qed simp

text \<open>C33. However often the target has no room and however the waits and the flow end, a prefetch ends once a round
  of its waiting starts at or past its deadline. By then it has closed the budget it opened; it started the copy
  only while it held exactly one permit of the gate and with a positive rest of its timeout, and it has given
  every permit back.\<close>

theorem waiting_ends_gate_free:
  assumes "\<forall>r \<in> set rs. start \<le> wr_inside r" "last_round \<in> set rs" "start + timeout \<le> wr_start last_round"
  shows "\<exists>x t. wait_then_run start timeout rs = (Some x, Open_Budget # map Gate t @ [Close_Budget]) \<and> gate_ok timeout False t"
proof -
  obtain x t where w: "wait_rounds (start + timeout) rs = (Some x, t)"
    using wait_rounds_ends [OF assms(2,3)] by (metis eq_fst_iff not_Some_eq)
  then have "gate_ok timeout False t" using wait_rounds_gate [OF assms(1), of timeout] by simp
  then show ?thesis using w by (auto simp: wait_then_run_def)
qed

definition demo_rounds :: "wait_round list" where
  "demo_rounds = [\<lparr>wr_start = 2, wr_room = Inr (), wr_checked = 2, wr_sleep_cancelled = False, wr_gate = G_Acquired,
     wr_inside = 3, wr_flow = Inl AdmissionWait\<rparr>, \<lparr>wr_start = 9, wr_room = Inr (), wr_checked = 9, wr_sleep_cancelled = False,
     wr_gate = G_Acquired, wr_inside = 9, wr_flow = Inr ()\<rparr>]"

theorem waiting_ends_gate_free_witness:
  "\<exists>x t. wait_then_run 2 5 demo_rounds = (Some x, Open_Budget # map Gate t @ [Close_Budget]) \<and> gate_ok 5 False t"
  by (rule waiting_ends_gate_free [where last_round = "demo_rounds ! 1"]) (simp_all add: demo_rounds_def)

end
