(* ===== verification/Task_Engine.thy ===== *)
theory Task_Engine
  imports Ledger_Laws
begin

text \<open>
  The intent queue (\<^verbatim>\<open>task_engine.py\<close>, class \<^verbatim>\<open>TaskEngine\<close>): idempotent submission from the threads of the
  server, admission on the event loop, consumers, receipts and shutdown.

  The code compares records by identity, so records are objects at addresses: \<open>te_store\<close> is the heap,
  \<open>te_records\<close> and the queue hold addresses. A submission runs on a thread of its own and is cut into the parts
  that are atomic there: the check, the insertion, and the posting of \<^verbatim>\<open>_admit\<close> to the loop. What a prefetch
  does is a value here; its course is the subject of the theory of the prefetch run.
\<close>

section \<open>State\<close>

datatype intent_state = IS_PENDING | IS_READY | IS_FAILED

definition intent_id_of :: "(string \<Rightarrow> string) \<Rightarrow> prefix \<Rightarrow> instance_id \<Rightarrow> string" where
  "intent_id_of sha p target = prefix_key sha p @ ''|'' @ target"

record intent_record =
  ir_intent_id :: string
  ir_prefix :: prefix
  ir_target :: instance_id
  ir_poll :: time
  ir_timeout :: time
  ir_status :: intent_state
  ir_detail :: string
  ir_queued :: bool

record finished =
  fin_status :: intent_state
  fin_detail :: string

text \<open>The arguments of \<^verbatim>\<open>_admit\<close>.\<close>

record admit_args =
  aa_key :: string
  aa_prefix :: prefix
  aa_target :: instance_id
  aa_poll :: time
  aa_timeout :: time

datatype consumer = C_Idle | C_Busy nat | C_Done

datatype caller = Checked admit_args | Inserted admit_args

datatype engine_phase = Serving | Stopping | Shut

record engine =
  te_store :: "nat \<Rightarrow> intent_record"
  te_next :: nat
  te_records :: "(string, nat) dict"
  te_finished :: "(string, finished) dict"
  te_finished_max :: nat
  te_queue :: "nat list"
  te_queue_size :: nat
  te_unfinished :: int
  te_accepting :: bool
  te_loop :: bool
  te_errors :: nat
  te_consumer_count :: nat
  te_consumers :: "consumer list"
  te_listed :: bool
  te_callers :: "caller list"
  te_admits :: "admit_args list"
  te_phase :: engine_phase

definition new_record :: "admit_args \<Rightarrow> intent_record" where
  "new_record a = \<lparr>ir_intent_id = aa_key a, ir_prefix = aa_prefix a, ir_target = aa_target a, ir_poll = aa_poll a,
     ir_timeout = aa_timeout a, ir_status = IS_PENDING, ir_detail = [], ir_queued = False\<rparr>"

definition engine_init :: "int \<Rightarrow> nat \<Rightarrow> nat option \<Rightarrow> nat \<Rightarrow> kv_exn + engine" where
  "engine_init max_concurrent queue_size consumer_count finished_max =
     (if max_concurrent \<le> 0 then Inl Kv_ValueError
      else Inr \<lparr>te_store = (\<lambda>_. new_record \<lparr>aa_key = [], aa_prefix = \<lparr>model_id = [], token_ids = []\<rparr>, aa_target = [], aa_poll = 0, aa_timeout = 0\<rparr>),
        te_next = 0, te_records = [], te_finished = [], te_finished_max = max 1 finished_max,
        te_queue = [], te_queue_size = queue_size, te_unfinished = 0, te_accepting = True, te_loop = False, te_errors = 0,
        te_consumer_count = (case consumer_count of Some (Suc n) \<Rightarrow> Suc n | _ \<Rightarrow> max 16 (nat (max_concurrent * 4))),
        te_consumers = [], te_listed = True, te_callers = [], te_admits = [], te_phase = Serving\<rparr>)"

definition engine_start :: "engine \<Rightarrow> engine" where
  "engine_start s = s\<lparr>te_loop := True, te_consumers := te_consumers s @ replicate (te_consumer_count s) C_Idle\<rparr>"

section \<open>Receipts\<close>

text \<open>The receipts keep the newest \<open>m\<close> entries.\<close>

definition evict :: "nat \<Rightarrow> ('k, 'v) dict \<Rightarrow> ('k, 'v) dict" where
  "evict m xs = drop (length xs - m) xs"

definition finish :: "nat \<Rightarrow> intent_state \<Rightarrow> string \<Rightarrow> engine \<Rightarrow> engine" where
  "finish a status detail s =
     (let r = te_store s a; key = ir_intent_id r in
      if map_of (te_records s) key \<noteq> Some a then s
      else if ir_status r \<noteq> IS_PENDING then s
      else s\<lparr>te_store := (te_store s)(a := r\<lparr>ir_status := status, ir_detail := detail\<rparr>),
             te_finished := evict (te_finished_max s)
               (AList.delete key (te_finished s) @ [(key, \<lparr>fin_status = status, fin_detail = detail\<rparr>)]),
             te_records := AList.delete key (te_records s)\<rparr>)"

definition intent_status :: "string \<Rightarrow> engine \<Rightarrow> intent_state option" where
  "intent_status key s = (case map_of (te_records s) key of
     Some a \<Rightarrow> Some (ir_status (te_store s a))
   | None \<Rightarrow> map_option fin_status (map_of (te_finished s) key))"

definition intent_detail :: "string \<Rightarrow> engine \<Rightarrow> string" where
  "intent_detail key s = (case map_of (te_records s) key of
     Some a \<Rightarrow> ir_detail (te_store s a)
   | None \<Rightarrow> (case map_of (te_finished s) key of Some f \<Rightarrow> fin_detail f | None \<Rightarrow> []))"

section \<open>Submission\<close>

definition submit_check ::
  "(string \<Rightarrow> string) \<Rightarrow> prefix \<Rightarrow> instance_id \<Rightarrow> time \<Rightarrow> time \<Rightarrow> engine \<Rightarrow> kv_exn + admit_args" where
  "submit_check sha p target poll_s timeout_s s =
     (if \<not> te_accepting s then Inl Kv_RuntimeError
      else if \<not> te_loop s then Inl Kv_RuntimeError
      else Inr \<lparr>aa_key = intent_id_of sha p target, aa_prefix = p, aa_target = target, aa_poll = poll_s, aa_timeout = timeout_s\<rparr>)"

text \<open>\<^verbatim>\<open>setdefault\<close>: whether the new record was inserted.\<close>

definition insert_record :: "admit_args \<Rightarrow> engine \<Rightarrow> bool \<times> engine" where
  "insert_record args s =
     (if map_of (te_records s) (aa_key args) \<noteq> None then (False, s)
      else (True, s\<lparr>te_store := (te_store s)(te_next s := new_record args), te_next := Suc (te_next s),
                    te_records := AList.update (aa_key args) (te_next s) (te_records s)\<rparr>))"

definition post_admit :: "admit_args \<Rightarrow> engine \<Rightarrow> engine" where
  "post_admit args s = s\<lparr>te_admits := te_admits s @ [args]\<rparr>"

text \<open>The whole call, when no other thread runs in between.\<close>

definition submit_intent ::
  "(string \<Rightarrow> string) \<Rightarrow> prefix \<Rightarrow> instance_id \<Rightarrow> time \<Rightarrow> time \<Rightarrow> engine \<Rightarrow> (kv_exn + string) \<times> engine" where
  "submit_intent sha p target poll_s timeout_s s =
     (case submit_check sha p target poll_s timeout_s s of
        Inl e \<Rightarrow> (Inl e, s)
      | Inr args \<Rightarrow>
          (case insert_record args s of
             (False, s1) \<Rightarrow> (Inr (aa_key args), s1)
           | (True, s1) \<Rightarrow> (Inr (aa_key args), post_admit args s1)))"

section \<open>Admission\<close>

definition never_started :: string where
  "never_started = ''cancelled (shutdown, never started)''"

definition mark_queued :: "nat \<Rightarrow> engine \<Rightarrow> engine" where
  "mark_queued a s = s\<lparr>te_store := (te_store s)(a := (te_store s a)\<lparr>ir_queued := True\<rparr>)\<rparr>"

definition put_nowait :: "nat \<Rightarrow> engine \<Rightarrow> engine" where
  "put_nowait a s =
     (if te_queue_size s > 0 \<and> length (te_queue s) \<ge> te_queue_size s then finish a IS_FAILED ''rejected (queue full)'' s
      else s\<lparr>te_queue := te_queue s @ [a], te_unfinished := te_unfinished s + 1\<rparr>)"

definition admit :: "admit_args \<Rightarrow> engine \<Rightarrow> engine" where
  "admit args s =
     (if \<not> te_accepting s then
        (let s1 = snd (insert_record args s); a = the (map_of (te_records s1) (aa_key args)); r = te_store s1 a in
         if ir_queued r \<or> ir_status r \<noteq> IS_PENDING then s1 else finish a IS_FAILED never_started s1)
      else
        (let s1 = snd (insert_record args s); a = the (map_of (te_records s1) (aa_key args)) in
         if ir_queued (te_store s1 a) then s1 else put_nowait a (mark_queued a s1)))"

section \<open>Consumers\<close>

definition task_done :: "engine \<Rightarrow> engine" where
  "task_done s = s\<lparr>te_unfinished := te_unfinished s - 1\<rparr>"

fun fail_all :: "nat list \<Rightarrow> engine \<Rightarrow> engine" where
  "fail_all [] s = s"
| "fail_all (a # q) s = fail_all q (task_done (finish a IS_FAILED never_started (s\<lparr>te_queue := q\<rparr>)))"

definition fail_never_started :: "engine \<Rightarrow> engine" where
  "fail_never_started s = fail_all (te_queue s) s"

definition take_intent :: "nat \<Rightarrow> engine \<Rightarrow> engine" where
  "take_intent i s = s\<lparr>te_queue := tl (te_queue s), te_consumers := (te_consumers s)[i := C_Busy (hd (te_queue s))]\<rparr>"

definition others_done :: "nat \<Rightarrow> engine \<Rightarrow> bool" where
  "others_done i s = (te_listed s \<longrightarrow> (\<forall>j < length (te_consumers s). j \<noteq> i \<longrightarrow> te_consumers s ! j = C_Done))"

definition set_consumer :: "nat \<Rightarrow> consumer \<Rightarrow> engine \<Rightarrow> engine" where
  "set_consumer i c s = s\<lparr>te_consumers := (te_consumers s)[i := c]\<rparr>"

text \<open>The end of one turn of \<^verbatim>\<open>_consume_loop\<close>: the prefetch of the record at \<open>a\<close> ended with \<open>r\<close>; \<open>text\<close> is the
  type and message of its exception.\<close>

definition consumer_end :: "nat \<Rightarrow> nat \<Rightarrow> kv_exn + unit \<Rightarrow> string \<Rightarrow> engine \<Rightarrow> engine" where
  "consumer_end i a r text s = (case r of
     Inr _ \<Rightarrow> set_consumer i C_Idle (task_done ((finish a IS_READY [] s)\<lparr>te_errors := 0\<rparr>))
   | Inl e \<Rightarrow>
       if e = CancelledError
       then set_consumer i C_Done (task_done (finish a IS_FAILED ''cancelled (shutdown)'' s))
       else if e \<in> {PrefetchError, QueryError, IntentInputError}
       then set_consumer i C_Idle (task_done (finish a IS_FAILED (take 500 text) (s\<lparr>te_errors := 0\<rparr>)))
       else
         (let s1 = finish a IS_FAILED (take 500 text) s; s2 = s1\<lparr>te_errors := Suc (te_errors s1)\<rparr>;
              s3 = (if te_errors s2 \<ge> 3 \<or> others_done i s2 then fail_never_started (s2\<lparr>te_accepting := False\<rparr>) else s2)
          in set_consumer i C_Done (task_done s3)))"

section \<open>Shutdown\<close>

text \<open>The part before the wait for the cancelled consumers, and the part after it.\<close>

definition shutdown_begin :: "engine \<Rightarrow> engine" where
  "shutdown_begin s = s\<lparr>te_accepting := False, te_phase := Stopping\<rparr>"

fun fail_unqueued :: "nat list \<Rightarrow> engine \<Rightarrow> engine" where
  "fail_unqueued [] s = s"
| "fail_unqueued (a # as) s = fail_unqueued as
    (if ir_status (te_store s a) = IS_PENDING \<and> \<not> ir_queued (te_store s a) then finish a IS_FAILED never_started s else s)"

definition shutdown_end :: "engine \<Rightarrow> engine" where
  "shutdown_end s = (let s1 = fail_never_started (s\<lparr>te_listed := False\<rparr>) in
     (fail_unqueued (map snd (te_records s1)) s1)\<lparr>te_phase := Shut\<rparr>)"

section \<open>Runs\<close>

definition drop_nth :: "nat \<Rightarrow> 'a list \<Rightarrow> 'a list" where
  "drop_nth i xs = take i xs @ drop (Suc i) xs"

inductive engine_step :: "(string \<Rightarrow> string) \<Rightarrow> engine \<Rightarrow> engine \<Rightarrow> bool" for sha where
  es_check: "submit_check sha p target poll_s timeout_s s = Inr args \<Longrightarrow>
    engine_step sha s (s\<lparr>te_callers := te_callers s @ [Checked args]\<rparr>)"
| es_insert: "i < length (te_callers s) \<Longrightarrow> te_callers s ! i = Checked args \<Longrightarrow> insert_record args s = (new, s1) \<Longrightarrow>
    engine_step sha s (s1\<lparr>te_callers := (if new then (te_callers s)[i := Inserted args] else drop_nth i (te_callers s))\<rparr>)"
| es_post: "i < length (te_callers s) \<Longrightarrow> te_callers s ! i = Inserted args \<Longrightarrow>
    engine_step sha s ((post_admit args s)\<lparr>te_callers := drop_nth i (te_callers s)\<rparr>)"
| es_admit: "te_admits s = args # rest \<Longrightarrow> engine_step sha s (admit args (s\<lparr>te_admits := rest\<rparr>))"
| es_take: "i < length (te_consumers s) \<Longrightarrow> te_consumers s ! i = C_Idle \<Longrightarrow> te_queue s \<noteq> [] \<Longrightarrow>
    engine_step sha s (take_intent i s)"
| es_end: "i < length (te_consumers s) \<Longrightarrow> te_consumers s ! i = C_Busy a \<Longrightarrow>
    (r = Inl CancelledError \<Longrightarrow> te_phase s \<noteq> Serving) \<Longrightarrow> engine_step sha s (consumer_end i a r text s)"
| es_cancel: "i < length (te_consumers s) \<Longrightarrow> te_consumers s ! i = C_Idle \<Longrightarrow> te_phase s \<noteq> Serving \<Longrightarrow>
    engine_step sha s (set_consumer i C_Done s)"
| es_shutdown: "te_phase s = Serving \<Longrightarrow> engine_step sha s (shutdown_begin s)"
| es_shutdown_end: "te_phase s = Stopping \<Longrightarrow> engine_step sha s (shutdown_end s)"

end
