(* ===== verification/Task_Engine_Laws.thy ===== *)
theory Task_Engine_Laws
  imports Task_Engine
begin

text \<open>
  The intent queue over every interleaving of submitting threads, loop callbacks, consumers and shutdown: each
  pending intent is owned by exactly one queue entry, consumer or callback, so that a key is never executed
  twice at once and never forgotten; receipts are bounded and final.
\<close>

section \<open>Ownership\<close>

fun holds :: "consumer \<Rightarrow> nat list" where
  "holds (C_Busy a) = [a]"
| "holds C_Idle = []"
| "holds C_Done = []"

definition busy :: "engine \<Rightarrow> nat list" where
  "busy s = concat (map holds (te_consumers s))"

fun caller_key :: "caller \<Rightarrow> string option" where
  "caller_key (Checked args) = None"
| "caller_key (Inserted args) = Some (aa_key args)"

definition coming :: "engine \<Rightarrow> string set" where
  "coming s = {k. \<exists>c \<in> set (te_callers s). caller_key c = Some k} \<union> aa_key ` set (te_admits s)"

text \<open>\<open>A\<close> is the addresses in the queue and with the consumers, \<open>K\<close> the keys whose admission is still to come.\<close>

definition owned :: "nat set \<Rightarrow> string set \<Rightarrow> engine \<Rightarrow> bool" where
  "owned A K s = (
     (\<forall>k a. map_of (te_records s) k = Some a \<longrightarrow> a < te_next s \<and> ir_intent_id (te_store s a) = k \<and>
        ir_status (te_store s a) = IS_PENDING \<and> (if ir_queued (te_store s a) then a \<in> A else k \<in> K)) \<and>
     (\<forall>a \<in> A. map_of (te_records s) (ir_intent_id (te_store s a)) = Some a \<and> ir_queued (te_store s a)))"

lemma ownedI:
  assumes "\<And>k a. map_of (te_records s) k = Some a \<Longrightarrow> a < te_next s \<and> ir_intent_id (te_store s a) = k \<and>
      ir_status (te_store s a) = IS_PENDING \<and> (if ir_queued (te_store s a) then a \<in> A else k \<in> K)"
    and "\<And>a. a \<in> A \<Longrightarrow> map_of (te_records s) (ir_intent_id (te_store s a)) = Some a \<and> ir_queued (te_store s a)"
  shows "owned A K s"
  using assms by (simp add: owned_def)

lemma owned_record:
  assumes "owned A K s" "map_of (te_records s) k = Some a"
  shows "a < te_next s" "ir_intent_id (te_store s a) = k" "ir_status (te_store s a) = IS_PENDING"
    "ir_queued (te_store s a) \<Longrightarrow> a \<in> A" "\<not> ir_queued (te_store s a) \<Longrightarrow> k \<in> K"
  using assms by (simp_all add: owned_def)

lemma owned_entry:
  assumes "owned A K s" "a \<in> A"
  shows "map_of (te_records s) (ir_intent_id (te_store s a)) = Some a" "ir_queued (te_store s a)"
  using assms by (simp_all add: owned_def)

lemma owned_mono: "owned A K s \<Longrightarrow> K \<subseteq> L \<Longrightarrow> owned A L s"
  by (rule ownedI) (auto dest: owned_record owned_entry)

lemma owned_other_fields:
  "owned A K (s\<lparr>te_queue := q\<rparr>) = owned A K s" "owned A K (s\<lparr>te_unfinished := n\<rparr>) = owned A K s"
  "owned A K (s\<lparr>te_errors := m\<rparr>) = owned A K s" "owned A K (s\<lparr>te_accepting := b\<rparr>) = owned A K s"
  "owned A K (s\<lparr>te_consumers := cs\<rparr>) = owned A K s" "owned A K (s\<lparr>te_listed := b\<rparr>) = owned A K s"
  "owned A K (s\<lparr>te_callers := cl\<rparr>) = owned A K s" "owned A K (s\<lparr>te_admits := ad\<rparr>) = owned A K s"
  "owned A K (s\<lparr>te_phase := ph\<rparr>) = owned A K s"
  by (simp_all add: owned_def)

lemma finish_cases:
  obtains "finish a st d s = s" "map_of (te_records s) (ir_intent_id (te_store s a)) \<noteq> Some a \<or> ir_status (te_store s a) \<noteq> IS_PENDING"
  | "map_of (te_records s) (ir_intent_id (te_store s a)) = Some a" "ir_status (te_store s a) = IS_PENDING"
    "te_store (finish a st d s) = (te_store s)(a := (te_store s a)\<lparr>ir_status := st, ir_detail := d\<rparr>)"
    "map_of (te_records (finish a st d s)) = (map_of (te_records s))(ir_intent_id (te_store s a) := None)"
  by (auto simp: finish_def Let_def AList.delete_conv' split: if_splits)

lemma finish_fields [simp]:
  "te_next (finish a st d s) = te_next s" "te_queue (finish a st d s) = te_queue s"
  "te_queue_size (finish a st d s) = te_queue_size s"
  "te_unfinished (finish a st d s) = te_unfinished s" "te_accepting (finish a st d s) = te_accepting s"
  "te_errors (finish a st d s) = te_errors s" "te_consumers (finish a st d s) = te_consumers s"
  "te_listed (finish a st d s) = te_listed s" "te_callers (finish a st d s) = te_callers s"
  "te_admits (finish a st d s) = te_admits s" "te_phase (finish a st d s) = te_phase s"
  "te_finished_max (finish a st d s) = te_finished_max s" "te_loop (finish a st d s) = te_loop s"
  by (simp_all add: finish_def Let_def)

lemma finish_owned:
  assumes "owned A K s"
  shows "owned (A - {a}) K (finish a st d s)"
proof (cases rule: finish_cases [of a st d s])
  case 1
  then have "a \<notin> A" using owned_entry [OF assms, of a] owned_record(3) [OF assms] by blast
  then show ?thesis using assms 1(1) by simp
next
  case 2
  let ?s = "finish a st d s" and ?k = "ir_intent_id (te_store s a)"
  show ?thesis
  proof (rule ownedI)
    fix k b
    assume b: "map_of (te_records ?s) k = Some b"
    then have "k \<noteq> ?k" and b: "map_of (te_records s) k = Some b" by (auto simp: 2(4) split: if_splits)
    then have "b \<noteq> a" using owned_record(2) [OF assms b] by blast
    then show "b < te_next ?s \<and> ir_intent_id (te_store ?s b) = k \<and> ir_status (te_store ?s b) = IS_PENDING \<and>
        (if ir_queued (te_store ?s b) then b \<in> A - {a} else k \<in> K)"
      using owned_record [OF assms b] by (simp add: 2(3))
  next
    fix b
    assume b: "b \<in> A - {a}"
    then have "ir_intent_id (te_store s b) \<noteq> ?k" using owned_entry(1) [OF assms, of b] 2(1) by auto
    then show "map_of (te_records ?s) (ir_intent_id (te_store ?s b)) = Some b \<and> ir_queued (te_store ?s b)"
      using owned_entry [OF assms, of b] b by (simp add: 2(3,4))
  qed
qed

lemma finish_frees:
  assumes "owned A K s" "map_of (te_records s) k = Some a"
  shows "map_of (te_records (finish a st d s)) k = None"
  using owned_record(2,3) [OF assms] assms(2) by (cases rule: finish_cases [of a st d s]) auto

lemma owned_drop_key:
  assumes "owned A K s" "\<And>a. map_of (te_records s) k = Some a \<Longrightarrow> ir_queued (te_store s a)"
  shows "owned A (K - {k}) s"
proof (rule ownedI)
  fix k' a
  assume a: "map_of (te_records s) k' = Some a"
  show "a < te_next s \<and> ir_intent_id (te_store s a) = k' \<and> ir_status (te_store s a) = IS_PENDING \<and>
      (if ir_queued (te_store s a) then a \<in> A else k' \<in> K - {k})"
    using owned_record [OF assms(1) a] assms(2) a by auto
qed (use owned_entry [OF assms(1)] in blast)

lemma insert_owned:
  assumes "owned A K s" "insert_record args s = (new, s1)"
  shows "owned A (insert (aa_key args) K) s1" "map_of (te_records s1) (aa_key args) \<noteq> None"
proof -
  show "map_of (te_records s1) (aa_key args) \<noteq> None"
    using assms(2) by (auto simp: insert_record_def AList.update_conv' split: if_splits)
  show "owned A (insert (aa_key args) K) s1"
  proof (cases "map_of (te_records s) (aa_key args)")
    case (Some b)
    then have "s1 = s" using assms(2) by (simp add: insert_record_def)
    then show ?thesis using owned_mono [OF assms(1)] by blast
  next
    case None
    let ?n = "te_next s"
    have s1: "map_of (te_records s1) = (map_of (te_records s))(aa_key args \<mapsto> ?n)" "te_next s1 = Suc ?n"
      "te_store s1 = (te_store s)(?n := new_record args)"
      using assms(2) None by (auto simp: insert_record_def AList.update_conv')
    show ?thesis
    proof (rule ownedI)
      fix k a
      assume a: "map_of (te_records s1) k = Some a"
      show "a < te_next s1 \<and> ir_intent_id (te_store s1 a) = k \<and> ir_status (te_store s1 a) = IS_PENDING \<and>
          (if ir_queued (te_store s1 a) then a \<in> A else k \<in> insert (aa_key args) K)"
        using owned_record [OF assms(1), of k a] a by (auto simp: s1 new_record_def split: if_splits)
    next
      fix a
      assume "a \<in> A"
      note e = owned_entry [OF assms(1) this]
      moreover have "a \<noteq> ?n" using owned_record(1) [OF assms(1) e(1)] by simp
      moreover have "ir_intent_id (te_store s a) \<noteq> aa_key args" using e(1) None by auto
      ultimately show "map_of (te_records s1) (ir_intent_id (te_store s1 a)) = Some a \<and> ir_queued (te_store s1 a)"
        by (simp add: s1)
    qed
  qed
qed

lemma mark_owned:
  assumes "owned A K s" "map_of (te_records s) k = Some a"
  shows "owned (insert a A) K (mark_queued a s)"
proof (rule ownedI)
  fix k' b
  assume "map_of (te_records (mark_queued a s)) k' = Some b"
  then have b: "map_of (te_records s) k' = Some b" by (simp add: mark_queued_def)
  then show "b < te_next (mark_queued a s) \<and> ir_intent_id (te_store (mark_queued a s) b) = k' \<and>
      ir_status (te_store (mark_queued a s) b) = IS_PENDING \<and>
      (if ir_queued (te_store (mark_queued a s) b) then b \<in> insert a A else k' \<in> K)"
    using owned_record [OF assms(1) b] by (auto simp: mark_queued_def)
next
  fix b
  assume "b \<in> insert a A"
  then show "map_of (te_records (mark_queued a s)) (ir_intent_id (te_store (mark_queued a s) b)) = Some b \<and>
      ir_queued (te_store (mark_queued a s) b)"
    using owned_entry [OF assms(1), of b] owned_record(2) [OF assms] assms(2) by (auto simp: mark_queued_def)
qed

lemma fail_all_owned:
  "owned (set q \<union> A) K s \<Longrightarrow> set q \<inter> A = {} \<Longrightarrow> distinct q \<Longrightarrow> owned A K (fail_all q s)"
proof (induction q arbitrary: s)
  case (Cons a q)
  have "owned (insert a (set q \<union> A) - {a}) K (finish a IS_FAILED never_started (s\<lparr>te_queue := q\<rparr>))"
    using Cons.prems(1) by (intro finish_owned) (simp add: owned_other_fields)
  moreover have "insert a (set q \<union> A) - {a} = set q \<union> A" using Cons.prems(2,3) by auto
  ultimately show ?case using Cons.IH Cons.prems(2,3) by (simp add: task_done_def owned_other_fields)
qed simp

lemma fail_all_fields [simp]:
  "te_unfinished (fail_all q s) = te_unfinished s - int (length q)" "te_accepting (fail_all q s) = te_accepting s"
  "te_consumers (fail_all q s) = te_consumers s" "te_listed (fail_all q s) = te_listed s"
  "te_callers (fail_all q s) = te_callers s" "te_admits (fail_all q s) = te_admits s"
  "te_phase (fail_all q s) = te_phase s" "te_queue (fail_all q s) = (if q = [] then te_queue s else [])"
  "te_finished_max (fail_all q s) = te_finished_max s"
  by (induction q arbitrary: s) (simp_all add: task_done_def)

lemma fail_unqueued_fields [simp]:
  "te_unfinished (fail_unqueued as s) = te_unfinished s" "te_accepting (fail_unqueued as s) = te_accepting s"
  "te_consumers (fail_unqueued as s) = te_consumers s" "te_listed (fail_unqueued as s) = te_listed s"
  "te_callers (fail_unqueued as s) = te_callers s" "te_admits (fail_unqueued as s) = te_admits s"
  "te_phase (fail_unqueued as s) = te_phase s" "te_queue (fail_unqueued as s) = te_queue s"
  "te_finished_max (fail_unqueued as s) = te_finished_max s"
  by (induction as arbitrary: s) simp_all

lemma fail_unqueued_owned: "owned A K s \<Longrightarrow> owned A K (fail_unqueued as s)"
proof (induction as arbitrary: s)
  case (Cons a as)
  have "owned A K (finish a IS_FAILED never_started s)" if "\<not> ir_queued (te_store s a)"
  proof -
    have "a \<notin> A" using owned_entry(2) [OF Cons.prems] that by blast
    then show ?thesis using finish_owned [OF Cons.prems, of a] by simp
  qed
  then show ?case using Cons by simp
qed simp

section \<open>The invariant\<close>

text \<open>A terminal receipt is the newest of its key and there are at most \<open>te_finished_max\<close> of them.\<close>

definition receipts_ok :: "engine \<Rightarrow> bool" where
  "receipts_ok s = (length (te_finished s) \<le> te_finished_max s \<and> te_finished_max s > 0 \<and> distinct (map fst (te_finished s)))"

definition phases_ok :: "engine \<Rightarrow> bool" where
  "phases_ok s = ((te_phase s \<noteq> Serving \<longrightarrow> \<not> te_accepting s) \<and> (te_phase s \<noteq> Shut \<longrightarrow> te_listed s) \<and>
     (\<not> te_accepting s \<and> te_phase s \<noteq> Stopping \<longrightarrow> te_queue s = []) \<and>
     (set (te_consumers s) \<subseteq> {C_Done} \<longrightarrow> \<not> te_accepting s))"

definition engine_inv :: "engine \<Rightarrow> bool" where
  "engine_inv s = (owned (set (te_queue s) \<union> set (busy s)) (coming s) s \<and> distinct (te_queue s @ busy s) \<and>
     te_unfinished s = int (length (te_queue s) + length (busy s)) \<and> phases_ok s \<and> receipts_ok s)"

lemma busy_split:
  assumes "i < length (te_consumers s)"
  obtains B C where "busy s = B @ holds (te_consumers s ! i) @ C" "\<And>c. concat (map holds ((te_consumers s)[i := c])) = B @ holds c @ C"
proof -
  let ?B = "concat (map holds (take i (te_consumers s)))" and ?C = "concat (map holds (drop (Suc i) (te_consumers s)))"
  have "busy s = ?B @ holds (te_consumers s ! i) @ ?C"
    unfolding busy_def by (subst id_take_nth_drop [OF assms]) simp
  then show ?thesis using that [of ?B ?C] assms by (simp add: upd_conv_take_nth_drop)
qed

lemma finish_receipts:
  assumes "receipts_ok s"
  shows "receipts_ok (finish a st d s)"
proof -
  let ?k = "ir_intent_id (te_store s a)"
  let ?f = "AList.delete ?k (te_finished s) @ [(?k, \<lparr>fin_status = st, fin_detail = d\<rparr>)]"
  have "distinct (map fst ?f)" using assms by (simp add: receipts_ok_def AList.delete_keys distinct_removeAll)
  then have "distinct (map fst (evict (te_finished_max s) ?f))" by (simp add: evict_def drop_map [symmetric] distinct_drop del: drop_append)
  moreover have "length (evict (te_finished_max s) ?f) \<le> te_finished_max s" by (simp add: evict_def del: drop_append)
  ultimately show ?thesis using assms by (auto simp: receipts_ok_def finish_def Let_def)
qed

lemma fail_all_receipts: "receipts_ok s \<Longrightarrow> receipts_ok (fail_all q s)"
proof (induction q arbitrary: s)
  case (Cons a q)
  have "receipts_ok (s\<lparr>te_queue := q\<rparr>)" using Cons.prems by (simp add: receipts_ok_def)
  from finish_receipts [OF this, of a IS_FAILED never_started]
  have "receipts_ok (task_done (finish a IS_FAILED never_started (s\<lparr>te_queue := q\<rparr>)))"
    by (simp add: task_done_def receipts_ok_def)
  from Cons.IH [OF this] show ?case by simp
qed simp

lemma fail_unqueued_receipts: "receipts_ok s \<Longrightarrow> receipts_ok (fail_unqueued as s)"
  by (induction as arbitrary: s) (simp_all add: finish_receipts)

section \<open>Every step keeps it\<close>

lemmas engine_inv_parts = engine_inv_def phases_ok_def receipts_ok_def

lemma insert_fields:
  assumes "insert_record args s = (new, s1)"
  shows "te_queue s1 = te_queue s" "te_queue_size s1 = te_queue_size s" "te_unfinished s1 = te_unfinished s"
    "te_accepting s1 = te_accepting s" "te_consumers s1 = te_consumers s" "te_listed s1 = te_listed s"
    "te_callers s1 = te_callers s" "te_admits s1 = te_admits s" "te_phase s1 = te_phase s"
    "te_finished s1 = te_finished s" "te_finished_max s1 = te_finished_max s"
    "new \<longleftrightarrow> map_of (te_records s) (aa_key args) = None" "\<not> new \<Longrightarrow> s1 = s"
  using assms by (auto simp: insert_record_def split: if_splits)

lemma set_drop_nth: "i < length xs \<Longrightarrow> set xs = insert (xs ! i) (set (drop_nth i xs))"
  by (subst id_take_nth_drop) (auto simp: drop_nth_def)

lemma coming_drop:
  assumes "i < length (te_callers s)"
  shows "coming s = coming (s\<lparr>te_callers := drop_nth i (te_callers s)\<rparr>) \<union> set_option (caller_key (te_callers s ! i))"
  using set_drop_nth [OF assms] by (auto simp: coming_def)

lemma coming_insert:
  assumes "i < length (te_callers s)" "te_callers s ! i = Checked args"
  shows "insert (aa_key args) (coming s) \<subseteq> coming (s\<lparr>te_callers := (te_callers s)[i := Inserted args]\<rparr>)"
proof -
  have "c \<in> set ((te_callers s)[i := Inserted args])" if "c \<in> set (te_callers s)" "c \<noteq> Checked args" for c
    using that assms(2) by (metis in_set_conv_nth length_list_update nth_list_update_neq)
  moreover have "Inserted args \<in> set ((te_callers s)[i := Inserted args])" using assms(1) by (rule set_update_memI)
  ultimately show ?thesis by (auto simp: coming_def) force+
qed

text \<open>What an admission may do: nothing to the queue, or append one record.\<close>

definition admitted :: "nat set \<Rightarrow> string set \<Rightarrow> engine \<Rightarrow> engine \<Rightarrow> bool" where
  "admitted A K s s' = (
     ((te_queue s' = te_queue s \<and> te_unfinished s' = te_unfinished s \<and> owned A K s') \<or>
      (\<exists>a. te_accepting s \<and> a \<notin> A \<and> te_queue s' = te_queue s @ [a] \<and> te_unfinished s' = te_unfinished s + 1 \<and> owned (insert a A) K s')) \<and>
     te_accepting s' = te_accepting s \<and> te_consumers s' = te_consumers s \<and> te_listed s' = te_listed s \<and>
     te_callers s' = te_callers s \<and> te_admits s' = te_admits s \<and> te_phase s' = te_phase s \<and> receipts_ok s')"

lemma finish_admitted:
  assumes "owned A K s" "map_of (te_records s) k = Some a" "receipts_ok s"
  shows "owned (A - {a}) (K - {k}) (finish a st d s) \<and> receipts_ok (finish a st d s)"
proof -
  have "owned (A - {a}) K (finish a st d s)" by (rule finish_owned [OF assms(1)])
  moreover have "map_of (te_records (finish a st d s)) k = None" by (rule finish_frees [OF assms(1,2)])
  ultimately show ?thesis using owned_drop_key [of "A - {a}" K "finish a st d s" k] finish_receipts [OF assms(3)] by auto
qed

lemma mark_fields [simp]:
  "te_queue (mark_queued a s) = te_queue s" "te_queue_size (mark_queued a s) = te_queue_size s"
  "te_unfinished (mark_queued a s) = te_unfinished s" "te_accepting (mark_queued a s) = te_accepting s"
  "te_consumers (mark_queued a s) = te_consumers s" "te_listed (mark_queued a s) = te_listed s"
  "te_callers (mark_queued a s) = te_callers s" "te_admits (mark_queued a s) = te_admits s"
  "te_phase (mark_queued a s) = te_phase s" "te_records (mark_queued a s) = te_records s"
  "receipts_ok (mark_queued a s) = receipts_ok s" "ir_queued (te_store (mark_queued a s) a)"
  by (simp_all add: mark_queued_def receipts_ok_def)

lemma put_admitted:
  assumes "owned A K s" "map_of (te_records s) k = Some a" "a \<notin> A" "receipts_ok s" "te_accepting s"
  shows "admitted A (K - {k}) s (put_nowait a (mark_queued a s))"
proof -
  let ?s = "mark_queued a s"
  have o: "owned (insert a A) K ?s" by (rule mark_owned [OF assms(1,2)])
  have A: "insert a A - {a} = A" using assms(3) by auto
  show ?thesis
  proof (cases "te_queue_size ?s > 0 \<and> length (te_queue ?s) \<ge> te_queue_size ?s")
    case True
    then have p: "put_nowait a ?s = finish a IS_FAILED ''rejected (queue full)'' ?s" by (simp add: put_nowait_def)
    have "owned A (K - {k}) (put_nowait a ?s) \<and> receipts_ok (put_nowait a ?s)"
      using finish_admitted [OF o, of k a] assms(2,4) unfolding p A by simp
    then show ?thesis by (simp add: admitted_def p)
  next
    case False
    then have p: "put_nowait a ?s = ?s\<lparr>te_queue := te_queue ?s @ [a], te_unfinished := te_unfinished ?s + 1\<rparr>"
      by (simp only: put_nowait_def if_False)
    have "owned (insert a A) (K - {k}) ?s" using o assms(2) by (intro owned_drop_key) auto
    moreover have "receipts_ok (put_nowait a ?s)" unfolding p using assms(4) by (simp add: receipts_ok_def mark_queued_def)
    ultimately show ?thesis using assms(3,5) by (simp add: admitted_def p owned_other_fields)
  qed
qed

lemma admit_admitted:
  assumes "owned A K s" "receipts_ok s"
  shows "admitted A (K - {aa_key args}) s (admit args s)"
proof -
  let ?k = "aa_key args"
  obtain new s1 where ins: "insert_record args s = (new, s1)" by fastforce
  note f = insert_fields [OF ins]
  have o: "owned A (insert ?k K) s1" by (rule insert_owned [OF assms(1) ins])
  obtain a where a: "map_of (te_records s1) ?k = Some a" using insert_owned(2) [OF assms(1) ins] by blast
  have r: "receipts_ok s1" using assms(2) f by (simp add: receipts_ok_def)
  have k: "insert ?k K - {?k} = K - {?k}" by auto
  have p: "ir_status (te_store s1 a) = IS_PENDING" by (rule owned_record(3) [OF o a])
  show ?thesis
  proof (cases "ir_queued (te_store s1 a)")
    case True
    then have "admit args s = s1" by (simp add: admit_def ins Let_def a)
    moreover have "owned A (K - {?k}) s1" using owned_drop_key [OF o, of ?k] a True unfolding k by auto
    ultimately show ?thesis using r f by (simp add: admitted_def)
  next
    case False
    then have n: "a \<notin> A" using owned_entry(2) [OF o] by blast
    show ?thesis
    proof (cases "te_accepting s")
      case True
      then have "admit args s = put_nowait a (mark_queued a s1)" using False by (simp add: admit_def ins Let_def a)
      then show ?thesis using put_admitted [OF o a n r] True f unfolding k by (simp add: admitted_def)
    next
      case acc: False
      then have "admit args s = finish a IS_FAILED never_started s1" using False p by (simp add: admit_def ins Let_def a)
      moreover have "owned A (K - {?k}) (finish a IS_FAILED never_started s1) \<and> receipts_ok (finish a IS_FAILED never_started s1)"
        using finish_admitted [OF o a r] n unfolding k by simp
      ultimately show ?thesis using f by (simp add: admitted_def)
    qed
  qed
qed

lemma admit_inv:
  assumes "engine_inv s" "te_admits s = args # rest"
  shows "engine_inv (admit args (s\<lparr>te_admits := rest\<rparr>))"
proof -
  let ?s = "s\<lparr>te_admits := rest\<rparr>" and ?A = "set (te_queue s) \<union> set (busy s)"
  let ?t = "admit args ?s"
  have "owned ?A (coming s) ?s" "receipts_ok ?s" using assms(1) by (simp_all add: engine_inv_def receipts_ok_def owned_other_fields)
  note adm = admit_admitted [OF this, of args, unfolded admitted_def]
  have K: "coming s - {aa_key args} \<subseteq> coming ?t" using adm assms(2) by (auto simp: coming_def)
  have b: "busy ?t = busy s" using adm by (simp add: busy_def)
  have ph: "phases_ok ?t" using assms(1) adm by (auto simp: engine_inv_def phases_ok_def)
  from adm consider "te_queue ?t = te_queue s" "te_unfinished ?t = te_unfinished s" "owned ?A (coming s - {aa_key args}) ?t"
    | a where "a \<notin> ?A" "te_queue ?t = te_queue s @ [a]" "te_unfinished ?t = te_unfinished s + 1"
      "owned (insert a ?A) (coming s - {aa_key args}) ?t" by auto
  then show ?thesis
  proof cases
    case 1
    then show ?thesis using assms(1) adm ph owned_mono [OF 1(3) K] by (simp add: engine_inv_def b)
  next
    case 2
    then show ?thesis using assms(1) adm ph owned_mono [OF 2(4) K] by (auto simp: engine_inv_def b)
  qed
qed

lemma take_inv:
  assumes "engine_inv s" "i < length (te_consumers s)" "te_consumers s ! i = C_Idle" "te_queue s \<noteq> []"
  shows "engine_inv (take_intent i s)"
proof -
  let ?t = "take_intent i s"
  obtain a q where q: "te_queue s = a # q" using assms(4) by (cases "te_queue s") auto
  obtain B C where "busy s = B @ holds (te_consumers s ! i) @ C"
    "\<And>c. concat (map holds ((te_consumers s)[i := c])) = B @ holds c @ C" using busy_split [OF assms(2)] by blast
  then have B: "busy s = B @ C" "busy ?t = B @ [a] @ C"
    using assms(3) q by (simp_all add: busy_def take_intent_def)
  have "set (te_queue ?t) \<union> set (busy ?t) = set (te_queue s) \<union> set (busy s)"
    unfolding B by (auto simp: take_intent_def q)
  moreover have "coming ?t = coming s" by (simp add: coming_def take_intent_def)
  moreover have "owned A K ?t = owned A K s" for A K by (simp add: take_intent_def owned_other_fields)
  ultimately have "owned (set (te_queue ?t) \<union> set (busy ?t)) (coming ?t) ?t"
    using assms(1) by (simp add: engine_inv_def)
  moreover have "C_Busy a \<in> set (te_consumers ?t)" using assms(2) q by (simp add: take_intent_def set_update_memI)
  then have "\<not> set (te_consumers ?t) \<subseteq> {C_Done}" by auto
  then have "phases_ok ?t" using assms(1) q by (auto simp: engine_inv_def phases_ok_def take_intent_def)
  ultimately show ?thesis using assms(1) B
    by (auto simp: engine_inv_def q take_intent_def receipts_ok_def)
qed

text \<open>A consumer gives its record up: what remains to be shown is the state of the engine without it.\<close>

lemma turn_over_inv:
  assumes o: "owned (set q \<union> set (B @ C)) (coming s) s" "distinct (q @ B @ C)" "te_queue s = q"
    and u: "te_unfinished s = int (length q + length (B @ C)) + 1" "receipts_ok s"
    and c: "\<And>c. concat (map holds ((te_consumers s)[i := c])) = B @ holds c @ C" "holds c = []"
    and p: "phases_ok (set_consumer i c s)"
  shows "engine_inv (set_consumer i c (task_done s))"
proof -
  let ?t = "set_consumer i c (task_done s)"
  have "busy ?t = B @ C" using c by (simp add: busy_def set_consumer_def task_done_def)
  moreover have "phases_ok ?t" using p by (simp add: phases_ok_def set_consumer_def task_done_def)
  ultimately show ?thesis using o u
    by (simp add: engine_inv_def set_consumer_def task_done_def owned_other_fields coming_def receipts_ok_def)
qed

lemma phases_set_idle:
  assumes "phases_ok s" "i < length (te_consumers s)" "c \<noteq> C_Done"
  shows "phases_ok (set_consumer i c s)"
proof -
  have "c \<in> set ((te_consumers s)[i := c])" using assms(2) by (rule set_update_memI)
  then have "\<not> set ((te_consumers s)[i := c]) \<subseteq> {C_Done}" using assms(3) by auto
  then show ?thesis using assms(1) by (simp add: phases_ok_def set_consumer_def)
qed

lemma phases_set_done:
  assumes "phases_ok s" "\<not> te_accepting s"
  shows "phases_ok (set_consumer i C_Done s)"
  using assms by (simp add: phases_ok_def set_consumer_def)

text \<open>The record of a consumer is settled; the engine is then as before except for the consumer and its record.\<close>

lemma busy_released:
  assumes "engine_inv s" "busy s = B @ [a] @ C"
  shows "distinct (te_queue s @ B @ C)" "te_unfinished s = int (length (te_queue s) + length (B @ C)) + 1"
  using assms unfolding engine_inv_def by auto

lemma finish_released:
  assumes "engine_inv s" "busy s = B @ [a] @ C"
  shows "owned (set (te_queue s) \<union> set (B @ C)) (coming s) (finish a st d s) \<and> receipts_ok (finish a st d s) \<and>
    phases_ok (finish a st d s) \<and> coming (finish a st d s) = coming s"
proof -
  have d: "distinct (te_queue s @ B @ [a] @ C)" and o: "owned (set (te_queue s) \<union> set (B @ [a] @ C)) (coming s) s"
    using assms unfolding engine_inv_def by auto
  have "set (te_queue s) \<union> set (B @ [a] @ C) - {a} = set (te_queue s) \<union> set (B @ C)" using d by auto
  then have "owned (set (te_queue s) \<union> set (B @ C)) (coming s) (finish a st d s)" using finish_owned [OF o, of a st d] by simp
  moreover have "receipts_ok (finish a st d s)" using assms(1) finish_receipts unfolding engine_inv_def by blast
  ultimately show ?thesis using assms(1) by (simp add: engine_inv_def phases_ok_def coming_def)
qed

lemma errors_inv: "engine_inv (s\<lparr>te_errors := n\<rparr>) = engine_inv s" "busy (s\<lparr>te_errors := n\<rparr>) = busy s"
  by (simp_all add: engine_inv_def phases_ok_def receipts_ok_def owned_other_fields busy_def coming_def)

lemma consumer_returns:
  assumes "engine_inv s" "i < length (te_consumers s)" "te_consumers s ! i = C_Busy a"
    and "c = C_Idle \<or> c = C_Done \<and> \<not> te_accepting s"
  shows "engine_inv (set_consumer i c (task_done (finish a st d s)))"
proof -
  obtain B C where B: "busy s = B @ [a] @ C" "\<And>c. concat (map holds ((te_consumers s)[i := c])) = B @ holds c @ C"
    using busy_split [OF assms(2)] assms(3) by (metis holds.simps(1))
  note f = finish_released [OF assms(1) B(1), of st d] busy_released [OF assms(1) B(1)]
  show ?thesis
  proof (rule turn_over_inv [where q = "te_queue s" and B = B and C = C])
    show "owned (set (te_queue s) \<union> set (B @ C)) (coming (finish a st d s)) (finish a st d s)" using f by simp
    show "phases_ok (set_consumer i c (finish a st d s))"
      using f(1) assms(2,4) phases_set_idle phases_set_done by auto
  qed (use f B(2) assms(4) in auto)
qed

lemma programming_error_inv:
  assumes "engine_inv s" "i < length (te_consumers s)" "te_consumers s ! i = C_Busy a"
    and s2: "s2 = (finish a IS_FAILED d s)\<lparr>te_errors := n\<rparr>"
    and s3: "s3 = (if 3 \<le> n \<or> others_done i s2 then fail_never_started (s2\<lparr>te_accepting := False\<rparr>) else s2)"
  shows "engine_inv (set_consumer i C_Done (task_done s3))"
proof (cases "3 \<le> n \<or> others_done i s2")
  case True
  obtain B C where B: "busy s = B @ [a] @ C" "\<And>c. concat (map holds ((te_consumers s)[i := c])) = B @ holds c @ C"
    using busy_split [OF assms(2)] assms(3) by (metis holds.simps(1))
  note f = finish_released [OF assms(1) B(1), of IS_FAILED d] busy_released [OF assms(1) B(1)]
  let ?s = "s2\<lparr>te_accepting := False\<rparr>"
  have t: "s3 = fail_all (te_queue s) ?s" using True by (simp add: s3 fail_never_started_def s2)
  have "owned (set (te_queue s) \<union> set (B @ C)) (coming s) ?s" using f(1) by (simp add: s2 owned_other_fields)
  then have o: "owned (set (B @ C)) (coming s) s3"
    unfolding t using f(2) by (intro fail_all_owned) auto
  have r: "receipts_ok s3" unfolding t by (rule fail_all_receipts) (use f(1) in \<open>simp add: s2 receipts_ok_def\<close>)
  have p: "phases_ok (set_consumer i C_Done s3)"
    using f(1) by (auto simp: phases_ok_def set_consumer_def t s2)
  have "coming s3 = coming s" "te_queue s3 = []" by (auto simp: t s2 coming_def)
  moreover have "te_unfinished s3 = int (length (B @ C)) + 1" using f(3) by (simp add: t s2)
  ultimately show ?thesis using o r p B(2) f(2)
    by (intro turn_over_inv [where q = "[]" and B = B and C = C]) (auto simp: t s2)
next
  case False
  then obtain j where j: "j < length (te_consumers s)" "j \<noteq> i" "te_consumers s ! j \<noteq> C_Done"
    by (auto simp: others_done_def s2)
  have "engine_inv (set_consumer i C_Idle (task_done (finish a IS_FAILED d s)))" (is "engine_inv ?t")
    using consumer_returns [OF assms(1-3)] by blast
  moreover have "set_consumer i C_Done (task_done s3) = (?t\<lparr>te_errors := n\<rparr>)\<lparr>te_consumers := (te_consumers ?t)[i := C_Done]\<rparr>"
    using False by (simp add: s3 s2 set_consumer_def task_done_def)
  moreover have "te_consumers ?t ! j \<noteq> C_Done" "te_consumers ?t ! j \<in> set ((te_consumers ?t)[i := C_Done])"
    using j by (auto simp: set_consumer_def task_done_def in_set_conv_nth intro!: exI [of _ j])
  moreover have "busy (?t\<lparr>te_consumers := (te_consumers ?t)[i := C_Done]\<rparr>) = busy ?t"
    using assms(2) by (simp add: busy_def set_consumer_def task_done_def upd_conv_take_nth_drop)
  ultimately show ?thesis
    by (auto simp: engine_inv_def phases_ok_def receipts_ok_def owned_other_fields coming_def busy_def)
qed

lemma consumer_end_inv:
  assumes "engine_inv s" "i < length (te_consumers s)" "te_consumers s ! i = C_Busy a"
    and "r = Inl CancelledError \<Longrightarrow> te_phase s \<noteq> Serving"
  shows "engine_inv (consumer_end i a r text s)"
proof -
  have ret: "engine_inv (set_consumer i C_Idle (task_done (finish a st d s)))" for st d
    using consumer_returns [OF assms(1-3)] by blast
  have swap: "set_consumer i C_Idle (task_done (finish a st d s\<lparr>te_errors := 0\<rparr>)) =
      (set_consumer i C_Idle (task_done (finish a st d s)))\<lparr>te_errors := 0\<rparr>"
    "finish a st d (s\<lparr>te_errors := 0\<rparr>) = (finish a st d s)\<lparr>te_errors := 0\<rparr>" for st d
    by (simp_all add: set_consumer_def task_done_def finish_def Let_def)
  show ?thesis
  proof (cases r)
    case (Inr u)
    then show ?thesis using ret by (simp add: consumer_end_def swap errors_inv)
  next
    case (Inl e)
    show ?thesis
    proof (cases "e \<in> {CancelledError, PrefetchError, QueryError, IntentInputError}")
      case True
      have "\<not> te_accepting s" if "e = CancelledError"
        using assms(1,4) that Inl by (auto simp: engine_inv_def phases_ok_def)
      then show ?thesis using True Inl ret consumer_returns [OF assms(1-3)]
        by (auto simp: consumer_end_def swap errors_inv)
    next
      case False
      then show ?thesis using Inl programming_error_inv [OF assms(1-3) refl refl, of "Suc (te_errors s)" "take 500 text"]
        by (auto simp: consumer_end_def Let_def split: if_splits)
    qed
  qed
qed

lemma insert_inv:
  assumes "engine_inv s" "i < length (te_callers s)" "te_callers s ! i = Checked args" "insert_record args s = (new, s1)"
  shows "engine_inv (s1\<lparr>te_callers := (if new then (te_callers s)[i := Inserted args] else drop_nth i (te_callers s))\<rparr>)"
    (is "engine_inv ?t")
proof -
  note f = insert_fields [OF assms(4)]
  have o: "owned (set (te_queue s) \<union> set (busy s)) (coming s) s" using assms(1) by (simp add: engine_inv_def)
  have "owned (set (te_queue s) \<union> set (busy s)) (coming ?t) s1"
  proof (cases new)
    case True
    have "coming ?t = coming (s\<lparr>te_callers := (te_callers s)[i := Inserted args]\<rparr>)" using True f by (simp add: coming_def)
    then show ?thesis using owned_mono [OF insert_owned(1) [OF o assms(4)]] coming_insert [OF assms(2,3)] by simp
  next
    case False
    then have "coming ?t = coming s" using f(13) coming_drop [OF assms(2)] assms(3) by (simp add: coming_def)
    then show ?thesis using o f(13) False by simp
  qed
  then show ?thesis using assms(1) f by (simp add: engine_inv_def phases_ok_def receipts_ok_def owned_other_fields busy_def)
qed

lemma post_inv:
  assumes "engine_inv s" "i < length (te_callers s)" "te_callers s ! i = Inserted args"
  shows "engine_inv ((post_admit args s)\<lparr>te_callers := drop_nth i (te_callers s)\<rparr>)" (is "engine_inv ?t")
proof -
  have "coming s \<subseteq> coming ?t" using coming_drop [OF assms(2)] assms(3) by (auto simp: coming_def post_admit_def)
  moreover have "owned A K ?t = owned A K s" for A K by (simp add: post_admit_def owned_other_fields)
  ultimately have "owned (set (te_queue s) \<union> set (busy s)) (coming ?t) ?t"
    using assms(1) owned_mono unfolding engine_inv_def by metis
  then show ?thesis using assms(1) by (simp add: engine_inv_def phases_ok_def receipts_ok_def busy_def post_admit_def)
qed

lemma shutdown_end_inv:
  assumes "engine_inv s" "te_phase s = Stopping"
  shows "engine_inv (shutdown_end s)"
proof -
  let ?q = "te_queue s" and ?s = "s\<lparr>te_listed := False\<rparr>"
  let ?s1 = "fail_all ?q ?s"
  let ?s2 = "fail_unqueued (map snd (te_records ?s1)) ?s1"
  have t: "shutdown_end s = ?s2\<lparr>te_phase := Shut\<rparr>" by (simp add: shutdown_end_def fail_never_started_def Let_def)
  have d: "distinct ?q" "set ?q \<inter> set (busy s) = {}" using assms(1) unfolding engine_inv_def by auto
  have "owned (set ?q \<union> set (busy s)) (coming s) ?s" using assms(1) by (simp add: engine_inv_def owned_other_fields)
  from fail_all_owned [OF this d(2,1)] have o: "owned (set (busy s)) (coming s) ?s2" by (rule fail_unqueued_owned)
  have "receipts_ok ?s" using assms(1) by (simp add: engine_inv_def receipts_ok_def)
  then have r: "receipts_ok ?s2" by (intro fail_unqueued_receipts fail_all_receipts)
  have b: "busy (shutdown_end s) = busy s" "coming (shutdown_end s) = coming s" "te_queue (shutdown_end s) = []"
    "te_unfinished (shutdown_end s) = te_unfinished s - int (length ?q)"
    by (simp_all add: t busy_def coming_def)
  have "\<not> te_accepting s" using assms by (simp add: engine_inv_def phases_ok_def)
  then have p: "phases_ok (shutdown_end s)" by (simp add: t phases_ok_def)
  have "te_unfinished s = int (length ?q + length (busy s))" "distinct (busy s)"
    using assms(1) unfolding engine_inv_def by auto
  then show ?thesis unfolding engine_inv_def b using o r p by (simp add: t owned_other_fields receipts_ok_def)
qed

lemma cancel_inv:
  assumes "engine_inv s" "i < length (te_consumers s)" "te_consumers s ! i = C_Idle" "te_phase s \<noteq> Serving"
  shows "engine_inv (set_consumer i C_Done s)"
proof -
  let ?t = "set_consumer i C_Done s"
  obtain B C where "busy s = B @ holds (te_consumers s ! i) @ C"
    "\<And>c. concat (map holds ((te_consumers s)[i := c])) = B @ holds c @ C" using busy_split [OF assms(2)] by blast
  then have "busy ?t = busy s" using assms(3) by (simp add: busy_def set_consumer_def)
  moreover have "\<not> te_accepting s" using assms(1,4) by (simp add: engine_inv_def phases_ok_def)
  ultimately show ?thesis using assms(1) phases_set_done
    by (simp add: engine_inv_def receipts_ok_def set_consumer_def owned_other_fields coming_def)
qed

lemma engine_step_inv: "engine_step sha s s' \<Longrightarrow> engine_inv s \<Longrightarrow> engine_inv s'"
proof (induction rule: engine_step.induct)
  case (es_check p target poll_s timeout_s s args)
  then show ?case by (auto simp: engine_inv_def phases_ok_def receipts_ok_def owned_other_fields busy_def coming_def)
next
  case (es_insert i s args new s1)
  then show ?case by (intro insert_inv)
next
  case (es_post i s args)
  then show ?case by (intro post_inv)
next
  case (es_admit s args rest)
  then show ?case by (intro admit_inv)
next
  case (es_take i s)
  then show ?case by (intro take_inv)
next
  case (es_end i s a r d)
  then show ?case by (intro consumer_end_inv)
next
  case (es_cancel i s)
  then show ?case by (intro cancel_inv)
next
  case (es_shutdown s)
  then show ?case by (simp add: engine_inv_def phases_ok_def receipts_ok_def owned_other_fields busy_def coming_def shutdown_begin_def)
next
  case (es_shutdown_end s)
  then show ?case by (intro shutdown_end_inv)
qed

definition started :: "engine \<Rightarrow> bool" where
  "started s = (\<exists>m q n f s0. engine_init m q n f = Inr s0 \<and> s = engine_start s0)"

lemma started_inv:
  assumes "started s"
  shows "engine_inv s"
proof -
  obtain m q n f s0 where s: "engine_init m q n f = Inr s0" "s = engine_start s0" using assms by (auto simp: started_def)
  have c: "te_consumer_count s0 > 0" "te_finished_max s0 > 0"
    using s(1) by (auto simp: engine_init_def split: if_splits option.splits nat.splits)
  have "te_consumers s = replicate (te_consumer_count s0) C_Idle" "te_queue s = []" "te_records s = []" "te_finished s = []"
    "te_callers s = []" "te_admits s = []" "te_unfinished s = 0" "te_accepting s" "te_phase s = Serving" "te_listed s"
    "te_finished_max s = te_finished_max s0"
    using s by (auto simp: engine_init_def engine_start_def split: if_splits)
  then show ?thesis using c
    by (simp add: engine_inv_def owned_def busy_def phases_ok_def receipts_ok_def concat_replicate_trivial)
qed

lemma engine_reachable_inv: "(engine_step sha)\<^sup>*\<^sup>* s0 s \<Longrightarrow> started s0 \<Longrightarrow> engine_inv s"
  by (induction rule: rtranclp_induct) (auto intro: started_inv engine_step_inv)

section \<open>Properties of every run\<close>

text \<open>C30. In every run of the engine, whatever the threads, the consumers and a shutdown interleave, no key is
  executed twice at once: the intents in the queue and with the consumers have pairwise different keys, and each
  of them is reported as pending.\<close>

theorem no_concurrent_execution:
  assumes "started s0" "(engine_step sha)\<^sup>*\<^sup>* s0 s"
  shows "distinct (map (\<lambda>a. ir_intent_id (te_store s a)) (te_queue s @ busy s)) \<and>
    (\<forall>a \<in> set (te_queue s @ busy s). intent_status (ir_intent_id (te_store s a)) s = Some IS_PENDING)"
proof -
  have inv: "engine_inv s" by (rule engine_reachable_inv [OF assms(2,1)])
  then have o: "owned (set (te_queue s) \<union> set (busy s)) (coming s) s" and d: "distinct (te_queue s @ busy s)"
    by (simp_all add: engine_inv_def)
  have e: "map_of (te_records s) (ir_intent_id (te_store s a)) = Some a" if "a \<in> set (te_queue s @ busy s)" for a
    using owned_entry(1) [OF o] that by simp
  then have "inj_on (\<lambda>a. ir_intent_id (te_store s a)) (set (te_queue s @ busy s))"
    by (intro inj_onI) (metis option.inject)
  moreover have "intent_status (ir_intent_id (te_store s a)) s = Some IS_PENDING" if "a \<in> set (te_queue s @ busy s)" for a
    using e [OF that] owned_record(3) [OF o e [OF that]] by (simp add: intent_status_def)
  ultimately show ?thesis using d by (simp only: distinct_map) blast
qed

text \<open>C31. An engine never keeps an intent pending that nobody will execute: once every consumer has ended, no
  shutdown is under way and no submission is on its way to the loop, the engine refuses new intents and no
  intent it accepted is pending any more.\<close>

theorem dead_engine_has_no_pending:
  assumes "started s0" "(engine_step sha)\<^sup>*\<^sup>* s0 s"
    and "\<forall>c \<in> set (te_consumers s). c = C_Done" "te_phase s \<noteq> Stopping" "te_callers s = []" "te_admits s = []"
  shows "te_records s = [] \<and> submit_check sha p target poll_s timeout_s s = Inl Kv_RuntimeError"
proof -
  have inv: "engine_inv s" by (rule engine_reachable_inv [OF assms(2,1)])
  have acc: "\<not> te_accepting s" "te_queue s = []"
    using inv assms(3,4) by (auto simp: engine_inv_def phases_ok_def)
  have "concat (map holds cs) = []" if "\<forall>c \<in> set cs. c = C_Done" for cs using that by (induction cs) auto
  then have "busy s = []" using assms(3) by (simp add: busy_def)
  moreover have "coming s = {}" using assms(5,6) by (simp add: coming_def)
  ultimately have o: "owned {} {} s" using inv acc by (simp add: engine_inv_def)
  have "map_of (te_records s) k = None" for k
    using owned_record(4,5) [OF o, of k] by (cases "map_of (te_records s) k") auto
  then have "k \<notin> fst ` set (te_records s)" for k by (simp add: map_of_eq_None_iff)
  then have "te_records s = []" by (metis image_eqI list.set_intros(1) neq_Nil_conv)
  then show ?thesis using acc by (simp add: submit_check_def)
qed

lemma finish_visible:
  assumes "owned A K s" "map_of (te_records s) k = Some a" "receipts_ok s"
  shows "intent_status k (finish a st d s) = Some st"
proof -
  note r = owned_record(2,3) [OF assms(1,2)]
  let ?xs = "AList.delete k (te_finished s)" and ?f = "\<lparr>fin_status = st, fin_detail = d\<rparr>"
  let ?s = "finish a st d s" and ?m = "te_finished_max s"
  have f: "te_finished ?s = evict ?m (?xs @ [(k, ?f)])" using r assms(2) by (simp add: finish_def Let_def)
  have "?m > 0" using assms(3) by (simp add: receipts_ok_def)
  then have "evict ?m (?xs @ [(k, ?f)]) = drop (Suc (length ?xs) - ?m) ?xs @ [(k, ?f)]" by (simp add: evict_def)
  moreover have "map_of (drop n ?xs) k = None" for n
  proof -
    have "k \<notin> set (map fst ?xs)" by (simp only: AList.delete_keys set_removeAll) simp
    then have "k \<notin> fst ` set (drop n ?xs)" using set_drop_subset [of n ?xs] by auto
    then show ?thesis by (simp add: map_of_eq_None_iff)
  qed
  ultimately have "map_of (te_finished ?s) k = Some ?f" unfolding f by (simp add: map_add_def)
  then show ?thesis using finish_frees [OF assms(1,2), of st d] by (simp add: intent_status_def)
qed

text \<open>The outcome of an intent is what its submitter reads: when a consumer ends a prefetch with success, with a
  failure of the prefetch itself or with a cancellation, the status of its key is ready or failed accordingly, and
  the receipts kept never exceed their bound.\<close>

theorem outcome_is_visible:
  assumes "started s0" "(engine_step sha)\<^sup>*\<^sup>* s0 s" "i < length (te_consumers s)" "te_consumers s ! i = C_Busy a"
    and "r \<in> {Inr (), Inl CancelledError, Inl PrefetchError, Inl QueryError, Inl IntentInputError}"
  shows "intent_status (ir_intent_id (te_store s a)) (consumer_end i a r text s) = Some (if r = Inr () then IS_READY else IS_FAILED) \<and>
    length (te_finished (consumer_end i a r text s)) \<le> te_finished_max s"
proof -
  have inv: "engine_inv s" by (rule engine_reachable_inv [OF assms(2,1)])
  then have o: "owned (set (te_queue s) \<union> set (busy s)) (coming s) s" and rc: "receipts_ok s" by (simp_all add: engine_inv_def)
  have "a \<in> set (busy s)" using assms(3,4) by (force simp: busy_def in_set_conv_nth)
  then have m: "map_of (te_records s) (ir_intent_id (te_store s a)) = Some a" using owned_entry(1) [OF o] by simp
  have v: "intent_status (ir_intent_id (te_store s a)) (finish a st d s) = Some st" for st d
    by (rule finish_visible [OF o m rc])
  have l: "length (te_finished (finish a st d s)) \<le> te_finished_max s" for st d
    using finish_receipts [OF rc, of a st d] by (simp add: receipts_ok_def)
  have e: "finish a st d (s\<lparr>te_errors := 0\<rparr>) = (finish a st d s)\<lparr>te_errors := 0\<rparr>" for st d
    by (simp add: finish_def Let_def)
  have i: "intent_status k (t\<lparr>te_errors := 0\<rparr>) = intent_status k t"
    "intent_status k (set_consumer i c (task_done t)) = intent_status k t"
    "te_finished (set_consumer i c (task_done t)) = te_finished t" for k c t
    by (simp_all add: intent_status_def set_consumer_def task_done_def split: option.splits)
  show ?thesis using assms(5)
    by (elim insertE emptyE) (simp_all add: consumer_end_def e i v l)
qed

subsection \<open>The properties on a small engine\<close>

definition demo_engine :: engine where
  "demo_engine = engine_start (case engine_init 1 0 (Some 1) 5 of Inr s \<Rightarrow> s)"

definition demo_args :: admit_args where
  "demo_args = \<lparr>aa_key = intent_id_of (\<lambda>s. s) demo_prefix ''i'', aa_prefix = demo_prefix, aa_target = ''i'', aa_poll = 1, aa_timeout = 9\<rparr>"

definition demo_checked :: engine where
  "demo_checked = demo_engine\<lparr>te_callers := te_callers demo_engine @ [Checked demo_args]\<rparr>"

definition demo_inserted :: engine where
  "demo_inserted = (snd (insert_record demo_args demo_checked))\<lparr>te_callers := (te_callers demo_checked)[0 := Inserted demo_args]\<rparr>"

definition demo_posted :: engine where
  "demo_posted = (post_admit demo_args demo_inserted)\<lparr>te_callers := drop_nth 0 (te_callers demo_inserted)\<rparr>"

definition demo_admitted :: engine where
  "demo_admitted = admit demo_args (demo_posted\<lparr>te_admits := []\<rparr>)"

definition demo_busy :: engine where
  "demo_busy = take_intent 0 demo_admitted"

definition demo_dead :: engine where
  "demo_dead = consumer_end 0 0 (Inl Kv_ValueError) ''ValueError'' demo_busy"

lemma demo_engine_started: "started demo_engine"
  unfolding started_def demo_engine_def
  by (intro exI [of _ 1] exI [of _ 0] exI [of _ "Some 1"] exI [of _ 5] exI) (simp add: engine_init_def)

lemma demo_busy_reachable: "(engine_step (\<lambda>s. s))\<^sup>*\<^sup>* demo_engine demo_busy"
proof -
  have "submit_check (\<lambda>s. s) demo_prefix ''i'' 1 9 demo_engine = Inr demo_args" by code_simp
  then have "engine_step (\<lambda>s. s) demo_engine demo_checked" unfolding demo_checked_def by (rule es_check)
  moreover have "engine_step (\<lambda>s. s) demo_checked demo_inserted"
  proof -
    have "0 < length (te_callers demo_checked)" "te_callers demo_checked ! 0 = Checked demo_args" "fst (insert_record demo_args demo_checked)"
      by code_simp+
    from es_insert [OF this(1,2), of True "snd (insert_record demo_args demo_checked)" "\<lambda>s. s"] this(3) show ?thesis
      unfolding demo_inserted_def by (simp add: prod_eq_iff)
  qed
  moreover have "engine_step (\<lambda>s. s) demo_inserted demo_posted"
    unfolding demo_posted_def by (rule es_post; code_simp)
  moreover have "engine_step (\<lambda>s. s) demo_posted demo_admitted"
    unfolding demo_admitted_def by (rule es_admit) code_simp
  moreover have "engine_step (\<lambda>s. s) demo_admitted demo_busy"
    unfolding demo_busy_def by (rule es_take; code_simp)
  ultimately show ?thesis by (meson converse_rtranclp_into_rtranclp rtranclp.rtrancl_refl)
qed

lemma demo_consumer: "0 < length (te_consumers demo_busy)" "te_consumers demo_busy ! 0 = C_Busy 0"
  by code_simp+

theorem no_concurrent_execution_witness:
  "te_queue demo_busy @ busy demo_busy = [0] \<and>
   intent_status (ir_intent_id (te_store demo_busy 0)) demo_busy = Some IS_PENDING"
proof -
  have b: "te_queue demo_busy @ busy demo_busy = [0]" by code_simp
  from no_concurrent_execution [OF demo_engine_started demo_busy_reachable] b show ?thesis by simp
qed

theorem dead_engine_has_no_pending_witness:
  "te_records demo_busy \<noteq> [] \<and> te_records demo_dead = []"
proof -
  have "engine_step (\<lambda>s. s) demo_busy demo_dead"
    unfolding demo_dead_def by (rule es_end [OF demo_consumer]) simp
  then have r: "(engine_step (\<lambda>s. s))\<^sup>*\<^sup>* demo_engine demo_dead" using demo_busy_reachable by simp
  have c: "\<forall>c \<in> set (te_consumers demo_dead). c = C_Done" "te_phase demo_dead \<noteq> Stopping"
    "te_callers demo_dead = []" "te_admits demo_dead = []" "te_records demo_busy \<noteq> []" by code_simp+
  from dead_engine_has_no_pending [OF demo_engine_started r c(1-4)] c(5) show ?thesis by blast
qed

theorem outcome_is_visible_witness:
  "intent_status (ir_intent_id (te_store demo_busy 0)) (consumer_end 0 0 (Inr ()) [] demo_busy) = Some IS_READY"
  using outcome_is_visible [OF demo_engine_started demo_busy_reachable demo_consumer, of "Inr ()" "[]"] by simp

end
