(* ===== verification/Api.thy ===== *)
theory Api
  imports Task_Engine_Laws Keys
begin

text \<open>
  The outward interfaces of the manager: the gRPC service for intents (\<^verbatim>\<open>api/grpc_server.py\<close>), the events
  published for prefetched prefixes (\<^verbatim>\<open>api/events.py\<close>), and the two entry points that only hold callbacks so far
  (\<^verbatim>\<open>api/intents.py\<close>, \<^verbatim>\<open>api/watcher.py\<close>).

  The upstream publisher is a queue with a bound; whether one can be made for an endpoint is a parameter.
\<close>

section \<open>The intent service\<close>






text \<open>The server is refused when the port could not be bound.\<close>

definition grpc_server_init :: "int \<Rightarrow> kv_exn + int" where
  "grpc_server_init port = (if port = 0 then Inl Kv_RuntimeError else Inr port)"

section \<open>Callbacks\<close>

record ('p, 'q) intent_receiver =
  ir_on_prefetch :: "'p option"
  ir_on_session_end :: "'q option"

definition on_prefetch :: "'p \<Rightarrow> ('p, 'q) intent_receiver \<Rightarrow> ('p, 'q) intent_receiver" where
  "on_prefetch handler r = r\<lparr>ir_on_prefetch := Some handler\<rparr>"

definition on_session_end :: "'q \<Rightarrow> ('p, 'q) intent_receiver \<Rightarrow> ('p, 'q) intent_receiver" where
  "on_session_end handler r = r\<lparr>ir_on_session_end := Some handler\<rparr>"

definition intent_receiver_start :: "('p, 'q) intent_receiver \<Rightarrow> kv_exn + unit" where
  "intent_receiver_start r = Inl NotImplementedError"

record 'p instance_watcher =
  iw_on_up :: "'p option"
  iw_on_down :: "'p option"

definition on_instance_up :: "'p \<Rightarrow> 'p instance_watcher \<Rightarrow> 'p instance_watcher" where
  "on_instance_up handler r = r\<lparr>iw_on_up := Some handler\<rparr>"

definition on_instance_down :: "'p \<Rightarrow> 'p instance_watcher \<Rightarrow> 'p instance_watcher" where
  "on_instance_down handler r = r\<lparr>iw_on_down := Some handler\<rparr>"

definition instance_watcher_start :: "'p instance_watcher \<Rightarrow> kv_exn + unit" where
  "instance_watcher_start r = Inl NotImplementedError"

section \<open>Events\<close>

fun parse_endpoints :: "string list \<Rightarrow> (string, string) dict \<Rightarrow> kv_exn + (string, string) dict" where
  "parse_endpoints [] out = Inr out"
| "parse_endpoints (raw # items) out = (case py_partition CHR ''='' raw of
     (inst, None) \<Rightarrow> Inl Kv_ValueError
   | (inst, Some endpoint) \<Rightarrow>
       if inst = [] \<or> endpoint = [] then Inl Kv_ValueError
       else if inst \<in> set (dict_keys out) then Inl Kv_ValueError
       else parse_endpoints items (dict_set inst endpoint out))"

definition parse_kv_event_endpoints :: "string list option \<Rightarrow> kv_exn + (string, string) dict" where
  "parse_kv_event_endpoints items = parse_endpoints (case items of None \<Rightarrow> [] | Some xs \<Rightarrow> xs) []"

record 'h block_stored =
  bs_block_hashes :: "'h list"
  bs_parent_block_hash :: "'h option"
  bs_token_ids :: "int list"
  bs_block_size :: int
  bs_medium :: string
  bs_group_idx :: int
  bs_kind :: string
  bs_rank :: int
  bs_ts :: time

record 'h publisher =
  pub_endpoint :: string
  pub_bound :: nat
  pub_queue :: "'h block_stored list"

record 'h event_publisher =
  ep_endpoints :: "(string, string) dict"
  ep_block_size :: int
  ep_pubs :: "(string, 'h publisher) dict"
  ep_missing :: "string list"

definition event_publisher_init :: "(string, string) dict \<Rightarrow> int \<Rightarrow> 'h event_publisher" where
  "event_publisher_init endpoints block_size =
     \<lparr>ep_endpoints = endpoints, ep_block_size = block_size, ep_pubs = [], ep_missing = []\<rparr>"

definition publisher_for ::
  "(string \<Rightarrow> kv_exn + nat) \<Rightarrow> string \<Rightarrow> string \<Rightarrow> 'h event_publisher \<Rightarrow> (kv_exn + 'h publisher) \<times> 'h event_publisher" where
  "publisher_for mk_pub inst endpoint ep = (case map_of (ep_pubs ep) inst of
     Some pub \<Rightarrow> (Inr pub, ep)
   | None \<Rightarrow>
       (case mk_pub endpoint of
          Inl e \<Rightarrow> (Inl e, ep)
        | Inr bound \<Rightarrow>
            (let pub = \<lparr>pub_endpoint = endpoint, pub_bound = bound, pub_queue = []\<rparr>
             in (Inr pub, ep\<lparr>ep_pubs := dict_set inst pub (ep_pubs ep)\<rparr>))))"

definition enqueue_event :: "string \<Rightarrow> 'h publisher \<Rightarrow> 'h block_stored \<Rightarrow> 'h event_publisher \<Rightarrow> 'h event_publisher" where
  "enqueue_event inst pub ev ep =
     (if pub_bound pub > 0 \<and> length (pub_queue pub) \<ge> pub_bound pub then ep
      else ep\<lparr>ep_pubs := dict_set inst (pub\<lparr>pub_queue := pub_queue pub @ [ev]\<rparr>) (ep_pubs ep)\<rparr>)"

definition block_stored_of :: "('h \<Rightarrow> 'g) \<Rightarrow> time \<Rightarrow> 'h block_chain \<Rightarrow> 'g block_stored" where
  "block_stored_of convert now chain = \<lparr>bs_block_hashes = map convert (bc_block_hashes chain),
     bs_parent_block_hash = map_option convert (bc_parent_block_hash chain), bs_token_ids = bc_token_ids chain,
     bs_block_size = bc_block_size chain, bs_medium = ''CPU'', bs_group_idx = 0, bs_kind = ''full_attention'',
     bs_rank = 0, bs_ts = now\<rparr>"

definition publish_block_stored ::
  "'h vllm \<Rightarrow> ('h \<Rightarrow> 'g) \<Rightarrow> (string \<Rightarrow> kv_exn + nat) \<Rightarrow> time \<Rightarrow> prefix \<Rightarrow> instance_id \<Rightarrow> 'g event_publisher \<Rightarrow>
   (kv_exn + unit) \<times> 'g event_publisher" where
  "publish_block_stored v convert mk_pub now p target ep = (case map_of (ep_endpoints ep) target of
     None \<Rightarrow> (Inr (), if target \<in> set (ep_missing ep) then ep else ep\<lparr>ep_missing := ep_missing ep @ [target]\<rparr>)
   | Some endpoint \<Rightarrow>
       (case hash_token_block_chain v (token_ids p) (ep_block_size ep) of
          Inl e \<Rightarrow> (Inl e, ep)
        | Inr chain \<Rightarrow>
            if bc_block_hashes chain = [] then (Inr (), ep)
            else bind_st (publisher_for mk_pub target endpoint ep) (\<lambda>pub ep.
                   (Inr (), enqueue_event target pub (block_stored_of convert now chain) ep))))"

text \<open>The publishers are handed to their own shutdown.\<close>

definition event_publisher_shutdown :: "'h event_publisher \<Rightarrow> 'h publisher list \<times> 'h event_publisher" where
  "event_publisher_shutdown ep = (dict_vals (ep_pubs ep), ep\<lparr>ep_pubs := []\<rparr>)"

section \<open>Properties\<close>

text \<open>Each publisher is on the endpoint of its instance, holds at most its bound, and there is one per instance.\<close>

definition publishers_ok :: "'h event_publisher \<Rightarrow> bool" where
  "publishers_ok ep = (distinct (dict_keys (ep_pubs ep)) \<and>
     (\<forall>(i, pub) \<in> set (ep_pubs ep). map_of (ep_endpoints ep) i = Some (pub_endpoint pub) \<and>
        (pub_bound pub > 0 \<longrightarrow> length (pub_queue pub) \<le> pub_bound pub)))"

lemma publishers_ok_set:
  assumes "publishers_ok ep" "map_of (ep_endpoints ep) i = Some (pub_endpoint pub)"
    and "pub_bound pub > 0 \<longrightarrow> length (pub_queue pub) \<le> pub_bound pub"
  shows "publishers_ok (ep\<lparr>ep_pubs := dict_set i pub (ep_pubs ep)\<rparr>)"
proof -
  have d: "distinct (dict_keys (dict_set i pub (ep_pubs ep)))"
    using assms(1) by (simp add: publishers_ok_def distinct_update)
  have "(j, q) = (i, pub) \<or> (j, q) \<in> set (ep_pubs ep)" if "(j, q) \<in> set (dict_set i pub (ep_pubs ep))" for j q
  proof -
    have "map_of (dict_set i pub (ep_pubs ep)) j = Some q" using d that by simp
    then show ?thesis by (auto simp: update_conv' dest: map_of_SomeD split: if_splits)
  qed
  then show ?thesis using assms d unfolding publishers_ok_def by fastforce
qed

lemma publisher_for_ok:
  assumes "publishers_ok ep" "map_of (ep_endpoints ep) i = Some endpoint"
    and "publisher_for mk_pub i endpoint ep = (r, ep')"
  shows "publishers_ok ep'" "ep_endpoints ep' = ep_endpoints ep"
    "r = Inr pub \<Longrightarrow> pub_endpoint pub = endpoint \<and> (pub_bound pub > 0 \<longrightarrow> length (pub_queue pub) \<le> pub_bound pub)"
proof -
  have known: "pub_endpoint q = endpoint \<and> (pub_bound q > 0 \<longrightarrow> length (pub_queue q) \<le> pub_bound q)"
    if "map_of (ep_pubs ep) i = Some q" for q
    using assms(1,2) map_of_SomeD [OF that] unfolding publishers_ok_def by auto
  show "publishers_ok ep'" using assms publishers_ok_set [OF assms(1), of i]
    by (auto simp: publisher_for_def Let_def split: option.splits sum.splits)
  show "ep_endpoints ep' = ep_endpoints ep"
    using assms(3) by (auto simp: publisher_for_def Let_def split: option.splits sum.splits)
  show "r = Inr pub \<Longrightarrow> pub_endpoint pub = endpoint \<and> (pub_bound pub > 0 \<longrightarrow> length (pub_queue pub) \<le> pub_bound pub)"
    using assms(3) known by (auto simp: publisher_for_def Let_def split: option.splits sum.splits)
qed

lemma publish_ok:
  assumes "publishers_ok ep" "publish_block_stored v convert mk_pub now p target ep = (r, ep')"
  shows "publishers_ok ep'"
proof (cases "map_of (ep_endpoints ep) target")
  case None
  then have "ep' = ep \<or> ep' = ep\<lparr>ep_missing := ep_missing ep @ [target]\<rparr>"
    using assms(2) by (simp add: publish_block_stored_def split: if_splits)
  then show ?thesis using assms(1) by (auto simp: publishers_ok_def)
next
  case (Some endpoint)
  obtain x ep1 where m: "publisher_for mk_pub target endpoint ep = (x, ep1)" by fastforce
  note pf = publisher_for_ok [OF assms(1) Some m]
  consider "ep' = ep" | e where "x = Inl e" "ep' = ep1" | pub ev where "x = Inr pub" "ep' = enqueue_event target pub ev ep1"
    using assms(2) Some by (cases x) (auto simp: publish_block_stored_def m split: sum.splits if_splits)
  then show ?thesis
  proof cases
    case 3
    let ?p = "pub\<lparr>pub_queue := pub_queue pub @ [ev]\<rparr>"
    have "publishers_ok (ep1\<lparr>ep_pubs := dict_set target ?p (ep_pubs ep1)\<rparr>)" if "\<not> (pub_bound pub > 0 \<and> length (pub_queue pub) \<ge> pub_bound pub)"
      using pf(2) pf(3) [OF 3(1)] Some that by (intro publishers_ok_set [OF pf(1)]) auto
    then show ?thesis using pf(1) 3(2) by (simp add: enqueue_event_def)
  qed (use assms(1) pf(1) in auto)
qed




end
