(* ===== verification/Daemon.thy ===== *)
theory Daemon
  imports Api Instances Admin_Laws Mooncake
begin

text \<open>
  The process (\<^verbatim>\<open>daemon.py\<close>): the assembly of the backend from its arguments, the start-up checks, and the order
  of start-up and shutdown.

  A run is the list of the actions it takes. What the environment decides (whether a call returns, raises or
  takes too long, whether a signal comes first) is a record of answers. \<^verbatim>\<open>os._exit\<close> ends the run without the
  closing block.
\<close>

section \<open>Assembly\<close>

record daemon_args =
  da_master :: string
  da_model_name :: string
  da_block_size :: int
  da_tp_size :: int
  da_peer_tp_size :: "int option"
  da_put_step :: int
  da_instance_segs :: "string list"
  da_capability :: string
  da_admin :: "string option"
  da_submit_concurrency :: int
  da_rpc_timeout :: time
  da_lease_ttl :: time
  da_listen :: string

text \<open>\<^verbatim>\<open>s.rsplit(":", 1)[0]\<close>: the text before the last colon.\<close>

definition before_last_colon :: "string \<Rightarrow> string" where
  "before_last_colon s = (if CHR '':'' \<in> set s then rev (tl (dropWhile (\<lambda>c. c \<noteq> CHR '':'') (rev s))) else s)"

definition admin_base :: "daemon_args \<Rightarrow> string" where
  "admin_base args = (case da_admin args of
     Some (c # cs) \<Rightarrow> c # cs
   | _ \<Rightarrow> ''http://'' @ before_last_colon (da_master args) @ '':9003'')"

definition build_backend ::
  "'h vllm \<Rightarrow> (string \<Rightarrow> string) \<Rightarrow> daemon_args \<Rightarrow> ledger \<Rightarrow> kv_exn + 'h backend_env \<times> string \<times> backend" where
  "build_backend v sha args ledger =
     bind_res (directory_from_specs (da_instance_segs args)) (\<lambda>directory.
       let env = \<lparr>be_vllm = v,
             be_keys = \<lparr>kc_model_name = da_model_name args, kc_block_size = da_block_size args, kc_tp_size = da_tp_size args,
               kc_peer_tp_size = da_peer_tp_size args, kc_put_step = da_put_step args\<rparr>,
             be_locate = locate directory, be_sha = sha,
             be_capability = (if da_capability args = ''main'' then mooncake_main else mooncake_v0311),
             be_has_admin = True, be_submit_concurrency = da_submit_concurrency args,
             be_lease_ttl = da_lease_ttl args, be_rpc_timeout = da_rpc_timeout args\<rparr>
       in bind_res (backend_init env (Some (Some ledger))) (\<lambda>b. Inr (env, admin_base args, b)))"

text \<open>\<open>fetch\<close> reads the administration port; a backend without one cannot be checked.\<close>

definition check_instance_segs_against_admin ::
  "bool \<Rightarrow> (string \<Rightarrow> kv_exn + json option) \<Rightarrow> daemon_args \<Rightarrow> kv_exn + unit" where
  "check_instance_segs_against_admin has_admin fetch args =
     (if \<not> has_admin then Inl AdminMainError
      else bind_res (map_res parse_instance_segs (da_instance_segs args)) (\<lambda>specs.
        bind_res (get_segments_detail fetch) (validate_configured_segs (concat (map snd specs)))))"

section \<open>Serving\<close>

datatype action =
    Connect | Build | Check_Segs | Make_Keepalive | Make_Engine | Rebuild | Track_Restored | Gc_Tasks
  | Keepalive_Start | Engine_Start | Grpc_Start | Grpc_Stop | Engine_Shutdown | Keepalive_Stop | Drain bool
  | Keepalive_Close | Backend_Close | Client_Close | Ledger_Close | Hard_Exit

text \<open>A wait for a call and the stop signal: the call ends, the signal comes first, or neither in time.\<close>

datatype 'r first_of = First_Call "kv_exn + 'r" | First_Signal | First_Neither

record serve_env =
  sv_connect :: "unit first_of"
  sv_build :: "kv_exn + unit"
  sv_check :: "kv_exn + unit"
  sv_keepalive :: "kv_exn + unit"
  sv_engine :: "kv_exn + unit"
  sv_rebuild :: "bool first_of"
  sv_gc :: "kv_exn + unit"
  sv_listen :: bool
  sv_grpc :: "kv_exn + unit"
  sv_wait_stop :: "kv_exn + unit"
  sv_shutdown :: "kv_exn + unit"
  sv_drained :: bool

text \<open>Why a run leaves its main block: it returns, an exception, or the process is gone.\<close>

datatype leave = L_Raise kv_exn | L_Gone

record daemon =
  dm_trace :: "action list"
  dm_backend :: bool
  dm_keepalive :: bool
  dm_keepalive_started :: bool
  dm_engine :: bool
  dm_engine_shut :: bool

definition act :: "action \<Rightarrow> daemon \<Rightarrow> daemon" where
  "act a d = d\<lparr>dm_trace := dm_trace d @ [a]\<rparr>"

definition raise_or :: "kv_exn + unit \<Rightarrow> daemon \<Rightarrow> (leave + unit) \<times> daemon" where
  "raise_or r d = (case r of Inl e \<Rightarrow> (Inl (L_Raise e), d) | Inr _ \<Rightarrow> (Inr (), d))"

definition await_call :: "'r first_of \<Rightarrow> daemon \<Rightarrow> (leave + 'r) \<times> daemon" where
  "await_call w d = (case w of
     First_Call (Inl e) \<Rightarrow> (Inl (L_Raise e), d)
   | First_Call (Inr x) \<Rightarrow> (Inr x, d)
   | First_Signal \<Rightarrow> (Inl L_Gone, act Hard_Exit d)
   | First_Neither \<Rightarrow> (Inl L_Gone, act Hard_Exit d))"

definition start_up :: "serve_env \<Rightarrow> daemon \<Rightarrow> (leave + unit) \<times> daemon" where
  "start_up env d =
     bind_st (await_call (sv_connect env) (act Connect d)) (\<lambda>_ d.
     bind_st (raise_or (sv_build env) (act Build d)) (\<lambda>_ d.
     bind_st (raise_or (sv_check env) (act Check_Segs (d\<lparr>dm_backend := True\<rparr>))) (\<lambda>_ d.
     bind_st (raise_or (sv_keepalive env) (act Make_Keepalive d)) (\<lambda>_ d.
     bind_st (raise_or (sv_engine env) (act Make_Engine (d\<lparr>dm_keepalive := True\<rparr>))) (\<lambda>_ d.
     bind_st (await_call (sv_rebuild env) (act Rebuild (d\<lparr>dm_engine := True\<rparr>))) (\<lambda>restored d.
     bind_st (raise_or (sv_gc env) (act Gc_Tasks (if restored then act Track_Restored d else d))) (\<lambda>_ d.
     let d = act Engine_Start ((act Keepalive_Start d)\<lparr>dm_keepalive_started := True\<rparr>) in
     if sv_listen env then raise_or (sv_grpc env) (act Grpc_Start d) else (Inr (), d))))))))"

definition serve_body :: "serve_env \<Rightarrow> daemon \<Rightarrow> (leave + unit) \<times> daemon" where
  "serve_body env d =
     bind_st (start_up env d) (\<lambda>_ d.
     bind_st (raise_or (sv_wait_stop env) d) (\<lambda>_ d.
     let d = act Engine_Shutdown (if sv_listen env then act Grpc_Stop d else d) in
     bind_st (raise_or (sv_shutdown env) d) (\<lambda>_ d.
     (Inr (), act Keepalive_Stop (d\<lparr>dm_engine_shut := True\<rparr>)))))"

definition close_up :: "serve_env \<Rightarrow> daemon \<Rightarrow> daemon" where
  "close_up env d =
     (let d = (if dm_engine d \<and> \<not> dm_engine_shut d then (act Engine_Shutdown d)\<lparr>dm_engine_shut := True\<rparr> else d);
          d = (if dm_keepalive d \<and> dm_keepalive_started d then act Keepalive_Stop d else d);
          d = act (Drain (sv_drained env)) d;
          d = (if dm_keepalive d then act Keepalive_Close d else d) in
      if \<not> sv_drained env then act Hard_Exit d
      else act Ledger_Close (act Client_Close (if dm_backend d then act Backend_Close d else d)))"

definition daemon_init :: daemon where
  "daemon_init = \<lparr>dm_trace = [], dm_backend = False, dm_keepalive = False, dm_keepalive_started = False,
     dm_engine = False, dm_engine_shut = False\<rparr>"

definition serve :: "serve_env \<Rightarrow> (leave + unit) \<times> action list" where
  "serve env = (case serve_body env daemon_init of
     (Inl L_Gone, d) \<Rightarrow> (Inl L_Gone, dm_trace d)
   | (r, d) \<Rightarrow> (if sv_drained env then r else Inl L_Gone, dm_trace (close_up env d)))"

text \<open>The answers that follow from the arguments.\<close>

definition forget_result :: "kv_exn + 'a \<Rightarrow> kv_exn + unit" where
  "forget_result r = (case r of Inl e \<Rightarrow> Inl e | Inr _ \<Rightarrow> Inr ())"

definition wired ::
  "'h vllm \<Rightarrow> (string \<Rightarrow> string) \<Rightarrow> daemon_args \<Rightarrow> ledger \<Rightarrow> (string \<Rightarrow> kv_exn + json option) \<Rightarrow> serve_env \<Rightarrow> serve_env" where
  "wired v sha args ledger fetch env = env\<lparr>
     sv_build := forget_result (build_backend v sha args ledger),
     sv_check := check_instance_segs_against_admin True fetch args,
     sv_listen := da_listen args \<noteq> []\<rparr>"

text \<open>The checks before anything is started. The result is the exit status, unless serving raises.\<close>

definition daemon_run ::
  "'h vllm \<Rightarrow> (string \<Rightarrow> string) \<Rightarrow> daemon_args \<Rightarrow> ledger \<Rightarrow> (string \<Rightarrow> kv_exn + json option) \<Rightarrow> serve_env \<Rightarrow>
   (leave + int) \<times> action list" where
  "daemon_run v sha args ledger fetch env =
     (let admin = py_strip (case da_admin args of None \<Rightarrow> [] | Some a \<Rightarrow> a) in
      if admin = [] then (Inr 1, [])
      else if strip_head ''http://'' admin = None \<and> strip_head ''https://'' admin = None then (Inr 1, [])
      else if da_capability args = ''v0311'' then (Inr 1, [])
      else (case serve (wired v sha args ledger fetch env) of
              (Inl L_Gone, t) \<Rightarrow> (Inr 1, t)
            | (Inl (L_Raise e), t) \<Rightarrow> (Inl (L_Raise e), t)
            | (Inr _, t) \<Rightarrow> (Inr 0, t)))"

section \<open>The order of shutdown\<close>

text \<open>Every \<open>y\<close> comes after the first \<open>x\<close>.\<close>

definition only_after :: "action \<Rightarrow> action \<Rightarrow> action list \<Rightarrow> bool" where
  "only_after x y t = (y \<notin> set (takeWhile (\<lambda>a. a \<noteq> x) t))"

definition closing_ok :: "action list \<Rightarrow> bool" where
  "closing_ok t =
     (if Hard_Exit \<in> set t then last t = Hard_Exit \<and> Client_Close \<notin> set t \<and> Ledger_Close \<notin> set t
      else only_after (Drain True) Client_Close t \<and> only_after Client_Close Ledger_Close t \<and> last t = Ledger_Close \<and>
        (Rebuild \<in> set t \<longrightarrow> only_after Engine_Shutdown (Drain True) t) \<and>
        (Keepalive_Start \<in> set t \<longrightarrow> only_after Keepalive_Stop (Drain True) t))"

text \<open>The state while the main block runs, what it has left when a stage ends, and when the process is gone.\<close>

definition body_ok :: "daemon \<Rightarrow> bool" where
  "body_ok d = (set (dm_trace d) \<inter> {Drain True, Drain False, Client_Close, Ledger_Close, Hard_Exit} = {} \<and>
     (Rebuild \<in> set (dm_trace d) \<longrightarrow> dm_engine d) \<and>
     (dm_engine_shut d \<longrightarrow> Engine_Shutdown \<in> set (dm_trace d)) \<and>
     (Keepalive_Start \<in> set (dm_trace d) \<longrightarrow> dm_keepalive d \<and> dm_keepalive_started d))"

definition gone_ok :: "daemon \<Rightarrow> bool" where
  "gone_ok d = (\<exists>u. dm_trace d = u @ [Hard_Exit] \<and> set u \<inter> {Client_Close, Ledger_Close} = {})"

definition stage_ok :: "(daemon \<Rightarrow> bool) \<Rightarrow> (leave + 'r) \<times> daemon \<Rightarrow> bool" where
  "stage_ok P m = (case m of
     (Inl L_Gone, d) \<Rightarrow> gone_ok d
   | (Inl (L_Raise e), d) \<Rightarrow> body_ok d
   | (Inr x, d) \<Rightarrow> body_ok d \<and> P d)"

lemma stage_bind:
  assumes "stage_ok P m" "\<And>x d. body_ok d \<Longrightarrow> P d \<Longrightarrow> stage_ok Q (f x d)"
  shows "stage_ok Q (bind_st m f)"
  using assms by (cases m; cases "fst m") (auto simp: stage_ok_def split: leave.splits)

lemma stage_raise: "body_ok d \<Longrightarrow> P d \<Longrightarrow> stage_ok P (raise_or r d)"
  by (simp add: stage_ok_def raise_or_def split: sum.splits)

lemma stage_await: "body_ok d \<Longrightarrow> P d \<Longrightarrow> stage_ok P (await_call w d)"
  by (auto simp: stage_ok_def await_call_def act_def gone_ok_def body_ok_def split: first_of.splits sum.splits)

lemma stage_raise_then:
  "body_ok d \<Longrightarrow> P d \<Longrightarrow> (\<And>x d. body_ok d \<Longrightarrow> P d \<Longrightarrow> stage_ok Q (f x d)) \<Longrightarrow> stage_ok Q (bind_st (raise_or r d) f)"
  by (rule stage_bind [OF stage_raise])

lemma stage_await_then:
  "body_ok d \<Longrightarrow> P d \<Longrightarrow> (\<And>x d. body_ok d \<Longrightarrow> P d \<Longrightarrow> stage_ok Q (f x d)) \<Longrightarrow> stage_ok Q (bind_st (await_call w d) f)"
  by (rule stage_bind [OF stage_await])

lemma body_ok_plain:
  "body_ok d \<Longrightarrow> a \<in> {Connect, Build, Check_Segs, Make_Keepalive, Make_Engine, Track_Restored, Gc_Tasks, Engine_Start, Grpc_Start, Grpc_Stop, Engine_Shutdown, Keepalive_Stop} \<Longrightarrow>
   body_ok (act a d)"
  "body_ok d \<Longrightarrow> body_ok (d\<lparr>dm_backend := True\<rparr>)" "body_ok d \<Longrightarrow> body_ok (d\<lparr>dm_keepalive := True\<rparr>)"
  "body_ok d \<Longrightarrow> body_ok (act Rebuild (d\<lparr>dm_engine := True\<rparr>))"
  "body_ok d \<Longrightarrow> dm_keepalive d \<Longrightarrow> body_ok ((act Keepalive_Start d)\<lparr>dm_keepalive_started := True\<rparr>)"
  by (auto simp: body_ok_def act_def)

lemma start_up_ok:
  assumes "body_ok d"
  shows "stage_ok (\<lambda>d. True) (start_up env d)"
  unfolding start_up_def
  apply (rule stage_await_then [where P = "\<lambda>d. True"], simp add: assms body_ok_plain, simp)
  apply (rule stage_raise_then [where P = "\<lambda>d. True"], simp add: body_ok_plain, simp)
  apply (rule stage_raise_then [where P = "\<lambda>d. True"], simp add: body_ok_plain, simp)
  apply (rule stage_raise_then [where P = "\<lambda>d. True"], simp add: body_ok_plain, simp)
  apply (rule stage_raise_then [where P = dm_keepalive], simp add: body_ok_plain, simp add: act_def)
  apply (rule stage_await_then [where P = dm_keepalive], simp add: body_ok_plain, simp add: act_def)
  apply (rule stage_raise_then [where P = dm_keepalive], simp add: body_ok_plain, simp add: act_def)
  apply (simp add: Let_def stage_raise body_ok_plain)
  apply (simp add: stage_ok_def body_ok_plain)
  done

lemma serve_body_ok: "stage_ok dm_engine_shut (serve_body env daemon_init)"
proof -
  have "body_ok daemon_init" by (simp add: body_ok_def daemon_init_def)
  note start = stage_bind [OF start_up_ok [OF this]]
  show ?thesis
    unfolding serve_body_def Let_def
    by (rule start, rule stage_raise_then [where P = "\<lambda>d. True"], assumption, simp,
        rule stage_raise_then [where P = "\<lambda>d. Engine_Shutdown \<in> set (dm_trace d)"])
      (auto simp: stage_ok_def body_ok_plain, auto simp: body_ok_def act_def)
qed

lemma close_up_ok:
  assumes "body_ok d"
  shows "closing_ok (dm_trace (close_up env d))"
proof -
  let ?t = "dm_trace d"
  let ?e = "if dm_engine d \<and> \<not> dm_engine_shut d then [Engine_Shutdown] else []"
  let ?k = "if dm_keepalive d \<and> dm_keepalive_started d then [Keepalive_Stop] else []"
  let ?u = "?t @ ?e @ ?k"
  let ?c = "if dm_keepalive d then [Keepalive_Close] else []"
  let ?b = "if dm_backend d then [Backend_Close] else []"
  have t: "dm_trace (close_up env d) = ?u @ Drain (sv_drained env) # ?c @
      (if sv_drained env then ?b @ [Client_Close, Ledger_Close] else [Hard_Exit])"
    by (simp add: close_up_def act_def Let_def)
  have u: "set ?u \<inter> {Drain True, Drain False, Client_Close, Ledger_Close, Hard_Exit} = {}"
    using assms by (auto simp: body_ok_def)
  have e: "Rebuild \<in> set ?t \<Longrightarrow> Engine_Shutdown \<in> set ?u" "Keepalive_Start \<in> set ?t \<Longrightarrow> Keepalive_Stop \<in> set ?u"
    using assms by (auto simp: body_ok_def)
  have w: "takeWhile (\<lambda>a. a \<noteq> x) (?u @ ys) = ?u @ takeWhile (\<lambda>a. a \<noteq> x) ys" if "x \<notin> set ?u" for x ys
    using that by (subst takeWhile_append2) auto
  have v: "takeWhile (\<lambda>a. a \<noteq> x) (?u @ ys) = takeWhile (\<lambda>a. a \<noteq> x) ?u" if "x \<in> set ?u" for x ys
    using that by (subst takeWhile_append1 [where x = x]) auto
  have n: "y \<notin> set (takeWhile P ?u)" if "y \<notin> set ?u" for y P using that set_takeWhileD by metis
  show ?thesis
  proof (cases "sv_drained env")
    case True
    let ?r = "Drain True # ?c @ ?b @ [Client_Close, Ledger_Close]"
    have t: "dm_trace (close_up env d) = ?u @ ?r" using t True by simp
    have "only_after (Drain True) Client_Close (?u @ ?r)" "only_after Client_Close Ledger_Close (?u @ ?r)"
      using u by (auto simp: only_after_def w simp del: append_assoc)
    moreover have "only_after Engine_Shutdown (Drain True) (?u @ ?r)" if "Rebuild \<in> set (?u @ ?r)"
    proof -
      have "Engine_Shutdown \<in> set ?u" using e(1) that by (auto split: if_splits)
      then show ?thesis using v [of Engine_Shutdown ?r] n [of "Drain True"] u unfolding only_after_def by auto
    qed
    moreover have "only_after Keepalive_Stop (Drain True) (?u @ ?r)" if "Keepalive_Start \<in> set (?u @ ?r)"
    proof -
      have "Keepalive_Stop \<in> set ?u" using e(2) that by (auto split: if_splits)
      then show ?thesis using v [of Keepalive_Stop ?r] n [of "Drain True"] u unfolding only_after_def by auto
    qed
    moreover have "Hard_Exit \<notin> set (?u @ ?r)" using u by auto
    ultimately show ?thesis unfolding t closing_ok_def by simp
  next
    case False
    then show ?thesis using u by (auto simp: t closing_ok_def)
  qed
qed

text \<open>C34. However a run of the daemon goes (a failure or a signal at any point of start-up, a normal shutdown, calls
  that do not return), it either exits at once without tearing anything down, or it closes the client only after
  the remote calls are drained and the ledger after the client, and drains them only after a started engine was
  shut down and a started keepalive loop was stopped.\<close>

theorem daemon_closes_in_order: "closing_ok (snd (serve env))"
proof -
  obtain r d where b: "serve_body env daemon_init = (r, d)" by fastforce
  have s: "stage_ok dm_engine_shut (r, d)" using serve_body_ok [of env] by (simp add: b)
  show ?thesis
  proof (cases "r = Inl L_Gone")
    case True
    then show ?thesis using s by (auto simp: serve_def b stage_ok_def gone_ok_def closing_ok_def)
  next
    case False
    then have "body_ok d" using s by (auto simp: stage_ok_def split: sum.splits leave.splits)
    from close_up_ok [OF this, of env] False show ?thesis by (auto simp: serve_def b split: sum.splits leave.splits)
  qed
qed

end
