(* ===== verification/Node_Frame.thy ===== *)
theory Node_Frame
  imports Node_Scheduler
begin

text \<open>
  What the scheduler does to the state its host adds to it. The worker engine extends the scheduler's record
  with its own fields and hands the scheduler two callbacks; nothing else in the scheduler touches those fields.
  The locale \<open>node_host\<close> states what the host needs of its callbacks to keep a property of its own state, and
  its lemmas carry the property through every operation of the scheduler, raising ones included.
\<close>

text \<open>The request table is indexed by the ids the requests carry.\<close>

definition keys_ok :: "('a, 'm) node_scheme \<Rightarrow> bool" where
  "keys_ok n \<longleftrightarrow> (\<forall>rid r. n_reqs n rid = Some r \<longrightarrow> req_id r = rid)"

lemma keys_okD: "keys_ok n \<Longrightarrow> n_reqs n rid = Some r \<Longrightarrow> req_id r = rid"
  by (simp add: keys_ok_def)

lemma keys_ok_cong: "n_reqs n' = n_reqs n \<Longrightarrow> keys_ok n' = keys_ok n"
  by (simp add: keys_ok_def)

text \<open>What of a request the scheduler never changes, and a table in which every request comes from another.\<close>

definition origin :: "req \<Rightarrow> string \<times> int list \<times> sampling_params" where
  "origin r = (req_id r, prompt_token_ids r, req_sampling r)"

definition keeps_origin :: "('a, 'm) node_scheme \<Rightarrow> ('a, 'm) node_scheme \<Rightarrow> bool" where
  "keeps_origin n n' \<longleftrightarrow>
    (\<forall>rid r'. n_reqs n' rid = Some r' \<longrightarrow> (\<exists>r. n_reqs n rid = Some r \<and> origin r' = origin r))"

lemma keeps_origin_same: "n_reqs n' = n_reqs n \<Longrightarrow> keeps_origin n n'"
  by (simp add: keeps_origin_def)

lemma keeps_origin_upd:
  "n_reqs n' = (n_reqs n)(rid \<mapsto> r') \<Longrightarrow> n_reqs n rid = Some r \<Longrightarrow> origin r' = origin r \<Longrightarrow> keeps_origin n n'"
  by (auto simp: keeps_origin_def)

lemma origin_update [simp]:
  "origin (r\<lparr>num_computed_tokens := i\<rparr>) = origin r" "origin (r\<lparr>prefill_blocks := i\<rparr>) = origin r"
  "origin (r\<lparr>reused_blocks := i\<rparr>) = origin r" "origin (r\<lparr>finished := b\<rparr>) = origin r"
  "origin (r\<lparr>finish_reason := x\<rparr>) = origin r" "origin (push_tokens ts r) = origin r"
  by (simp_all add: origin_def push_tokens_def)

lemma origin_id: "origin r = origin r' \<Longrightarrow> req_id r = req_id r'"
  by (simp add: origin_def)

text \<open>What the scheduler tells its host is complete: a finished request with all its tokens.\<close>

definition complete_req :: "req \<Rightarrow> bool" where
  "complete_req r \<longleftrightarrow> finished r \<and> max_new_tokens (req_sampling r) \<le> num_output_tokens r"

lemma schedule_frame:
  "node.more (snd (schedule n)) = node.more n" "n_reqs (snd (schedule n)) = n_reqs n"
  by (auto simp: schedule_def begin_step_def Let_def split: prod.splits sum.splits)

lemma respect_frame:
  "node.more (snd (respect_effective_sets out h n)) = node.more n"
  "n_reqs (snd (respect_effective_sets out h n)) = n_reqs n"
  by (simp_all add: respect_effective_sets_def Let_def)

lemma respect_frame_eq:
  "respect_effective_sets out h n = (out', n') \<Longrightarrow> node.more n' = node.more n \<and> n_reqs n' = n_reqs n"
  using respect_frame [of out h n] by simp

lemma run_batch_frame:
  "node.more (snd (run_batch env out n)) = node.more n" "n_reqs (snd (run_batch env out n)) = n_reqs n"
  by (auto simp: run_batch_def Let_def split: prod.splits sum.splits dest!: respect_frame_eq)

lemma commit_frame:
  "node.more (snd (commit_extent env rid k n)) = node.more n"
  "n_reqs (snd (commit_extent env rid k n)) = n_reqs n"
  by (simp_all add: commit_extent_def split: prod.splits)

lemma set_req_frame: "node.more (set_req rid r n) = node.more n"
  by (simp add: set_req_def)

lemma record_tokens_frame:
  "node.more (record_tokens ro rid r spec k n) = node.more n"
  "n_reqs (record_tokens ro rid r spec k n) = (n_reqs n)(rid \<mapsto> push_tokens (produced_tokens ro rid r n) r)"
  by (simp_all add: record_tokens_def set_req_def Let_def)

lemma keep_drafts_frame:
  "node.more (keep_drafts ro rid r n) = node.more n" "n_reqs (keep_drafts ro rid r n) = n_reqs n"
  by (simp_all add: keep_drafts_def)

lemmas frame_simps = schedule_frame run_batch_frame commit_frame set_req_frame record_tokens_frame keep_drafts_frame

locale node_host =
  fixes env :: "('a, ('a, 'm) node_scheme) node_env" and Q :: "('a, 'm) node_scheme \<Rightarrow> bool"
  assumes host_keys: "Q n \<Longrightarrow> keys_ok n"
    and host_frame: "node.more n' = node.more n \<Longrightarrow> keeps_origin n n' \<Longrightarrow> Q n \<Longrightarrow> Q n'"
    and host_finish: "ne_on_finished env = Some f \<Longrightarrow> Q n \<Longrightarrow> complete_req r \<Longrightarrow>
      n_reqs n (req_id r) = Some r \<Longrightarrow> Q (f r n)"
    and host_before: "ne_before_schedule env = Some b \<Longrightarrow> Q n \<Longrightarrow> Q (b n)"
begin

lemma same_reqs: "node.more n' = node.more n \<Longrightarrow> n_reqs n' = n_reqs n \<Longrightarrow> Q n \<Longrightarrow> Q n'"
  using host_frame keeps_origin_same by blast

lemma set_req_Q: "Q n \<Longrightarrow> n_reqs n rid = Some r \<Longrightarrow> origin r' = origin r \<Longrightarrow> Q (set_req rid r' n)"
  by (rule host_frame [OF set_req_frame keeps_origin_upd [of _ n rid r' r]]) (simp_all add: set_req_def)

lemma then_do_Q: "Q (snd m) \<Longrightarrow> (\<And>n. m = (Inr (), n) \<Longrightarrow> Q n \<Longrightarrow> Q (snd (f n))) \<Longrightarrow> Q (snd (then_do m f))"
  by (cases m; cases "fst m") (auto simp: then_do_def)

lemma schedule_Q: "Q n \<Longrightarrow> Q (snd (schedule n))"
  by (rule same_reqs [OF schedule_frame])

lemma run_batch_Q: "Q n \<Longrightarrow> Q (snd (run_batch env out n))"
  by (rule same_reqs [OF run_batch_frame])

lemma commit_Q: "Q n \<Longrightarrow> Q (snd (commit_extent env rid k n))"
  by (rule same_reqs [OF commit_frame])

lemma apply_stat_Q: "Q n \<Longrightarrow> Q (apply_stat s n)"
proof (cases "n_reqs n (fst s)")
  case (Some r)
  assume "Q n"
  then have "Q (set_req (fst s) (r\<lparr>prefill_blocks := i, reused_blocks := j\<rparr>) n)" for i j
    by (rule set_req_Q [OF _ Some]) simp
  then show ?thesis using \<open>Q n\<close> Some by (simp add: apply_stat_def)
qed (simp add: apply_stat_def)

lemma apply_ready_stats_Q: "Q n \<Longrightarrow> Q (apply_ready_stats h n)"
proof -
  have "Q n \<Longrightarrow> Q (fold apply_stat ss n)" for ss
    by (induction ss arbitrary: n) (auto intro: apply_stat_Q)
  then show "Q n \<Longrightarrow> Q (apply_ready_stats h n)" by (simp add: apply_ready_stats_def)
qed

lemma finish_req_Q:
  assumes "Q n" "n_reqs n rid = Some r" "complete_req r"
  shows "Q (snd (finish_req env rid n))"
proof -
  have rid: "req_id r = rid" using keys_okD [OF host_keys] assms by blast
  have *: "Q n'" if "node.more n' = node.more n" "n_reqs n' = n_reqs n" for n'
    using same_reqs that assms(1) by blast
  have "Q (case ne_on_finished env of None \<Rightarrow> n' | Some f \<Rightarrow> f r n')"
    if "node.more n' = node.more n" "n_reqs n' = n_reqs n" for n'
    using host_finish [OF _ * [OF that] assms(3)] * [OF that] that(2) assms(2) rid by (auto split: option.splits)
  then show ?thesis
    by (auto simp: finish_req_def assms(2) Let_def intro!: * split: prod.splits sum.splits)
qed

lemma finish_if_done_Q:
  assumes "Q n" "n_reqs n rid = Some r"
  shows "Q (snd (finish_if_done env rid r n))"
proof -
  let ?r = "r\<lparr>finished := True, finish_reason := Some ''length''\<rparr>"
  have "Q (set_req rid ?r n)" by (rule set_req_Q [OF assms]) simp
  moreover have "n_reqs (set_req rid ?r n) rid = Some ?r" by (simp add: set_req_def)
  moreover have "complete_req ?r" if "max_new_tokens (req_sampling r) \<le> num_output_tokens r"
    using that by (simp add: complete_req_def num_output_tokens_def)
  ultimately show ?thesis using finish_req_Q assms(1) by (simp add: finish_if_done_def)
qed

lemma process_prompt_Q:
  assumes "Q n" "n_reqs n rid = Some r"
  shows "Q (snd (process_prompt env ro rid r c k n))"
proof -
  have "Q (snd (commit_extent env rid j (set_req rid (r\<lparr>num_computed_tokens := i\<rparr>) n)))" for i j
    by (rule commit_Q [OF set_req_Q [OF assms]]) simp
  moreover have "Q (n'\<lparr>n_pending_drafts := d\<rparr>)" if "Q n'" for n' d
    by (rule same_reqs [OF _ _ that]) simp_all
  ultimately show ?thesis
    unfolding process_prompt_def Let_def by (intro then_do_Q) auto
qed

lemma process_decode_Q:
  assumes "Q n" "n_reqs n rid = Some r"
  shows "Q (snd (process_decode env ro rid r spec k n))"
proof -
  let ?r = "push_tokens (produced_tokens ro rid r n) r"
  have rec: "Q (record_tokens ro rid r spec k n)"
    by (rule host_frame [OF record_tokens_frame(1) keeps_origin_upd [OF record_tokens_frame(2) assms(2)] assms(1)]) simp
  have "Q (snd (finish_if_done env rid ?r (keep_drafts ro rid ?r m)))"
    if "commit_extent env rid j (record_tokens ro rid r spec k n) = (Inr (), m)" "Q m" for j m
  proof (rule finish_if_done_Q)
    show "Q (keep_drafts ro rid ?r m)" by (rule same_reqs [OF keep_drafts_frame that(2)])
    show "n_reqs (keep_drafts ro rid ?r m) rid = Some ?r"
      using commit_frame(2) [of env rid j "record_tokens ro rid r spec k n"] that(1)
      by (simp add: keep_drafts_frame record_tokens_frame)
  qed
  then show ?thesis
    unfolding process_decode_def Let_def by (intro then_do_Q commit_Q rec)
qed

lemma process_one_Q: "Q n \<Longrightarrow> Q (snd (process_one env out ro e n))"
  by (auto simp: process_one_def Let_def intro: process_prompt_Q process_decode_Q split: option.splits)

lemma process_items_Q: "Q n \<Longrightarrow> Q (snd (process_items env out ro es n))"
  by (induction es arbitrary: n) (auto intro: then_do_Q process_one_Q)

lemma pop_Q: "Q n \<Longrightarrow> Q (snd (pop_and_process env n))"
proof -
  assume Q: "Q n"
  have "Q (n\<lparr>n_result_queue := bs, n_timeline := t\<rparr>)" for bs t by (rule same_reqs [OF _ _ Q]) simp_all
  moreover have "Q (m\<lparr>n_future_map := fm\<rparr>)" if "Q m" for m fm by (rule same_reqs [OF _ _ that]) simp_all
  ultimately show ?thesis using Q
    by (auto simp: pop_and_process_def process_batch_result_def Let_def
        intro!: then_do_Q process_items_Q apply_ready_stats_Q split: list.splits)
qed

lemma drain_Q: "Q n \<Longrightarrow> Q (snd (drain_results env n))"
proof -
  have "Q n \<Longrightarrow> Q (snd (drain_times k env n))" for k
    by (induction k arbitrary: n) (auto intro: then_do_Q pop_Q)
  then show "Q n \<Longrightarrow> Q (snd (drain_results env n))" by (simp add: drain_results_def)
qed

lemma before_Q: "Q n \<Longrightarrow> Q (run_before_schedule env n)"
  using host_before by (auto simp: run_before_schedule_def split: option.splits)

end

text \<open>The state a turn ends in, whatever it decides.\<close>

primrec turn_end :: "'s turn \<Rightarrow> 's" where
  "turn_end (Leave n) = n"
| "turn_end (Raise e n) = n"
| "turn_end (Again n) = n"

lemma turn_of_end:
  "Q (snd m) \<Longrightarrow> (\<And>n. Q n \<Longrightarrow> Q (turn_end (f n))) \<Longrightarrow> Q (turn_end (turn_of m f))"
  by (cases m; cases "fst m") (auto simp: turn_of_def)

context node_host
begin

lemma normal_turn_Q: "Q n \<Longrightarrow> Q (turn_end (normal_turn env n))"
proof -
  assume Q: "Q n"
  obtain x n1 where s: "schedule (run_before_schedule env n) = (x, n1)" by (rule prod.exhaust)
  have n1: "Q n1" using schedule_Q [OF before_Q [OF Q]] s by simp
  show ?thesis
  proof (cases x)
    case (Inl e)
    then show ?thesis using Q n1 by (simp add: normal_turn_def s)
  next
    case (Inr out)
    have "Q (turn_end (turn_of (drain_results env n1) (\<lambda>n2. if n_waiting n2 = [] \<and> n_running n2 = [] then Leave n2
        else if stop_requested env n2 then Leave n2 else Again n2)))"
      by (intro turn_of_end [where Q = Q] drain_Q n1) simp
    moreover have "Q (turn_end (turn_of (then_do (run_batch env out n1) (pop_and_process env)) Again))"
      by (intro turn_of_end [where Q = Q] then_do_Q run_batch_Q pop_Q n1) auto
    ultimately show ?thesis using Q Inr by (simp add: normal_turn_def s)
  qed
qed

lemma overlap_step_Q: "Q n \<Longrightarrow> Q (turn_end (overlap_step env d n))"
proof -
  assume Q: "Q n"
  obtain x n1 where s: "schedule n = (x, n1)" by (rule prod.exhaust)
  have n1: "Q n1" using schedule_Q [OF Q] s by simp
  show ?thesis
  proof (cases x)
    case (Inl e)
    then show ?thesis using n1 by (simp add: overlap_step_def s)
  next
    case (Inr out)
    have "Q (turn_end (turn_of (drain_results env n1) (\<lambda>n3. if \<not> has_work n3 then Leave n3
        else if stop_requested env n3 then Leave n3 else Again n3)))"
      by (intro turn_of_end [where Q = Q] drain_Q n1) simp
    moreover have "Q (turn_end (turn_of (run_batch env out n1) (\<lambda>n3. turn_of (if \<not> d \<and> 1 < length (n_result_queue n3)
        then pop_and_process env n3 else (Inr (), n3)) Again)))"
      by (intro turn_of_end [where Q = Q] run_batch_Q n1) (simp_all add: pop_Q)
    ultimately show ?thesis using Inr by (simp add: overlap_step_def s)
  qed
qed

lemma overlap_turn_Q: "Q n \<Longrightarrow> Q (turn_end (overlap_turn env n))"
proof -
  assume Q: "Q n"
  have "Q (turn_end (turn_of (if d then drain_results env (run_before_schedule env n)
      else (Inr (), run_before_schedule env n)) (overlap_step env d)))" for d
    by (intro turn_of_end [where Q = Q] overlap_step_Q) (simp_all add: drain_Q before_Q [OF Q])
  then show ?thesis using Q by (simp add: overlap_turn_def Let_def)
qed

end

end
