(* ===== verification/Worker_Engine.thy ===== *)
theory Worker_Engine
  imports Node_Frame Lifecycle
begin

text \<open>
  The worker engine (\<^verbatim>\<open>runtime/worker_engine.py\<close>): the queue of inbound requests, the table of requests in
  flight, the calls of the front end (\<open>start\<close>, \<open>stop\<close>, \<open>submit\<close>) and the loop thread.

  The engine's state extends the scheduler's record. An \<^verbatim>\<open>_Inbound\<close> object is a cell of \<open>w_items\<close> and its
  address is its index. The loop thread is a program counter and one step per atomic section; a turn of the
  scheduler's event loop is one step. A submit is two steps, the checks and the put, because it holds the lock
  in between while the loop may run.
\<close>

section \<open>State\<close>

record inbound =
  in_req :: req
  in_hint :: "prefix_hint option"
  in_done :: bool
  in_error :: "node_exn list"
  in_result :: "req list"

datatype loop_pc =
    PC_Unstarted | PC_Top | PC_Idle | PC_Busy | PC_Turn
  | PC_Fail node_exn | PC_Reject node_exn | PC_Set_Stop
  | PC_Final | PC_Sweep | PC_Exited

text \<open>\<open>w_lock\<close> is the submit that holds the lock between its checks and its put, \<open>w_log\<close> the failures of the
  step loop that were logged.\<close>

record 'a worker = "'a node" +
  w_items :: "inbound list"
  w_inbound :: "nat option list"
  w_inflight :: "(string, nat) dict"
  w_life :: worker_state
  w_stop :: bool
  w_started :: bool
  w_lock :: "nat option"
  w_pc :: loop_pc
  w_log :: "node_exn list"

definition worker_init :: "'a pool_iface \<Rightarrow> role_config \<Rightarrow> 'a worker" where
  "worker_init pool role = node.extend (node_init pool role)
     \<lparr>w_items = [], w_inbound = [], w_inflight = [], w_life = WS_IDLE, w_stop = False, w_started = False,
      w_lock = None, w_pc = PC_Unstarted, w_log = []\<rparr>"

primrec role_value :: "worker_role \<Rightarrow> string" where
  "role_value PREFILL = ''prefill''"
| "role_value DECODE_ROLE = ''decode''"
| "role_value HYBRID = ''hybrid''"

text \<open>The runner's part of the signal is passed in.\<close>

definition capacity_signal_of :: "string \<Rightarrow> bool \<Rightarrow> bool \<Rightarrow> 'a worker \<Rightarrow> capacity_signal" where
  "capacity_signal_of served loaded warmed w =
     \<lparr>cs_waiting = py_len (n_waiting w), cs_running = py_len (n_running w),
      cs_inflight_reqs = py_len (w_inflight w), cs_max_running_reqs = max_running_reqs (n_role w),
      cs_state = w_life w, cs_role = role_value (rc_role (n_role w)), cs_model_backend = model_backend (n_role w),
      cs_served_model_name = served, cs_model_loaded = loaded, cs_model_warmed = warmed\<rparr>"

section \<open>Settling an item\<close>

definition settle_error :: "node_exn \<Rightarrow> nat \<Rightarrow> 'a worker \<Rightarrow> 'a worker" where
  "settle_error e a w = w\<lparr>w_items := (w_items w)[a := (w_items w ! a)\<lparr>in_error := in_error (w_items w ! a) @ [e], in_done := True\<rparr>]\<rparr>"

definition settle_result :: "req \<Rightarrow> nat \<Rightarrow> 'a worker \<Rightarrow> 'a worker" where
  "settle_result r a w = w\<lparr>w_items := (w_items w)[a := (w_items w ! a)\<lparr>in_result := in_result (w_items w ! a) @ [r], in_done := True\<rparr>]\<rparr>"

section \<open>The loop's helpers\<close>

definition admit_item :: "nat \<Rightarrow> 'a worker \<Rightarrow> 'a worker" where
  "admit_item a w =
    (let item = w_items w ! a; rid = req_id (in_req item) in
     if rid \<in> set (dict_keys (w_inflight w)) \<or> has_req rid w then settle_error (NE_Py ValueError) a w
     else
       (let (x, w2) = add_request (in_req item) (in_hint item) (w\<lparr>w_inflight := dict_set rid a (w_inflight w)\<rparr>) in
        case x of
          Inl e \<Rightarrow> settle_error e a (w2\<lparr>w_inflight := dict_pop rid (w_inflight w2)\<rparr>)
        | Inr _ \<Rightarrow> w2))"

text \<open>The queue is taken apart from the front; a sentinel ends the drain once stop is set.\<close>

fun drain_loop :: "nat option list \<Rightarrow> 'a worker \<Rightarrow> 'a worker" where
  "drain_loop [] w = w\<lparr>w_inbound := []\<rparr>"
| "drain_loop (None # q) w = (if w_stop w then w\<lparr>w_inbound := q\<rparr> else drain_loop q (w\<lparr>w_inbound := q\<rparr>))"
| "drain_loop (Some a # q) w = drain_loop q (admit_item a (w\<lparr>w_inbound := q\<rparr>))"

definition drain_inbound :: "'a worker \<Rightarrow> 'a worker" where
  "drain_inbound w = drain_loop (w_inbound w) w"

definition on_req_finished :: "req \<Rightarrow> 'a worker \<Rightarrow> 'a worker" where
  "on_req_finished r w =
    (case map_of (w_inflight w) (req_id r) of
       None \<Rightarrow> w
     | Some a \<Rightarrow>
         (let (x, w2) = release_req (req_id r) (w\<lparr>w_inflight := dict_pop (req_id r) (w_inflight w)\<rparr>) in
          settle_result (case x of Some r' \<Rightarrow> r' | None \<Rightarrow> r) a w2))"

text \<open>What the agent answers to the finish is logged and dropped.\<close>

definition fail_one :: "'a agent_ops \<Rightarrow> node_exn \<Rightarrow> nat \<Rightarrow> 'a worker \<Rightarrow> 'a worker" where
  "fail_one ops e a w =
    (let (x, w1) = abandon_req (req_id (in_req (w_items w ! a))) w;
         r = (case x of Some r' \<Rightarrow> r' | None \<Rightarrow> in_req (w_items w ! a));
         w2 = w1\<lparr>n_pool := snd (pool_on_request_finished ops r (n_pool w1))\<rparr> in
     if in_done (w_items w2 ! a) then w2 else settle_error e a w2)"

definition fail_inflight :: "'a agent_ops \<Rightarrow> node_exn \<Rightarrow> 'a worker \<Rightarrow> 'a worker" where
  "fail_inflight ops e w = fold (fail_one ops e) (dict_vals (w_inflight w)) (w\<lparr>w_inflight := []\<rparr>)"

fun reject_all :: "node_exn \<Rightarrow> nat option list \<Rightarrow> 'a worker \<Rightarrow> 'a worker" where
  "reject_all e [] w = w\<lparr>w_inbound := []\<rparr>"
| "reject_all e (None # q) w = reject_all e q (w\<lparr>w_inbound := q\<rparr>)"
| "reject_all e (Some a # q) w =
    reject_all e q (let w1 = w\<lparr>w_inbound := q\<rparr> in if in_done (w_items w1 ! a) then w1 else settle_error e a w1)"

definition reject_inbound :: "node_exn \<Rightarrow> 'a worker \<Rightarrow> 'a worker" where
  "reject_inbound e w = reject_all e (w_inbound w) w"

section \<open>The loop thread\<close>

definition worker_env :: "'a agent_ops \<Rightarrow> executor \<Rightarrow> ('a, 'a worker) node_env" where
  "worker_env ops exec = \<lparr>ne_ops = ops, ne_exec = exec, ne_on_finished = Some on_req_finished,
     ne_before_schedule = Some drain_inbound, ne_should_stop = Some w_stop\<rparr>"

text \<open>One turn of \<^verbatim>\<open>run_until_idle\<close>; the overlap loop drains its results when it leaves.\<close>

definition run_turn :: "('a, ('a, 'm) node_scheme) node_env \<Rightarrow> ('a, 'm) node_scheme \<Rightarrow> ('a, 'm) node_scheme turn" where
  "run_turn env n =
    (if enable_overlap (n_role n) then
       (case overlap_turn env n of
          Leave n' \<Rightarrow> turn_of (drain_results env n') Leave
        | t \<Rightarrow> t)
     else normal_turn env n)"

text \<open>\<^verbatim>\<open>RuntimeError("WorkerEngine stopped")\<close>.\<close>

definition stopped_exn :: node_exn where
  "stopped_exn = NE_Py RuntimeError"

definition idle_get :: "'a worker \<Rightarrow> 'a worker" where
  "idle_get w = (case w_inbound w of
     [] \<Rightarrow> w\<lparr>w_pc := PC_Top\<rparr>
   | None # q \<Rightarrow>
       (let w1 = drain_inbound (w\<lparr>w_inbound := q\<rparr>) in
        w1\<lparr>w_pc := (if w_stop w1 \<and> \<not> has_work w1 then PC_Final else PC_Top)\<rparr>)
   | Some a # q \<Rightarrow> w\<lparr>w_inbound := q @ [Some a], w_pc := PC_Top\<rparr>)"

definition loop_step :: "('a, 'a worker) node_env \<Rightarrow> 'a worker \<Rightarrow> 'a worker" where
  "loop_step env w = (case w_pc w of
     PC_Unstarted \<Rightarrow> w
   | PC_Top \<Rightarrow>
       (if w_stop w then w\<lparr>w_pc := PC_Final\<rparr>
        else (let w1 = drain_inbound w in w1\<lparr>w_pc := (if has_work w1 then PC_Busy else PC_Idle)\<rparr>))
   | PC_Idle \<Rightarrow> idle_get w
   | PC_Busy \<Rightarrow> w\<lparr>w_pc := PC_Turn\<rparr>
   | PC_Turn \<Rightarrow>
       (case run_turn env w of
          Leave w' \<Rightarrow> w'\<lparr>w_pc := PC_Top\<rparr>
        | Raise e w' \<Rightarrow> w'\<lparr>w_pc := PC_Fail e, w_log := w_log w' @ [e]\<rparr>
        | Again w' \<Rightarrow> w')
   | PC_Fail e \<Rightarrow> (fail_inflight (ne_ops env) e w)\<lparr>w_pc := PC_Reject e\<rparr>
   | PC_Reject e \<Rightarrow> (reject_inbound e w)\<lparr>w_pc := PC_Set_Stop\<rparr>
   | PC_Set_Stop \<Rightarrow> w\<lparr>w_stop := True, w_pc := PC_Final\<rparr>
   | PC_Final \<Rightarrow> (reject_inbound stopped_exn w)\<lparr>w_pc := PC_Sweep\<rparr>
   | PC_Sweep \<Rightarrow>
       (if w_inflight w = [] then w\<lparr>w_pc := PC_Exited\<rparr>
        else (fail_inflight (ne_ops env) stopped_exn w)\<lparr>w_pc := PC_Exited\<rparr>)
   | PC_Exited \<Rightarrow> w)"

section \<open>The calls of the front end\<close>

text \<open>\<open>load\<close> is what loading and warming the model does: it returns or raises.\<close>

definition start :: "py_exn + unit \<Rightarrow> 'a worker \<Rightarrow> (py_exn + unit) \<times> 'a worker" where
  "start load w =
    (if w_started w \<or> w_pc w \<notin> {PC_Unstarted, PC_Exited} then (Inr (), w)
     else (case advance (w_life w) WS_BOOT of
       Inl e \<Rightarrow> (Inl e, w)
     | Inr s1 \<Rightarrow> (case warm s1 of
         Inl e \<Rightarrow> (Inl e, w\<lparr>w_life := s1\<rparr>)
       | Inr s2 \<Rightarrow> (case load of
           Inl e \<Rightarrow> (Inl e, w\<lparr>w_life := s2\<rparr>)
         | Inr _ \<Rightarrow> (case bind_res (ready s2) serve of
             Inl e \<Rightarrow> (Inl e, w\<lparr>w_life := s2\<rparr>)
           | Inr s3 \<Rightarrow> (Inr (), w\<lparr>w_life := s3, w_started := True, w_pc := PC_Top\<rparr>))))))"

text \<open>The part of \<open>stop\<close> under the lock; \<open>True\<close> says that the caller goes on to join the thread.\<close>

definition stop_request :: "'a worker \<Rightarrow> bool \<times> 'a worker" where
  "stop_request w =
    (if w_life w = WS_TERMINATE then (False, w)
     else if \<not> w_started w then (False, w\<lparr>w_life := WS_TERMINATE\<rparr>)
     else if w_stop w then (True, w)
     else (True, w\<lparr>w_life := WS_DRAIN, w_stop := True, w_inbound := w_inbound w @ [None]\<rparr>))"

text \<open>After the join: a thread that is still alive is left alone.\<close>

definition stop_join :: "'a worker \<Rightarrow> 'a worker" where
  "stop_join w = (if w_pc w = PC_Exited then w\<lparr>w_life := WS_TERMINATE\<rparr> else w)"

definition submit_enter :: "req \<Rightarrow> prefix_hint option \<Rightarrow> 'a worker \<Rightarrow> (node_exn + nat) \<times> 'a worker" where
  "submit_enter r hint w =
    (if w_stop w \<or> \<not> w_started w then (Inl (NE_Py RuntimeError), w)
     else if \<not> accepts_new_requests (w_life w) then (Inl (NE_Py RuntimeError), w)
     else (Inr (length (w_items w)), w\<lparr>
       w_items := w_items w @ [\<lparr>in_req = r, in_hint = hint, in_done = False, in_error = [], in_result = []\<rparr>],
       w_lock := Some (length (w_items w))\<rparr>))"

definition submit_put :: "'a worker \<Rightarrow> 'a worker" where
  "submit_put w = (case w_lock w of
     None \<Rightarrow> w
   | Some a \<Rightarrow> w\<lparr>w_inbound := w_inbound w @ [Some a], w_lock := None\<rparr>)"

text \<open>What the waiting caller sees: nothing until the item is done.\<close>

definition submit_outcome :: "nat \<Rightarrow> 'a worker \<Rightarrow> (node_exn + req) option" where
  "submit_outcome a w =
    (let item = w_items w ! a in
     if \<not> in_done item then None
     else (case in_error item of
        e # _ \<Rightarrow> Some (Inl e)
      | [] \<Rightarrow> (case in_result item of
           [] \<Rightarrow> Some (Inl (NE_Py RuntimeError))
         | r # _ \<Rightarrow> Some (Inr r))))"

section \<open>Histories\<close>

text \<open>Any interleaving of the loop thread with the front end's calls. \<open>coalesce\<close> is one drain of the short
  window in which the loop waits for concurrent submits; how many there are depends on the clock.\<close>

inductive worker_step :: "('a, 'a worker) node_env \<Rightarrow> 'a worker \<Rightarrow> 'a worker \<Rightarrow> bool"
  for env where
  ws_loop: "worker_step env w (loop_step env w)"
| ws_coalesce: "w_pc w = PC_Busy \<Longrightarrow> worker_step env w (drain_inbound w)"
| ws_start: "w_lock w = None \<Longrightarrow> worker_step env w (snd (start load w))"
| ws_stop: "w_lock w = None \<Longrightarrow> worker_step env w (snd (stop_request w))"
| ws_join: "worker_step env w (stop_join w)"
| ws_enter: "w_lock w = None \<Longrightarrow> worker_step env w (snd (submit_enter r hint w))"
| ws_put: "worker_step env w (submit_put w)"

end
