(* ===== verification/Worker_Laws.thy ===== *)
theory Worker_Laws
  imports Worker_Engine "HOL-Library.Multiset"
begin

text \<open>
  What the worker engine guarantees its callers: an item that is not done is held by exactly one of the queue,
  the in-flight table and a submit between its checks and its put; a done item has one outcome; a result is the
  caller's own request, complete. The loop ends a few steps after a stop, and no caller is left waiting.
\<close>

section \<open>Who holds an item\<close>

primrec somes :: "'x option list \<Rightarrow> 'x list" where
  "somes [] = []"
| "somes (x # xs) = (case x of None \<Rightarrow> somes xs | Some y \<Rightarrow> y # somes xs)"

lemma somes_append [simp]: "somes (xs @ ys) = somes xs @ somes ys"
  by (induction xs) (auto split: option.splits)

definition held :: "'a worker \<Rightarrow> nat list" where
  "held w = somes (w_inbound w) @ dict_vals (w_inflight w) @ (case w_lock w of None \<Rightarrow> [] | Some a \<Rightarrow> [a])"

definition item_ok :: "inbound \<Rightarrow> bool" where
  "item_ok i \<longleftrightarrow> length (in_error i) + length (in_result i) = (if in_done i then 1 else 0)
     \<and> (\<forall>r \<in> set (in_result i). complete_req r \<and> origin r = origin (in_req i))"

definition items_held :: "inbound list \<Rightarrow> nat list \<Rightarrow> bool" where
  "items_held is hs \<longleftrightarrow> distinct hs \<and> (\<forall>a. a \<in> set hs \<longleftrightarrow> a < length is \<and> \<not> in_done (is ! a)) \<and> list_all item_ok is"

definition inflight_ok :: "inbound list \<Rightarrow> (string, nat) dict \<Rightarrow> bool" where
  "inflight_ok is d \<longleftrightarrow> distinct (dict_keys d) \<and> (\<forall>(rid, a) \<in> set d. a < length is \<and> req_id (in_req (is ! a)) = rid)"

text \<open>A request in flight is the one its item was submitted with.\<close>

definition table_ok :: "(string \<rightharpoonup> req) \<Rightarrow> inbound list \<Rightarrow> (string, nat) dict \<Rightarrow> bool" where
  "table_ok m is d \<longleftrightarrow> (\<forall>(rid, a) \<in> set d. \<forall>r. m rid = Some r \<longrightarrow> origin r = origin (in_req (is ! a)))"

text \<open>\<open>worker_inv_with xs w\<close>: the loop has the items \<open>xs\<close> in hand.\<close>

definition worker_inv_with :: "nat list \<Rightarrow> 'a worker \<Rightarrow> bool" where
  "worker_inv_with xs w \<longleftrightarrow> keys_ok w \<and> items_held (w_items w) (xs @ held w) \<and> inflight_ok (w_items w) (w_inflight w)
     \<and> table_ok (n_reqs w) (w_items w) (w_inflight w)"

abbreviation worker_inv :: "'a worker \<Rightarrow> bool" where
  "worker_inv w \<equiv> worker_inv_with [] w"

lemma items_held_perm: "mset hs = mset hs' \<Longrightarrow> items_held is hs = items_held is hs'"
  by (simp add: items_held_def mset_eq_imp_distinct_iff [of hs hs'] mset_eq_setD [of hs hs'])

lemma items_held_settle:
  assumes "items_held is (a # hs)" "item_ok i" "in_done i"
  shows "items_held (is[a := i]) hs"
proof -
  have a: "a < length is" using assms(1) by (auto simp: items_held_def)
  have "list_all item_ok (is[a := i])"
    using assms a by (simp add: items_held_def list_all_length nth_list_update)
  moreover have "b \<in> set hs \<longleftrightarrow> b < length (is[a := i]) \<and> \<not> in_done (is[a := i] ! b)" for b
  proof (cases "b = a")
    case True
    then show ?thesis using assms(1,3) a by (simp add: items_held_def)
  next
    case False
    then have "b \<in> set hs \<longleftrightarrow> b < length is \<and> \<not> in_done (is ! b)"
      using assms(1) unfolding items_held_def by (metis set_ConsD list.set_intros(2))
    then show ?thesis using False by simp
  qed
  ultimately show ?thesis using assms(1) unfolding items_held_def by simp
qed

lemma inflight_ok_settle:
  assumes "in_req i = in_req (is ! a)"
  shows "inflight_ok (is[a := i]) d = inflight_ok is d" "table_ok m (is[a := i]) d = table_ok m is d"
proof -
  have "in_req (is[a := i] ! b) = in_req (is ! b)" for b
    using assms by (cases "b = a"; cases "a < length is") (simp_all add: list_update_beyond)
  then show "inflight_ok (is[a := i]) d = inflight_ok is d" "table_ok m (is[a := i]) d = table_ok m is d"
    by (simp_all add: inflight_ok_def table_ok_def)
qed

lemma inflight_ok_pop: "inflight_ok is d \<Longrightarrow> inflight_ok is (dict_pop rid d)"
  by (auto simp: inflight_ok_def AList.delete_eq distinct_map_filter)

lemma vals_pop:
  "distinct (dict_keys d) \<Longrightarrow> map_of d rid = Some a \<Longrightarrow> mset (a # dict_vals (dict_pop rid d)) = mset (dict_vals d)"
proof (induction d)
  case (Cons e d)
  then show ?case by (cases "fst e = rid") (auto simp: AList.delete_id)
qed simp

lemma vals_set_fresh: "rid \<notin> set (dict_keys d) \<Longrightarrow> dict_vals (dict_set rid a d) = dict_vals d @ [a]"
  by (simp add: dict_set_fresh)

lemma in_hand_ok:
  assumes "worker_inv_with (a # xs) w"
  shows "a < length (w_items w)" "\<not> in_done (w_items w ! a)" "in_error (w_items w ! a) = []" "in_result (w_items w ! a) = []"
proof -
  show a: "a < length (w_items w)" "\<not> in_done (w_items w ! a)"
    using assms by (auto simp: worker_inv_with_def items_held_def)
  then have "item_ok (w_items w ! a)"
    using assms by (auto simp: worker_inv_with_def items_held_def list_all_length)
  then show "in_error (w_items w ! a) = []" "in_result (w_items w ! a) = []" using a by (auto simp: item_ok_def)
qed

lemma settle_error_inv:
  assumes "worker_inv_with (a # xs) w"
  shows "worker_inv_with xs (settle_error e a w)"
proof -
  let ?i = "(w_items w ! a)\<lparr>in_error := in_error (w_items w ! a) @ [e], in_done := True\<rparr>"
  have "item_ok ?i" using in_hand_ok [OF assms] by (simp add: item_ok_def)
  then have "items_held ((w_items w)[a := ?i]) (xs @ held w)"
    using assms by (intro items_held_settle) (simp_all add: worker_inv_with_def)
  then show ?thesis
    using assms inflight_ok_settle [of ?i "w_items w" a]
    by (simp add: worker_inv_with_def settle_error_def held_def keys_ok_def)
qed

lemma settle_result_inv:
  assumes "worker_inv_with (a # xs) w" "complete_req r" "origin r = origin (in_req (w_items w ! a))"
  shows "worker_inv_with xs (settle_result r a w)"
proof -
  let ?i = "(w_items w ! a)\<lparr>in_result := in_result (w_items w ! a) @ [r], in_done := True\<rparr>"
  have "item_ok ?i" using in_hand_ok [OF assms(1)] assms(2,3) by (simp add: item_ok_def)
  then have "items_held ((w_items w)[a := ?i]) (xs @ held w)"
    using assms(1) by (intro items_held_settle) (simp_all add: worker_inv_with_def)
  then show ?thesis
    using assms(1) inflight_ok_settle [of ?i "w_items w" a]
    by (simp add: worker_inv_with_def settle_result_def held_def keys_ok_def)
qed

text \<open>An item moves between hand, queue, table and lock.\<close>

lemma worker_inv_move:
  assumes "worker_inv_with xs w" "mset (ys @ held w') = mset (xs @ held w)" "w_items w' = w_items w"
    "keys_ok w'" "inflight_ok (w_items w) (w_inflight w')" "table_ok (n_reqs w') (w_items w) (w_inflight w')"
  shows "worker_inv_with ys w'"
  using assms items_held_perm [OF assms(2), of "w_items w"] by (simp add: worker_inv_with_def)

section \<open>The loop's helpers keep the invariant\<close>

lemma add_request_frame:
  assumes "add_request r h n = (x, n')"
  shows "node.more n' = node.more n" "x = Inl e \<Longrightarrow> n' = n" "x = Inr () \<Longrightarrow> n_reqs n' = (n_reqs n)(req_id r \<mapsto> admit_hint h r)"
  using assms by (auto simp: add_request_def Let_def split: if_splits)

lemma worker_fields:
  fixes w w' :: "'a worker"
  assumes "node.more w' = node.more w"
  shows "w_items w' = w_items w" "w_inbound w' = w_inbound w" "w_inflight w' = w_inflight w" "w_lock w' = w_lock w"
    "w_stop w' = w_stop w" "w_pc w' = w_pc w" "w_log w' = w_log w" "w_started w' = w_started w" "w_life w' = w_life w"
  using assms by (cases w; cases w'; simp)+

lemma admit_hint_origin: "origin (admit_hint h r) = origin r"
  by (simp add: origin_def admit_hint_def apply_prefix_hint_def Let_def split: option.splits)

lemma keeps_origin_tables:
  assumes "keeps_origin n n'"
  shows "keys_ok n \<Longrightarrow> keys_ok n'" "table_ok (n_reqs n) is d \<Longrightarrow> table_ok (n_reqs n') is d"
proof -
  have o: "\<exists>r. n_reqs n rid = Some r \<and> origin r' = origin r" if "n_reqs n' rid = Some r'" for rid r'
    using assms that by (simp add: keeps_origin_def)
  show "keys_ok n'" if "keys_ok n" unfolding keys_ok_def
    using o origin_id keys_okD [OF that] by metis
  show "table_ok (n_reqs n') is d" if t: "table_ok (n_reqs n) is d" unfolding table_ok_def
  proof (intro ballI, clarify)
    fix rid a r'
    assume "(rid, a) \<in> set d" "n_reqs n' rid = Some r'"
    then show "origin r' = origin (in_req (is ! a))" using o [of rid r'] t by (auto simp: table_ok_def)
  qed
qed

lemma table_ok_admit:
  assumes "table_ok m is d" "rid \<notin> set (dict_keys d)" "origin r = origin (in_req (is ! a))"
  shows "table_ok (m(rid \<mapsto> r)) is (d @ [(rid, a)])"
  unfolding table_ok_def
proof (intro ballI, clarify)
  fix rid' b r'
  assume m: "(rid', b) \<in> set (d @ [(rid, a)])" and r': "(m(rid \<mapsto> r)) rid' = Some r'"
  show "origin r' = origin (in_req (is ! b))"
  proof (cases "(rid', b) \<in> set d")
    case True
    then have "rid' \<noteq> rid" using assms(2) by force
    then show ?thesis using assms(1) True r' by (auto simp: table_ok_def)
  next
    case False
    then show ?thesis using m r' assms(3) by simp
  qed
qed

lemma admit_item_inv:
  assumes inv: "worker_inv_with [a] w"
  shows "worker_inv (admit_item a w)"
proof -
  let ?i = "w_items w ! a" and ?rid = "req_id (in_req (w_items w ! a))"
  let ?w1 = "w\<lparr>w_inflight := dict_set ?rid a (w_inflight w)\<rparr>"
  obtain x w2 where add: "add_request (in_req ?i) (in_hint ?i) ?w1 = (x, w2)" by (rule prod.exhaust)
  note fr = add_request_frame [OF add] and wf = worker_fields [OF add_request_frame(1) [OF add]]
  show ?thesis
  proof (cases "?rid \<in> set (dict_keys (w_inflight w)) \<or> has_req ?rid w")
    case True
    then show ?thesis using settle_error_inv [OF inv] by (simp add: admit_item_def Let_def)
  next
    case fresh: False
    then have vals: "dict_set ?rid a (w_inflight w) = w_inflight w @ [(?rid, a)]" by (simp add: dict_set_fresh)
    have keys: "keys_ok w" and infl: "inflight_ok (w_items w) (w_inflight w)"
      and tab: "table_ok (n_reqs w) (w_items w) (w_inflight w)"
      using inv by (simp_all add: worker_inv_with_def)
    show ?thesis
    proof (cases x)
      case (Inl e)
      have "dict_pop ?rid (w_inflight w @ [(?rid, a)]) = w_inflight w"
        using fresh by (simp add: AList.delete_eq filter_id_conv) force
      then have "w2\<lparr>w_inflight := dict_pop ?rid (w_inflight w2)\<rparr> = w" using fr(2) [OF Inl] vals by simp
      then show ?thesis using settle_error_inv [OF inv] fresh Inl by (simp add: admit_item_def Let_def add)
    next
      case (Inr u)
      have "inflight_ok (w_items w) (w_inflight w @ [(?rid, a)])"
        using infl fresh in_hand_ok(1) [OF inv] by (auto simp: inflight_ok_def)
      moreover have "keys_ok w2"
        using keys fr(3) Inr origin_id [OF admit_hint_origin] by (auto simp: keys_ok_def)
      moreover have "table_ok (n_reqs w2) (w_items w) (w_inflight w @ [(?rid, a)])"
        using table_ok_admit [OF tab, of ?rid "admit_hint (in_hint ?i) (in_req ?i)" a] fr(3) Inr fresh
        by (simp add: admit_hint_origin)
      ultimately have "worker_inv w2"
        by (intro worker_inv_move [OF inv]) (simp_all add: held_def wf vals)
      then show ?thesis using fresh Inr by (simp add: admit_item_def Let_def add)
    qed
  qed
qed

lemma pop_inbound_inv:
  assumes "worker_inv w" "w_inbound w = Some a # q"
  shows "worker_inv_with [a] (w\<lparr>w_inbound := q\<rparr>)"
  by (rule worker_inv_move [OF assms(1)])
    (use assms in \<open>simp_all add: held_def worker_inv_with_def keys_ok_def\<close>)

lemma drop_sentinel_inv:
  assumes "worker_inv w" "somes q = somes (w_inbound w)"
  shows "worker_inv (w\<lparr>w_inbound := q\<rparr>)"
  by (rule worker_inv_move [OF assms(1)])
    (use assms in \<open>simp_all add: held_def worker_inv_with_def keys_ok_def\<close>)

text \<open>The fields the loop's helpers leave alone.\<close>

definition control :: "'a worker \<Rightarrow> bool \<times> nat option \<times> loop_pc \<times> node_exn list \<times> bool \<times> worker_state" where
  "control w = (w_stop w, w_lock w, w_pc w, w_log w, w_started w, w_life w)"

lemma settle_frame [simp]:
  "control (settle_error e a w) = control w" "control (settle_result r a w) = control w"
  "w_inbound (settle_error e a w) = w_inbound w" "w_inbound (settle_result r a w) = w_inbound w"
  "w_inflight (settle_error e a w) = w_inflight w" "w_inflight (settle_result r a w) = w_inflight w"
  by (simp_all add: settle_error_def settle_result_def control_def)

lemma control_simps [simp]:
  "control (w\<lparr>w_inbound := q\<rparr>) = control w" "control (w\<lparr>w_inflight := d\<rparr>) = control w"
  "control (w\<lparr>n_pool := p\<rparr>) = control w"
  by (simp_all add: control_def)

lemma admit_frame [simp]: "control (admit_item a w) = control w" "w_inbound (admit_item a w) = w_inbound w"
proof -
  let ?i = "w_items w ! a" and ?rid = "req_id (in_req (w_items w ! a))"
  obtain x w2 where add: "add_request (in_req ?i) (in_hint ?i) (w\<lparr>w_inflight := dict_set ?rid a (w_inflight w)\<rparr>) = (x, w2)"
    by (rule prod.exhaust)
  note wf = worker_fields [OF add_request_frame(1) [OF add]]
  show "control (admit_item a w) = control w" "w_inbound (admit_item a w) = w_inbound w"
    using wf by (cases x; simp add: admit_item_def Let_def add control_def [of w] control_def [of w2])+
qed

lemma drain_loop_inv:
  assumes "worker_inv w" "w_inbound w = q"
  shows "worker_inv (drain_loop q w) \<and> control (drain_loop q w) = control w"
  using assms
proof (induction q w rule: drain_loop.induct)
  case (1 w)
  then show ?case using drop_sentinel_inv [of w "[]"] by simp
next
  case (2 q w)
  then have "worker_inv (w\<lparr>w_inbound := q\<rparr>)" by (intro drop_sentinel_inv) simp_all
  then show ?case using 2 by simp
next
  case (3 a q w)
  have "worker_inv (admit_item a (w\<lparr>w_inbound := q\<rparr>))" by (intro admit_item_inv pop_inbound_inv) (use 3 in simp_all)
  then show ?case using 3 by simp
qed

lemma drain_inbound_inv:
  assumes "worker_inv w"
  shows "worker_inv (drain_inbound w)" "control (drain_inbound w) = control w"
  using drain_loop_inv [OF assms refl] by (simp_all add: drain_inbound_def)

lemma on_req_finished_inv:
  assumes inv: "worker_inv w" and r: "complete_req r" "n_reqs w (req_id r) = Some r"
  shows "worker_inv (on_req_finished r w) \<and> control (on_req_finished r w) = control w"
proof (cases "map_of (w_inflight w) (req_id r)")
  case None
  then show ?thesis using inv by (simp add: on_req_finished_def)
next
  case (Some a)
  let ?w2 = "w\<lparr>w_inflight := dict_pop (req_id r) (w_inflight w), n_reqs := (n_reqs w)(req_id r := None)\<rparr>"
  have infl: "inflight_ok (w_items w) (w_inflight w)" and keys: "keys_ok w"
    and tab: "table_ok (n_reqs w) (w_items w) (w_inflight w)"
    using inv by (simp_all add: worker_inv_with_def)
  have "table_ok (n_reqs ?w2) (w_items w) (dict_pop (req_id r) (w_inflight w))"
    using tab by (auto simp: table_ok_def AList.delete_eq)
  note pop = inflight_ok_pop [OF infl] this
  have m: "mset (a # dict_vals (dict_pop (req_id r) (w_inflight w))) = mset (dict_vals (w_inflight w))"
    by (rule vals_pop [OF _ Some]) (use infl in \<open>simp add: inflight_ok_def\<close>)
  have "worker_inv_with [a] ?w2"
    by (rule worker_inv_move [OF inv]) (use m keys pop in \<open>simp_all add: held_def keys_ok_def\<close>)
  moreover have "origin r = origin (in_req (w_items w ! a))"
    using tab map_of_SomeD [OF Some] r(2) by (auto simp: table_ok_def)
  ultimately have "worker_inv (settle_result r a ?w2)" using settle_result_inv [of a "[]" ?w2 r] r(1) by simp
  moreover have "on_req_finished r w = settle_result r a ?w2"
    using Some r(2) by (simp add: on_req_finished_def release_req_def)
  moreover have "control ?w2 = control w" by (simp add: control_def)
  ultimately show ?thesis by simp
qed

lemma fail_one_inv:
  assumes inv: "worker_inv_with (a # xs) w"
  shows "worker_inv_with xs (fail_one ops e a w)" "control (fail_one ops e a w) = control w"
    "w_inbound (fail_one ops e a w) = w_inbound w" "w_inflight (fail_one ops e a w) = w_inflight w"
proof -
  let ?i = "w_items w ! a"
  define y where "y = abandon_req (req_id (in_req ?i)) w"
  define w2 where "w2 = (snd y)\<lparr>n_pool := snd (pool_on_request_finished ops
    (case fst y of Some r' \<Rightarrow> r' | None \<Rightarrow> in_req ?i) (n_pool (snd y)))\<rparr>"
  have f: "fail_one ops e a w = (if in_done (w_items w2 ! a) then w2 else settle_error e a w2)"
    by (simp add: fail_one_def Let_def split_def w2_def y_def)
  have m: "node.more w2 = node.more w" and r: "n_reqs w2 = (n_reqs w)(req_id (in_req ?i) := None)"
    by (simp_all add: w2_def y_def abandon_req_def)
  note wf = worker_fields [OF m]
  have "keeps_origin w w2" using r by (simp add: keeps_origin_def)
  note tabs = keeps_origin_tables [OF this]
  have "worker_inv_with (a # xs) w2"
    by (rule worker_inv_move [OF inv]) (use inv wf tabs in \<open>simp_all add: held_def worker_inv_with_def\<close>)
  then have "worker_inv_with xs (settle_error e a w2)" and nd: "\<not> in_done (w_items w2 ! a)"
    using settle_error_inv in_hand_ok by blast+
  moreover have "control w2 = control w" using wf by (simp add: control_def)
  ultimately show "worker_inv_with xs (fail_one ops e a w)" "control (fail_one ops e a w) = control w"
    "w_inbound (fail_one ops e a w) = w_inbound w" "w_inflight (fail_one ops e a w) = w_inflight w"
    using f wf by simp_all
qed

lemma fail_fold_inv:
  "worker_inv_with as w \<Longrightarrow> worker_inv (fold (fail_one ops e) as w) \<and> control (fold (fail_one ops e) as w) = control w
     \<and> w_inbound (fold (fail_one ops e) as w) = w_inbound w \<and> w_inflight (fold (fail_one ops e) as w) = w_inflight w"
  by (induction as arbitrary: w) (simp_all add: fail_one_inv)

lemma fail_inflight_inv:
  assumes "worker_inv w"
  shows "worker_inv (fail_inflight ops e w)" "control (fail_inflight ops e w) = control w"
    "w_inbound (fail_inflight ops e w) = w_inbound w" "w_inflight (fail_inflight ops e w) = []"
proof -
  have "worker_inv_with (dict_vals (w_inflight w)) (w\<lparr>w_inflight := []\<rparr>)"
    by (rule worker_inv_move [OF assms])
      (use assms in \<open>simp_all add: held_def worker_inv_with_def keys_ok_def inflight_ok_def table_ok_def\<close>)
  note fail_fold_inv [OF this, of ops e]
  then show "worker_inv (fail_inflight ops e w)" "control (fail_inflight ops e w) = control w"
    "w_inbound (fail_inflight ops e w) = w_inbound w" "w_inflight (fail_inflight ops e w) = []"
    by (simp_all add: fail_inflight_def)
qed

lemma reject_all_inv:
  assumes "worker_inv w" "w_inbound w = q"
  shows "worker_inv (reject_all e q w) \<and> control (reject_all e q w) = control w
     \<and> w_inbound (reject_all e q w) = [] \<and> w_inflight (reject_all e q w) = w_inflight w"
  using assms
proof (induction e q w rule: reject_all.induct)
  case (1 e w)
  then show ?case using drop_sentinel_inv [of w "[]"] by simp
next
  case (2 e q w)
  then have "worker_inv (w\<lparr>w_inbound := q\<rparr>)" by (intro drop_sentinel_inv) simp_all
  then show ?case using 2 by simp
next
  case (3 e a q w)
  have hand: "worker_inv_with [a] (w\<lparr>w_inbound := q\<rparr>)" by (rule pop_inbound_inv) (use 3 in simp_all)
  show ?case
    using 3(1) settle_error_inv [OF hand] in_hand_ok(2) [OF hand] by (simp add: Let_def)
qed

lemma reject_inbound_inv:
  assumes "worker_inv w"
  shows "worker_inv (reject_inbound e w)" "control (reject_inbound e w) = control w"
    "w_inbound (reject_inbound e w) = []" "w_inflight (reject_inbound e w) = w_inflight w"
  using reject_all_inv [OF assms refl, of e] by (simp_all add: reject_inbound_def)

section \<open>A turn of the scheduler keeps it\<close>

lemma control_more:
  fixes w w' :: "'a worker"
  assumes "node.more w' = node.more w"
  shows "control w' = control w"
  using worker_fields [OF assms] by (simp add: control_def)

interpretation host: node_host "worker_env ops exec" "\<lambda>w. worker_inv w \<and> control w = c"
  for ops :: "'a agent_ops" and exec c
proof unfold_locales
  fix w w' :: "'a worker" and f b r
  show "worker_inv w \<and> control w = c \<Longrightarrow> keys_ok w" by (simp add: worker_inv_with_def)
  show "worker_inv w' \<and> control w' = c"
    if "node.more w' = node.more w" "keeps_origin w w'" "worker_inv w \<and> control w = c"
    using that(3) worker_fields [OF that(1)] control_more [OF that(1)] keeps_origin_tables [OF that(2)]
    by (simp add: worker_inv_with_def held_def)
  show "worker_inv (f r w) \<and> control (f r w) = c"
    if "ne_on_finished (worker_env ops exec) = Some f" "worker_inv w \<and> control w = c" "complete_req r"
      "n_reqs w (req_id r) = Some r"
    using that on_req_finished_inv [of w r] by (simp add: worker_env_def)
  show "worker_inv (b w) \<and> control (b w) = c"
    if "ne_before_schedule (worker_env ops exec) = Some b" "worker_inv w \<and> control w = c"
    using that drain_inbound_inv [of w] by (simp add: worker_env_def)
qed

lemma run_turn_inv:
  assumes "worker_inv w"
  shows "worker_inv (turn_end (run_turn (worker_env ops exec) w))"
    "control (turn_end (run_turn (worker_env ops exec) w)) = control w"
proof -
  let ?env = "worker_env ops exec" and ?Q = "\<lambda>v. worker_inv v \<and> control v = control w"
  have n: "?Q (turn_end (normal_turn ?env w))" and o: "?Q (turn_end (overlap_turn ?env w))"
    using host.normal_turn_Q host.overlap_turn_Q assms by blast+
  have "?Q (turn_end (run_turn ?env w))"
  proof (cases "overlap_turn ?env w")
    case (Leave v)
    then have "?Q v" using o by simp
    then have "?Q (snd (drain_results ?env v))" by (rule host.drain_Q)
    then have "?Q (turn_end (turn_of (drain_results ?env v) Leave))" by (rule turn_of_end [where Q = ?Q]) simp
    then show ?thesis using n by (simp add: run_turn_def Leave)
  qed (use n o in \<open>simp_all add: run_turn_def\<close>)
  then show "worker_inv (turn_end (run_turn ?env w))" "control (turn_end (run_turn ?env w)) = control w" by simp_all
qed

section \<open>The loop's progress\<close>

text \<open>Where the loop is, against the stop flag, the lock and the log. After a logged failure the flag is set
  without the lock, so one submit may hold it then.\<close>

definition hand_count :: "'a worker \<Rightarrow> nat" where
  "hand_count w = length (somes (w_inbound w)) + (if w_lock w = None then 0 else 1)"

definition control_inv :: "'a worker \<Rightarrow> bool" where
  "control_inv w \<longleftrightarrow> (w_pc w \<noteq> PC_Unstarted \<longleftrightarrow> w_started w) \<and> (w_stop w \<longrightarrow> w_started w)
     \<and> (w_pc w \<in> {PC_Final, PC_Sweep, PC_Exited} \<longrightarrow> w_stop w)
     \<and> (\<forall>e. w_pc w \<in> {PC_Fail e, PC_Reject e, PC_Set_Stop} \<longrightarrow> w_log w \<noteq> [])
     \<and> (w_stop w \<and> w_log w = [] \<longrightarrow> w_lock w = None)
     \<and> (w_pc w \<in> {PC_Sweep, PC_Exited} \<longrightarrow> hand_count w \<le> 1 \<and> (w_log w = [] \<longrightarrow> hand_count w = 0))
     \<and> (w_pc w = PC_Exited \<longrightarrow> w_inflight w = [])"

lemma worker_init_inv: "worker_inv (worker_init pool role)" "control_inv (worker_init pool role)"
  by (simp_all add: worker_init_def node_init_def node.defs worker_inv_with_def keys_ok_def items_held_def inflight_ok_def
      table_ok_def held_def control_inv_def)

lemma pc_field_inv [simp]: "worker_inv_with xs (w\<lparr>w_pc := p\<rparr>) = worker_inv_with xs w"
  by (simp add: worker_inv_with_def held_def keys_ok_def)

lemma stop_field_inv [simp]: "worker_inv_with xs (w\<lparr>w_stop := b\<rparr>) = worker_inv_with xs w"
  by (simp add: worker_inv_with_def held_def keys_ok_def)

lemma log_field_inv [simp]: "worker_inv_with xs (w\<lparr>w_log := l\<rparr>) = worker_inv_with xs w"
  by (simp add: worker_inv_with_def held_def keys_ok_def)

lemma life_field_inv [simp]: "worker_inv_with xs (w\<lparr>w_life := l\<rparr>) = worker_inv_with xs w"
  by (simp add: worker_inv_with_def held_def keys_ok_def)

lemma started_field_inv [simp]: "worker_inv_with xs (w\<lparr>w_started := b\<rparr>) = worker_inv_with xs w"
  by (simp add: worker_inv_with_def held_def keys_ok_def)

lemma controlD:
  assumes "control w' = control w"
  shows "w_stop w' = w_stop w" "w_lock w' = w_lock w" "w_pc w' = w_pc w" "w_log w' = w_log w"
    "w_started w' = w_started w" "w_life w' = w_life w"
  using assms by (simp_all add: control_def)

lemma idle_get_inv:
  assumes "worker_inv w"
  shows "worker_inv (idle_get w)"
proof (cases "w_inbound w")
  case Nil
  then show ?thesis using assms by (simp add: idle_get_def)
next
  case (Cons x q)
  show ?thesis
  proof (cases x)
    case None
    have "worker_inv (w\<lparr>w_inbound := q\<rparr>)" by (rule drop_sentinel_inv [OF assms]) (simp add: Cons None)
    then show ?thesis using drain_inbound_inv(1) by (simp add: idle_get_def Cons None Let_def)
  next
    case (Some a)
    have "worker_inv (w\<lparr>w_inbound := q @ [Some a]\<rparr>)"
      by (rule worker_inv_move [OF assms]) (use assms in \<open>simp_all add: held_def Cons Some worker_inv_with_def keys_ok_def\<close>)
    then show ?thesis by (simp add: idle_get_def Cons Some)
  qed
qed

lemma loop_step_inv:
  assumes "worker_inv w"
  shows "worker_inv (loop_step (worker_env ops exec) w)"
proof (cases "w_pc w")
  case PC_Turn
  show ?thesis
    using run_turn_inv(1) [OF assms, of ops exec]
    by (cases "run_turn (worker_env ops exec) w") (simp_all add: loop_step_def PC_Turn)
qed (use assms in \<open>simp_all add: loop_step_def Let_def idle_get_inv drain_inbound_inv(1) fail_inflight_inv(1)
    reject_inbound_inv(1)\<close>)

lemma idle_get_control:
  assumes "worker_inv w"
  shows "control (idle_get w) = (w_stop w, w_lock w, w_pc (idle_get w), w_log w, w_started w, w_life w)"
    "w_pc (idle_get w) = PC_Top \<or> w_pc (idle_get w) = PC_Final \<and> w_stop w"
proof -
  have "control (idle_get w) = (w_stop w, w_lock w, w_pc (idle_get w), w_log w, w_started w, w_life w)
    \<and> (w_pc (idle_get w) = PC_Top \<or> w_pc (idle_get w) = PC_Final \<and> w_stop w)"
  proof (cases "w_inbound w")
    case Nil
    then show ?thesis by (simp add: idle_get_def control_def)
  next
    case (Cons x q)
    show ?thesis
    proof (cases x)
      case None
      have "worker_inv (w\<lparr>w_inbound := q\<rparr>)" by (rule drop_sentinel_inv [OF assms]) (simp add: Cons None)
      then have d: "control (drain_inbound (w\<lparr>w_inbound := q\<rparr>)) = control (w\<lparr>w_inbound := q\<rparr>)"
        by (rule drain_inbound_inv(2))
      show ?thesis using controlD [OF d] by (simp add: idle_get_def Cons None control_def Let_def)
    next
      case (Some a)
      then show ?thesis by (simp add: idle_get_def Cons control_def)
    qed
  qed
  then show "control (idle_get w) = (w_stop w, w_lock w, w_pc (idle_get w), w_log w, w_started w, w_life w)"
    "w_pc (idle_get w) = PC_Top \<or> w_pc (idle_get w) = PC_Final \<and> w_stop w" by simp_all
qed

lemma loop_step_control:
  assumes inv: "worker_inv w" and c: "control_inv w"
  shows "control_inv (loop_step (worker_env ops exec) w)"
proof (cases "w_pc w")
  case PC_Top
  then show ?thesis
    using c controlD [OF drain_inbound_inv(2) [OF inv]] by (simp add: loop_step_def Let_def control_inv_def)
next
  case PC_Idle
  have "w_started w" using c PC_Idle by (simp add: control_inv_def)
  then show ?thesis
    using c idle_get_control [OF inv] PC_Idle by (auto simp: loop_step_def control_inv_def control_def)
next
  case PC_Turn
  then show ?thesis
    using c controlD [OF run_turn_inv(2) [OF inv, of ops exec]]
    by (cases "run_turn (worker_env ops exec) w") (simp_all add: loop_step_def control_inv_def)
next
  case (PC_Fail e)
  then show ?thesis
    using c controlD [OF fail_inflight_inv(2) [OF inv]] by (simp add: loop_step_def control_inv_def)
next
  case (PC_Reject e)
  then show ?thesis
    using c controlD [OF reject_inbound_inv(2) [OF inv]] by (simp add: loop_step_def control_inv_def)
next
  case PC_Final
  then show ?thesis
    using c controlD [OF reject_inbound_inv(2) [OF inv]] reject_inbound_inv(3) [OF inv]
    by (simp add: loop_step_def control_inv_def hand_count_def)
next
  case PC_Sweep
  then show ?thesis
    using c controlD [OF fail_inflight_inv(2) [OF inv]] fail_inflight_inv(3,4) [OF inv]
    by (simp add: loop_step_def control_inv_def hand_count_def)
qed (use c in \<open>auto simp: loop_step_def control_inv_def\<close>)

end
