(* ===== verification/Worker_Theorems.thy ===== *)
theory Worker_Theorems
  imports Worker_Laws Node_Theorems
begin

text \<open>
  The theorems about the worker engine: every history keeps the invariants, the loop ends within seven steps of
  a stop with every caller answered, a result is the caller's own request, and the one submit that a failing
  step can strand.
\<close>

section \<open>Histories\<close>

lemma items_held_new:
  assumes "items_held is hs" "item_ok i" "\<not> in_done i"
  shows "items_held (is @ [i]) (hs @ [length is])"
proof -
  have hs: "a \<in> set hs \<longleftrightarrow> a < length is \<and> \<not> in_done (is ! a)" for a
    using assms(1) unfolding items_held_def by blast
  have "a \<in> set (hs @ [length is]) \<longleftrightarrow> a < length (is @ [i]) \<and> \<not> in_done ((is @ [i]) ! a)" for a
    using hs [of a] assms(3) by (cases "a < length is") (auto simp: nth_append)
  moreover have "distinct (hs @ [length is])"
    using assms(1) hs [of "length is"] unfolding items_held_def by simp
  ultimately show ?thesis
    using assms(1,2) unfolding items_held_def by simp
qed

lemma inflight_ok_new: "inflight_ok is d \<Longrightarrow> inflight_ok (is @ [i]) d"
  by (auto simp: inflight_ok_def nth_append)

lemma table_ok_new: "inflight_ok is d \<Longrightarrow> table_ok m is d \<Longrightarrow> table_ok m (is @ [i]) d"
  by (auto simp: inflight_ok_def table_ok_def nth_append)

lemma submit_enter_inv:
  assumes inv: "worker_inv w" "control_inv w" and free: "w_lock w = None"
  shows "worker_inv (snd (submit_enter r hint w)) \<and> control_inv (snd (submit_enter r hint w))"
proof (cases "w_stop w \<or> \<not> w_started w \<or> \<not> accepts_new_requests (w_life w)")
  case True
  then show ?thesis using inv by (auto simp: submit_enter_def)
next
  case False
  let ?i = "\<lparr>in_req = r, in_hint = hint, in_done = False, in_error = [], in_result = []\<rparr>"
  have "items_held (w_items w @ [?i]) (held w @ [length (w_items w)])"
    by (rule items_held_new) (use inv in \<open>simp_all add: worker_inv_with_def item_ok_def\<close>)
  then have "worker_inv (snd (submit_enter r hint w))"
    using inv(1) False free inflight_ok_new table_ok_new by (simp add: submit_enter_def worker_inv_with_def held_def keys_ok_def)
  moreover have "control_inv (snd (submit_enter r hint w))"
    using inv(2) False by (auto simp: submit_enter_def control_inv_def)
  ultimately show ?thesis ..
qed

lemma submit_put_inv:
  assumes "worker_inv w" "control_inv w"
  shows "worker_inv (submit_put w) \<and> control_inv (submit_put w)"
proof (cases "w_lock w")
  case None
  then show ?thesis using assms by (simp add: submit_put_def)
next
  case (Some a)
  have "worker_inv (submit_put w)"
    by (rule worker_inv_move [OF assms(1)])
      (use assms(1) in \<open>simp_all add: submit_put_def Some held_def worker_inv_with_def keys_ok_def\<close>)
  moreover have "control_inv (submit_put w)"
    using assms(2) by (auto simp: submit_put_def Some control_inv_def hand_count_def)
  ultimately show ?thesis ..
qed

lemma start_inv:
  assumes "worker_inv w" "control_inv w"
  shows "worker_inv (snd (start load w)) \<and> control_inv (snd (start load w))"
  using assms by (auto simp: start_def control_inv_def hand_count_def split: sum.splits)

lemma stop_request_inv:
  assumes "worker_inv w" "control_inv w" "w_lock w = None"
  shows "worker_inv (snd (stop_request w)) \<and> control_inv (snd (stop_request w))"
proof -
  have "worker_inv (w\<lparr>w_inbound := w_inbound w @ [None]\<rparr>)" by (rule drop_sentinel_inv [OF assms(1)]) simp
  then have "worker_inv (snd (stop_request w))"
    using assms(1) by (auto simp: stop_request_def worker_inv_with_def held_def keys_ok_def)
  moreover have "control_inv (snd (stop_request w))"
    using assms(2,3) by (auto simp: stop_request_def control_inv_def hand_count_def)
  ultimately show ?thesis ..
qed

lemma worker_step_inv:
  assumes "worker_step (worker_env ops exec) w w'" "worker_inv w" "control_inv w"
  shows "worker_inv w' \<and> control_inv w'"
  using assms
proof (cases rule: worker_step.cases)
  case ws_loop
  then show ?thesis using assms loop_step_inv loop_step_control by blast
next
  case ws_coalesce
  then show ?thesis
    using assms(3) drain_inbound_inv(1) [OF assms(2)] controlD [OF drain_inbound_inv(2) [OF assms(2)]]
    by (simp add: control_inv_def)
next
  case ws_join
  then show ?thesis using assms(2,3) by (auto simp: stop_join_def control_inv_def hand_count_def)
qed (use assms start_inv stop_request_inv submit_enter_inv submit_put_inv in blast)+

lemma worker_reach_inv:
  assumes "(worker_step (worker_env ops exec))\<^sup>*\<^sup>* (worker_init pool role) w"
  shows "worker_inv w \<and> control_inv w"
  using assms by (induction rule: rtranclp_induct) (use worker_init_inv worker_step_inv in blast)+

section \<open>After a stop\<close>

text \<open>How many steps the loop is from its end once the flag is set.\<close>

primrec steps_left :: "loop_pc \<Rightarrow> nat" where
  "steps_left PC_Unstarted = 0"
| "steps_left PC_Top = 3"
| "steps_left PC_Idle = 4"
| "steps_left PC_Busy = 7"
| "steps_left PC_Turn = 6"
| "steps_left (PC_Fail e) = 5"
| "steps_left (PC_Reject e) = 4"
| "steps_left PC_Set_Stop = 3"
| "steps_left PC_Final = 2"
| "steps_left PC_Sweep = 1"
| "steps_left PC_Exited = 0"

lemma run_turn_stopped:
  assumes "w_stop w"
  shows "run_turn (worker_env ops exec) w \<noteq> Again w'"
proof -
  have "stop_requested (worker_env ops exec) w" using assms by (simp add: stop_requested_def worker_env_def)
  then have "normal_turn (worker_env ops exec) w = Leave w" "overlap_turn (worker_env ops exec) w = Leave w"
    by (simp_all add: normal_turn_def overlap_turn_def)
  then show ?thesis
    by (cases "fst (drain_results (worker_env ops exec) w)") (simp_all add: run_turn_def turn_of_def)
qed

text \<open>What holds from a stop on: nobody holds the lock, and the queue stays empty once it was swept.\<close>

definition stopping :: "'a worker \<Rightarrow> bool" where
  "stopping w \<longleftrightarrow> worker_inv w \<and> control_inv w \<and> w_stop w \<and> w_lock w = None
     \<and> (w_pc w \<in> {PC_Sweep, PC_Exited} \<longrightarrow> somes (w_inbound w) = [])"

lemma stopping_step:
  assumes s: "stopping w" and pc: "w_pc w \<noteq> PC_Exited"
  shows "stopping (loop_step (worker_env ops exec) w)"
    "steps_left (w_pc (loop_step (worker_env ops exec) w)) < steps_left (w_pc w)"
proof -
  let ?w = "loop_step (worker_env ops exec) w"
  have inv: "worker_inv w" and c: "control_inv w" and st: "w_stop w" and lk: "w_lock w = None"
    using s by (simp_all add: stopping_def)
  have un: "w_pc w \<noteq> PC_Unstarted" using c st by (simp add: control_inv_def)
  have "w_stop ?w \<and> w_lock ?w = None \<and> (w_pc ?w \<in> {PC_Sweep, PC_Exited} \<longrightarrow> somes (w_inbound ?w) = [])
    \<and> steps_left (w_pc ?w) < steps_left (w_pc w)"
  proof (cases "w_pc w")
    case PC_Idle
    then show ?thesis
      using idle_get_control [OF inv] st lk by (auto simp: loop_step_def control_def)
  next
    case PC_Turn
    show ?thesis
    proof (cases "run_turn (worker_env ops exec) w")
      case (Again v)
      then show ?thesis using run_turn_stopped [OF st] by blast
    qed (use controlD [OF run_turn_inv(2) [OF inv, of ops exec]] st lk PC_Turn in \<open>simp_all add: loop_step_def\<close>)
  next
    case (PC_Fail e)
    then show ?thesis using controlD [OF fail_inflight_inv(2) [OF inv]] st lk by (simp add: loop_step_def)
  next
    case (PC_Reject e)
    then show ?thesis using controlD [OF reject_inbound_inv(2) [OF inv]] st lk by (simp add: loop_step_def)
  next
    case PC_Final
    then show ?thesis
      using controlD [OF reject_inbound_inv(2) [OF inv]] reject_inbound_inv(3) [OF inv] st lk by (simp add: loop_step_def)
  next
    case PC_Sweep
    then show ?thesis
      using controlD [OF fail_inflight_inv(2) [OF inv]] fail_inflight_inv(3) [OF inv] s st lk
      by (simp add: loop_step_def stopping_def)
  qed (use st lk pc un in \<open>simp_all add: loop_step_def\<close>)
  then show "stopping ?w" "steps_left (w_pc ?w) < steps_left (w_pc w)"
    using loop_step_inv [OF inv] loop_step_control [OF inv c] by (simp_all add: stopping_def)
qed

lemma stopping_run:
  assumes "stopping w" "steps_left (w_pc w) \<le> k"
  shows "stopping ((loop_step (worker_env ops exec) ^^ k) w) \<and> w_pc ((loop_step (worker_env ops exec) ^^ k) w) = PC_Exited"
  using assms
proof (induction k arbitrary: w)
  case 0
  have "w_pc w \<noteq> PC_Unstarted" using 0 by (simp add: stopping_def control_inv_def)
  then show ?case using 0 by (cases "w_pc w") simp_all
next
  case (Suc k)
  let ?w = "loop_step (worker_env ops exec) w"
  have "stopping ?w \<and> steps_left (w_pc ?w) \<le> k"
  proof (cases "w_pc w = PC_Exited")
    case True
    then show ?thesis using Suc.prems by (simp add: loop_step_def)
  next
    case False
    then show ?thesis using stopping_step [OF Suc.prems(1) False, of ops exec] Suc.prems(2) by linarith
  qed
  then show ?case using Suc.IH [of ?w] by (simp add: funpow_Suc_right del: funpow.simps)
qed

lemma steps_left_bound: "steps_left p \<le> 7"
  by (cases p) simp_all

lemma exited_answered:
  assumes "worker_inv w" "w_inflight w = []" "somes (w_inbound w) = []" "w_lock w = None" "a < length (w_items w)"
  shows "in_done (w_items w ! a)"
  using assms by (auto simp: worker_inv_with_def items_held_def held_def)

lemma outcome_None: "submit_outcome a w = None \<longleftrightarrow> \<not> in_done (w_items w ! a)"
  by (simp add: submit_outcome_def Let_def split: list.splits)

section \<open>A concrete engine\<close>

text \<open>An engine on the in-memory agent, with the executor as a parameter; one request is submitted and put.\<close>

definition demo_worker :: "mem_agent worker" where
  "demo_worker = worker_init (pool_init mem_init 0 False) (demo_role\<lparr>enable_overlap := False\<rparr>)"

definition demo_submitted :: "mem_agent worker" where
  "demo_submitted = submit_put (snd (submit_enter demo_req None (snd (start (Inr ()) demo_worker))))"

definition demo_stopped :: "mem_agent worker" where
  "demo_stopped = snd (stop_request demo_submitted)"

lemma demo_submitted_fields:
  "w_lock demo_submitted = None" "w_stop demo_submitted = False" "w_log demo_submitted = []"
  "w_life demo_submitted = WS_SERVING" "w_started demo_submitted" "length (w_items demo_submitted) = 1"
  by code_simp+

lemma demo_submitted_reach: "(worker_step env)\<^sup>*\<^sup>* demo_worker demo_submitted"
proof -
  have "worker_step env demo_worker (snd (start (Inr ()) demo_worker))" by (rule ws_start) code_simp
  moreover have "worker_step env (snd (start (Inr ()) demo_worker)) (snd (submit_enter demo_req None (snd (start (Inr ()) demo_worker))))"
    by (rule ws_enter) code_simp
  ultimately show ?thesis unfolding demo_submitted_def
    by (meson ws_put rtranclp.rtrancl_refl rtranclp.rtrancl_into_rtrancl)
qed

lemma loop_reach: "(worker_step env)\<^sup>*\<^sup>* w v \<Longrightarrow> (worker_step env)\<^sup>*\<^sup>* w ((loop_step env ^^ k) v)"
  by (induction k) (auto intro: rtranclp.rtrancl_into_rtrancl ws_loop)

lemma demo_stopped_reach: "(worker_step env)\<^sup>*\<^sup>* demo_worker demo_stopped"
  unfolding demo_stopped_def
  by (rule rtranclp.rtrancl_into_rtrancl [OF demo_submitted_reach ws_stop]) (rule demo_submitted_fields(1))

section \<open>Theorems\<close>

text \<open>
  C6. A stop is always completed and strands nobody: in every history of the engine in which no step has failed,
  once the stop flag is set the loop thread ends within seven of its own steps, whatever the agent and the
  executor answer meanwhile, and every submit ever accepted then has its outcome.
\<close>

theorem stop_answers_everyone:
  assumes "(worker_step (worker_env ops exec))\<^sup>*\<^sup>* (worker_init pool role) w" "w_stop w" "w_log w = []"
  shows "w_pc ((loop_step (worker_env ops exec) ^^ 7) w) = PC_Exited
    \<and> (\<forall>a < length (w_items ((loop_step (worker_env ops exec) ^^ 7) w)).
         submit_outcome a ((loop_step (worker_env ops exec) ^^ 7) w) \<noteq> None)"
proof -
  let ?w = "(loop_step (worker_env ops exec) ^^ 7) w"
  have "worker_inv w" "control_inv w" using worker_reach_inv [OF assms(1)] by simp_all
  then have "stopping w" using assms(2,3) by (auto simp: stopping_def control_inv_def hand_count_def)
  then have s: "stopping ?w \<and> w_pc ?w = PC_Exited" by (rule stopping_run [OF _ steps_left_bound])
  then have "in_done (w_items ?w ! a)" if "a < length (w_items ?w)" for a
    by (intro exited_answered) (use s that in \<open>simp_all add: stopping_def control_inv_def\<close>)
  then show ?thesis using s outcome_None by blast
qed

theorem stop_answers_everyone_witness:
  "w_stop demo_stopped \<and> w_log demo_stopped = []
   \<and> w_pc ((loop_step (worker_env in_memory_agent mock_exec) ^^ 7) demo_stopped) = PC_Exited"
proof -
  have f: "w_stop demo_stopped" "w_log demo_stopped = []"
    using demo_submitted_fields by (simp_all add: demo_stopped_def stop_request_def)
  show ?thesis
    using stop_answers_everyone [OF demo_stopped_reach [unfolded demo_worker_def] f] f by blast
qed

text \<open>
  C25. Whatever the interleaving of the loop thread with starts, stops and submits: when the loop thread has ended,
  every accepted submit has its outcome if no step failed, and at most one is without if a step failed.
\<close>

theorem ended_loop_strands_at_most_one:
  assumes "(worker_step (worker_env ops exec))\<^sup>*\<^sup>* (worker_init pool role) w" "w_pc w = PC_Exited"
  shows "length (filter (\<lambda>a. submit_outcome a w = None) [0..<length (w_items w)]) \<le> (if w_log w = [] then 0 else 1)"
proof -
  have inv: "worker_inv w" and c: "control_inv w" using worker_reach_inv [OF assms(1)] by simp_all
  let ?u = "filter (\<lambda>a. submit_outcome a w = None) [0..<length (w_items w)]"
  have h: "distinct (held w)" "\<And>a. a \<in> set (held w) \<longleftrightarrow> a < length (w_items w) \<and> \<not> in_done (w_items w ! a)"
    using inv unfolding worker_inv_with_def items_held_def by simp_all
  have "set ?u = set (held w)" by (auto simp: h(2) outcome_None)
  then have "length ?u = length (held w)"
    using h(1) distinct_card [of ?u] distinct_card [of "held w"] by simp
  also have "\<dots> = hand_count w"
    using c assms(2) by (simp add: held_def hand_count_def control_inv_def split: option.splits)
  finally show ?thesis using c assms(2) by (simp add: control_inv_def)
qed

text \<open>The engine stopped at once: the request is turned away by the final sweep.\<close>

definition demo_ended :: "mem_agent worker" where
  "demo_ended = (loop_step (worker_env in_memory_agent mock_exec) ^^ 3) demo_stopped"

theorem ended_loop_strands_at_most_one_witness:
  "w_pc demo_ended = PC_Exited
   \<and> length (filter (\<lambda>a. submit_outcome a demo_ended = None) [0..<length (w_items demo_ended)]) = 0"
proof -
  have f: "w_pc demo_ended = PC_Exited" "w_log demo_ended = []" by code_simp+
  have "(worker_step (worker_env in_memory_agent mock_exec))\<^sup>*\<^sup>* demo_worker demo_ended"
    unfolding demo_ended_def by (rule loop_reach [OF demo_stopped_reach])
  from ended_loop_strands_at_most_one [OF this [unfolded demo_worker_def] f(1)] show ?thesis using f by simp
qed

text \<open>An answer belongs to its caller, and an item never has more than one outcome.\<close>

lemma worker_answer_own:
  assumes "(worker_step (worker_env ops exec))\<^sup>*\<^sup>* (worker_init pool role) w" "a < length (w_items w)"
  shows "length (in_error (w_items w ! a)) + length (in_result (w_items w ! a)) \<le> 1
    \<and> (\<forall>r. submit_outcome a w = Some (Inr r) \<longrightarrow>
         req_id r = req_id (in_req (w_items w ! a)) \<and> prompt_token_ids r = prompt_token_ids (in_req (w_items w ! a))
         \<and> finished r \<and> max_new_tokens (req_sampling (in_req (w_items w ! a))) \<le> num_output_tokens r)"
proof -
  have ok: "item_ok (w_items w ! a)"
    using worker_reach_inv [OF assms(1)] assms(2) by (simp add: worker_inv_with_def items_held_def list_all_length)
  have own: "req_id r = req_id (in_req (w_items w ! a)) \<and> prompt_token_ids r = prompt_token_ids (in_req (w_items w ! a))
      \<and> finished r \<and> max_new_tokens (req_sampling (in_req (w_items w ! a))) \<le> num_output_tokens r"
    if "submit_outcome a w = Some (Inr r)" for r
  proof -
    have "r \<in> set (in_result (w_items w ! a))"
      using that by (auto simp: submit_outcome_def Let_def split: if_splits list.splits)
    then have "complete_req r" "origin r = origin (in_req (w_items w ! a))" using ok by (simp_all add: item_ok_def)
    then show ?thesis by (simp add: complete_req_def origin_def)
  qed
  have "length (in_error (w_items w ! a)) + length (in_result (w_items w ! a)) \<le> 1"
    using ok by (simp add: item_ok_def)
  with own show ?thesis by blast
qed

text \<open>Four steps of the loop serve the request: drain, go busy, and two turns of the scheduler.\<close>

definition demo_served :: "mem_agent worker" where
  "demo_served = (loop_step (worker_env in_memory_agent mock_exec) ^^ 4) demo_submitted"

definition answers_view :: "'a worker \<Rightarrow> (req \<times> node_exn list \<times> (int list \<times> int \<times> int) list \<times> bool) list" where
  "answers_view w = map (\<lambda>i. (in_req i, in_error i, map (\<lambda>r. (output_token_ids r, reused_blocks r, prefill_blocks r)) (in_result i), in_done i)) (w_items w)"

lemma demo_served_view: "answers_view demo_served = [(demo_req, [], [([1008], 0, 1)], True)]"
  by code_simp

lemma demo_served_reach: "(worker_step (worker_env in_memory_agent mock_exec))\<^sup>*\<^sup>* demo_worker demo_served"
  unfolding demo_served_def by (rule loop_reach [OF demo_submitted_reach])

lemma demo_served_outcome:
  obtains r where "submit_outcome 0 demo_served = Some (Inr r)" "output_token_ids r = [1008]" "reused_blocks r = 0" "prefill_blocks r = 1"
    "length (w_items demo_served) = 1" "in_req (w_items demo_served ! 0) = demo_req"
proof -
  obtain i where i: "w_items demo_served = [i]"
    and v: "(in_req i, in_error i, map (\<lambda>r. (output_token_ids r, reused_blocks r, prefill_blocks r)) (in_result i), in_done i) =
      (demo_req, [], [([1008], 0, 1)], True)"
    using demo_served_view unfolding answers_view_def map_eq_Cons_conv by auto
  obtain r where r: "in_result i = [r]" "output_token_ids r = [1008]" "reused_blocks r = 0" "prefill_blocks r = 1"
    using v unfolding prod.inject map_eq_Cons_conv by auto
  show thesis using v by (intro that [of r]) (simp_all add: submit_outcome_def i r)
qed

section \<open>The submit that a failing step strands\<close>

lemma exited_frozen:
  assumes "worker_step env w w'" "w_pc w = PC_Exited" "w_stop w" "w_started w"
  shows "w_pc w' = PC_Exited \<and> w_stop w' \<and> w_started w' \<and> w_items w' = w_items w"
  using assms
  by (cases rule: worker_step.cases)
    (auto simp: loop_step_def start_def stop_request_def stop_join_def submit_enter_def submit_put_def split: option.splits)

lemma exited_frozen_run:
  assumes "(worker_step env)\<^sup>*\<^sup>* w w'" "w_pc w = PC_Exited \<and> w_stop w \<and> w_started w"
  shows "w_pc w' = PC_Exited \<and> w_stop w' \<and> w_started w' \<and> w_items w' = w_items w"
  using assms by (induction rule: rtranclp_induct) (use exited_frozen in metis)+

text \<open>The loop's failing path leaves the lock to whoever holds it.\<close>

lemma failing_path:
  assumes "worker_inv w" "w_pc w = PC_Fail e"
  shows "w_pc ((loop_step (worker_env ops exec) ^^ 2) w) = PC_Set_Stop"
    "w_lock ((loop_step (worker_env ops exec) ^^ 2) w) = w_lock w" "w_stop ((loop_step (worker_env ops exec) ^^ 2) w) = w_stop w"
    "w_started ((loop_step (worker_env ops exec) ^^ 2) w) = w_started w" "w_life ((loop_step (worker_env ops exec) ^^ 2) w) = w_life w"
proof -
  let ?v = "(fail_inflight ops e w)\<lparr>w_pc := PC_Reject e\<rparr>"
  have v: "worker_inv ?v" using fail_inflight_inv(1) [OF assms(1)] by simp
  have two: "(loop_step (worker_env ops exec) ^^ 2) w = (reject_inbound e ?v)\<lparr>w_pc := PC_Set_Stop\<rparr>"
    by (simp add: numeral_2_eq_2 loop_step_def assms(2) worker_env_def)
  note c = controlD [OF fail_inflight_inv(2) [OF assms(1), of ops e]] controlD [OF reject_inbound_inv(2) [OF v, of e]]
  show "w_pc ((loop_step (worker_env ops exec) ^^ 2) w) = PC_Set_Stop"
    "w_lock ((loop_step (worker_env ops exec) ^^ 2) w) = w_lock w" "w_stop ((loop_step (worker_env ops exec) ^^ 2) w) = w_stop w"
    "w_started ((loop_step (worker_env ops exec) ^^ 2) w) = w_started w" "w_life ((loop_step (worker_env ops exec) ^^ 2) w) = w_life w"
    unfolding two using c by simp_all
qed

lemma ending_path:
  assumes "worker_inv w" "w_pc w = PC_Set_Stop"
  shows "w_pc ((loop_step (worker_env ops exec) ^^ 3) w) = PC_Exited" "w_stop ((loop_step (worker_env ops exec) ^^ 3) w)"
    "w_started ((loop_step (worker_env ops exec) ^^ 3) w) = w_started w" "w_lock ((loop_step (worker_env ops exec) ^^ 3) w) = w_lock w"
proof -
  let ?u = "w\<lparr>w_stop := True, w_pc := PC_Final\<rparr>"
  let ?v = "(reject_inbound stopped_exn ?u)\<lparr>w_pc := PC_Sweep\<rparr>"
  have u: "worker_inv ?u" using assms(1) by simp
  have v: "worker_inv ?v" using reject_inbound_inv(1) [OF u] by simp
  have three: "(loop_step (worker_env ops exec) ^^ 3) w =
      (if w_inflight ?v = [] then ?v else fail_inflight ops stopped_exn ?v)\<lparr>w_pc := PC_Exited\<rparr>"
    by (simp add: numeral_3_eq_3 loop_step_def assms(2) worker_env_def)
  note c = controlD [OF reject_inbound_inv(2) [OF u, of stopped_exn]] controlD [OF fail_inflight_inv(2) [OF v, of ops stopped_exn]]
  show "w_pc ((loop_step (worker_env ops exec) ^^ 3) w) = PC_Exited" "w_stop ((loop_step (worker_env ops exec) ^^ 3) w)"
    "w_started ((loop_step (worker_env ops exec) ^^ 3) w) = w_started w" "w_lock ((loop_step (worker_env ops exec) ^^ 3) w) = w_lock w"
    unfolding three using c by simp_all
qed

text \<open>
  C26. The submit that can be stranded is real. The failing path of the loop sets the stop flag without the lock:
  from every state in which a step has just failed on a serving worker with the lock free, a submit can pass its
  checks, put its item after the loop's last sweep, and wait for ever: no continuation gives it an outcome.
\<close>

theorem failing_step_strands_submit:
  assumes reach: "(worker_step (worker_env ops exec))\<^sup>*\<^sup>* (worker_init pool role) w" and pc: "w_pc w = PC_Fail e"
    and free: "w_lock w = None" "\<not> w_stop w" "accepts_new_requests (w_life w)"
  shows "\<exists>a w'. (worker_step (worker_env ops exec))\<^sup>*\<^sup>* w w' \<and> a < length (w_items w')
    \<and> (\<forall>w''. (worker_step (worker_env ops exec))\<^sup>*\<^sup>* w' w'' \<longrightarrow> w_pc w'' = PC_Exited \<and> submit_outcome a w'' = None)"
proof -
  let ?S = "worker_step (worker_env ops exec)" and ?L = "loop_step (worker_env ops exec)"
  have inv: "worker_inv w" "control_inv w" using worker_reach_inv [OF reach] by simp_all
  have started: "w_started w" using inv(2) pc by (simp add: control_inv_def)
  define w2 where "w2 = (?L ^^ 2) w"
  define w3 where "w3 = snd (submit_enter undefined None w2)"
  define w6 where "w6 = (?L ^^ 3) w3"
  note f = failing_path [OF inv(1) pc, of ops exec, folded w2_def]
  have r2: "?S\<^sup>*\<^sup>* w w2" unfolding w2_def by (rule loop_reach) simp
  have r3: "?S\<^sup>*\<^sup>* w w3" unfolding w3_def
    by (rule rtranclp.rtrancl_into_rtrancl [OF r2 ws_enter]) (simp add: f free)
  have lock: "w_lock w3 = Some (length (w_items w2))" "w_pc w3 = PC_Set_Stop" "w_started w3"
    using f free started by (simp_all add: w3_def submit_enter_def)
  have i3: "worker_inv w3" using worker_reach_inv rtranclp_trans [OF reach r3] by blast
  note g = ending_path [OF i3 lock(2), of ops exec, folded w6_def]
  let ?w7 = "submit_put w6"
  have r7: "?S\<^sup>*\<^sup>* w ?w7"
    by (rule rtranclp.rtrancl_into_rtrancl [OF loop_reach [OF r3, of 3, folded w6_def] ws_put])
  have i7: "worker_inv ?w7" using worker_reach_inv rtranclp_trans [OF reach r7] by blast
  have h: "length (w_items w2) \<in> set (held ?w7)" by (simp add: submit_put_def g lock held_def)
  then have u: "length (w_items w2) < length (w_items ?w7)" "\<not> in_done (w_items ?w7 ! length (w_items w2))"
    using i7 unfolding worker_inv_with_def items_held_def by simp_all
  have e7: "w_pc ?w7 = PC_Exited \<and> w_stop ?w7 \<and> w_started ?w7" using g lock by (simp add: submit_put_def)
  have "w_pc w'' = PC_Exited \<and> submit_outcome (length (w_items w2)) w'' = None" if "?S\<^sup>*\<^sup>* ?w7 w''" for w''
    using exited_frozen_run [OF that e7] u by (simp add: outcome_None)
  with r7 u(1) show ?thesis by blast
qed

definition failing_agent :: "mem_agent agent_ops" where
  "failing_agent = in_memory_agent\<lparr>ag_prepare_step := \<lambda>p a. (Inl (AE_Pool DOWNSTREAM), a)\<rparr>"

definition demo_failed :: "mem_agent worker" where
  "demo_failed = (loop_step (worker_env failing_agent mock_exec) ^^ 3) demo_submitted"

lemma demo_failed_fields: "(w_pc demo_failed, w_lock demo_failed, w_stop demo_failed, w_life demo_failed) =
    (PC_Fail (NE_Pool DOWNSTREAM), None, False, WS_SERVING)"
  by code_simp

theorem failing_step_strands_submit_witness:
  "\<exists>a w'. (worker_step (worker_env failing_agent mock_exec))\<^sup>*\<^sup>* demo_failed w' \<and> a < length (w_items w')
    \<and> w_pc w' = PC_Exited \<and> submit_outcome a w' = None"
proof -
  have reach: "(worker_step (worker_env failing_agent mock_exec))\<^sup>*\<^sup>* demo_worker demo_failed"
    unfolding demo_failed_def by (rule loop_reach [OF demo_submitted_reach])
  have "accepts_new_requests (w_life demo_failed)" using demo_failed_fields by (simp add: accepts_new_requests_def)
  then obtain a w' where w': "(worker_step (worker_env failing_agent mock_exec))\<^sup>*\<^sup>* demo_failed w'" "a < length (w_items w')"
    "\<And>w''. (worker_step (worker_env failing_agent mock_exec))\<^sup>*\<^sup>* w' w'' \<Longrightarrow> w_pc w'' = PC_Exited \<and> submit_outcome a w'' = None"
    using failing_step_strands_submit [OF reach [unfolded demo_worker_def], of "NE_Pool DOWNSTREAM"] demo_failed_fields
    by auto
  show ?thesis using w'(1,2) w'(3) [OF rtranclp.rtrancl_refl] by blast
qed

end
