(* ===== verification/Worker_Service.thy ===== *)
theory Worker_Service
  imports Worker_Theorems "HOL-Library.Word"
begin

text \<open>
  The worker's gRPC front (\<^verbatim>\<open>runtime/worker.py\<close>): the \<open>Generate\<close> call builds a request from the message,
  submits it to the engine and turns the outcome into a response or a status. The message's numbers are 32-bit
  words, as on the wire; a response number that does not fit the wire raises outside the handler's own
  exception clauses, and the server reports it as unknown.
\<close>

datatype grpc_status = ST_UNAVAILABLE | ST_RESOURCE_EXHAUSTED | ST_INVALID_ARGUMENT | ST_INTERNAL | ST_UNKNOWN

record generate_request =
  g_request_id :: string
  g_model_id :: string
  g_prompt_tokens :: "32 word list"
  g_max_new_tokens :: "32 word"
  g_requester_node_id :: string
  g_exec_mode :: string
  g_computed_tokens :: "32 word"
  g_reused_blocks :: "32 word"
  g_local_hit :: bool

record generate_response =
  gr_request_id :: string
  gr_output_tokens :: "32 word list"
  gr_reused_blocks :: "32 word"
  gr_prefill_blocks :: "32 word"
  gr_mode :: string

definition worker_node_id :: string where
  "worker_node_id = ''worker-0''"

primrec exec_mode_value :: "exec_mode \<Rightarrow> string" where
  "exec_mode_value COLOCATED = ''COLOCATED''"
| "exec_mode_value PD_DISAGG = ''PD_DISAGG''"
| "exec_mode_value D_DIRECT = ''D_DIRECT''"

definition exec_mode_of_value :: "string \<Rightarrow> py_exn + exec_mode" where
  "exec_mode_of_value s =
    (if s = ''COLOCATED'' then Inr COLOCATED
     else if s = ''PD_DISAGG'' then Inr PD_DISAGG
     else if s = ''D_DIRECT'' then Inr D_DIRECT
     else Inl ValueError)"

primrec pool_error_status :: "pool_error_code \<Rightarrow> grpc_status" where
  "pool_error_status PE_OK = ST_INTERNAL"
| "pool_error_status TIMEOUT = ST_UNAVAILABLE"
| "pool_error_status CAPACITY = ST_RESOURCE_EXHAUSTED"
| "pool_error_status DOWNSTREAM = ST_UNAVAILABLE"
| "pool_error_status PROTOCOL_ERROR = ST_UNAVAILABLE"
| "pool_error_status INVALID_ARG = ST_INVALID_ARGUMENT"

text \<open>The handler's exception clauses.\<close>

fun abort_status :: "node_exn \<Rightarrow> grpc_status" where
  "abort_status (NE_Pool c) = pool_error_status c"
| "abort_status (NE_Py ValueError) = ST_INVALID_ARGUMENT"
| "abort_status (NE_Py e) = ST_INTERNAL"

definition generate_hint :: "generate_request \<Rightarrow> prefix_hint" where
  "generate_hint g = default_prefix_hint\<lparr>computed_tokens := uint (g_computed_tokens g),
     hint_reused_blocks := uint (g_reused_blocks g), local_hit := g_local_hit g\<rparr>"

definition generate_prepare :: "role_config \<Rightarrow> generate_request \<Rightarrow> py_exn + (req \<times> prefix_hint)" where
  "generate_prepare role g =
    bind_res (build_req_from_generate (g_request_id g)
        (text_or (g_model_id g) (rc_served_model_name role)) (map uint (g_prompt_tokens g))
        (if g_max_new_tokens g = 0 then 4 else uint (g_max_new_tokens g))
        (text_or (g_requester_node_id g) worker_node_id))
      (\<lambda>r. if g_exec_mode g \<noteq> []
           then bind_res (exec_mode_of_value (g_exec_mode g)) (\<lambda>m. Inr (r\<lparr>req_exec_mode := m\<rparr>, generate_hint g))
           else Inr (r, default_prefix_hint))"

definition wire_uint32 :: "int \<Rightarrow> py_exn + 32 word" where
  "wire_uint32 x = (if 0 \<le> x \<and> x < 2 ^ 32 then Inr (word_of_int x) else Inl ValueError)"

definition generate_reply :: "generate_request \<Rightarrow> req \<Rightarrow> py_exn + generate_response" where
  "generate_reply g r =
    bind_res (map_res wire_uint32 (output_token_ids r)) (\<lambda>toks.
    bind_res (wire_uint32 (reused_blocks r)) (\<lambda>reused.
    bind_res (wire_uint32 (prefill_blocks r)) (\<lambda>prefill.
      Inr \<lparr>gr_request_id = g_request_id g, gr_output_tokens = toks, gr_reused_blocks = reused,
        gr_prefill_blocks = prefill, gr_mode = exec_mode_value (req_exec_mode r)\<rparr>)))"

text \<open>\<open>submit\<close> is the engine's blocking call: the outcome the item gets.\<close>

definition Generate :: "role_config \<Rightarrow> (req \<Rightarrow> prefix_hint \<Rightarrow> node_exn + req) \<Rightarrow> generate_request \<Rightarrow> grpc_status + generate_response" where
  "Generate role submit g =
    (case generate_prepare role g of
       Inl e \<Rightarrow> Inl (abort_status (NE_Py e))
     | Inr (r, h) \<Rightarrow>
         (case submit r h of
            Inl e \<Rightarrow> Inl (abort_status e)
          | Inr done \<Rightarrow>
              (case generate_reply g done of Inl e \<Rightarrow> Inl ST_UNKNOWN | Inr resp \<Rightarrow> Inr resp)))"

lemma text_or_empty: "text_or s d = [] \<longleftrightarrow> s = [] \<and> d = []"
  by (simp add: text_or_def)

lemma exec_mode_round_trip: "exec_mode_of_value (exec_mode_value m) = Inr m"
  by (cases m) (simp_all add: exec_mode_of_value_def)

text \<open>What the front hands to the engine is what the scheduler's invariant asks of an admission.\<close>

lemma generate_prepare_fresh:
  assumes "generate_prepare role g = Inr (r, h)"
  shows "fresh_req r" "hint_ok (Some h)" "req_id r = g_request_id g" "prompt_token_ids r = map uint (g_prompt_tokens g)"
    "max_new_tokens (req_sampling r) = (if g_max_new_tokens g = 0 then 4 else uint (g_max_new_tokens g))"
proof -
  have pos: "0 < uint (g_max_new_tokens g)" if "g_max_new_tokens g \<noteq> 0"
    using that by (metis uint_0_iff uint_ge_0 order_le_less)
  show "fresh_req r" "hint_ok (Some h)" "req_id r = g_request_id g" "prompt_token_ids r = map uint (g_prompt_tokens g)"
    "max_new_tokens (req_sampling r) = (if g_max_new_tokens g = 0 then 4 else uint (g_max_new_tokens g))"
    using assms pos
    by (auto simp: generate_prepare_def build_req_from_generate_def fresh_req_def hint_ok_def generate_hint_def
        default_prefix_hint_def bind_res_Inr_iff split: if_splits)
qed

lemma generate_rejects:
  "is_ok (generate_prepare role g) \<longleftrightarrow>
     (g_model_id g \<noteq> [] \<or> rc_served_model_name role \<noteq> []) \<and> (g_exec_mode g = [] \<or> is_ok (exec_mode_of_value (g_exec_mode g)))"
  by (auto simp: generate_prepare_def build_req_from_generate_def text_or_empty is_ok_iff bind_res_Inr_iff split: if_splits)

lemma wire_uint32_round_trip: "wire_uint32 x = Inr v \<Longrightarrow> uint v = x"
  by (auto simp: wire_uint32_def uint_word_of_int split: if_splits)

lemma map_res_uint: "map_res wire_uint32 xs = Inr vs \<Longrightarrow> map uint vs = xs"
  by (induction xs arbitrary: vs) (auto simp: bind_res_Inr_iff dest: wire_uint32_round_trip)

lemma generate_reply_tokens:
  "generate_reply g r = Inr resp \<Longrightarrow> map uint (gr_output_tokens resp) = output_token_ids r \<and> gr_request_id resp = g_request_id g"
  by (auto simp: generate_reply_def bind_res_Inr_iff dest: map_res_uint)

text \<open>
  C7. The worker end to end: whatever the interleaving in the engine, when \<open>Generate\<close> answers a request the engine
  has taken with a response, the response carries the request's id and exactly the tokens of the engine's answer,
  that answer is finished and belongs to the prompt on the wire, and it has at least the number of tokens that was
  asked for (four when the message leaves it open).
\<close>

theorem generate_end_to_end:
  assumes "(worker_step (worker_env ops exec))\<^sup>*\<^sup>* (worker_init pool role) w" "a < length (w_items w)"
    and "generate_prepare role' g = Inr (in_req (w_items w ! a), h)" "submit_outcome a w = Some x"
    and "Generate role' (\<lambda>_ _. x) g = Inr resp"
  shows "gr_request_id resp = g_request_id g \<and> (\<exists>r. x = Inr r \<and> finished r
    \<and> prompt_token_ids r = map uint (g_prompt_tokens g) \<and> output_token_ids r = map uint (gr_output_tokens resp)
    \<and> (if g_max_new_tokens g = 0 then 4 else uint (g_max_new_tokens g)) \<le> py_len (gr_output_tokens resp))"
proof -
  obtain r where r: "x = Inr r" "generate_reply g r = Inr resp"
    using assms(3,5) by (auto simp: Generate_def split: sum.splits)
  have own: "prompt_token_ids r = prompt_token_ids (in_req (w_items w ! a)) \<and> finished r
      \<and> max_new_tokens (req_sampling (in_req (w_items w ! a))) \<le> num_output_tokens r"
    using worker_answer_own [OF assms(1,2)] assms(4) r(1) by simp
  have "output_token_ids r = map uint (gr_output_tokens resp)" "gr_request_id resp = g_request_id g"
    using generate_reply_tokens [OF r(2)] by simp_all
  then show ?thesis
    using own r(1) generate_prepare_fresh(4,5) [OF assms(3)] by (simp add: num_output_tokens_def)
qed

definition demo_generate :: generate_request where
  "demo_generate = \<lparr>g_request_id = ''a'', g_model_id = ''m'', g_prompt_tokens = [5, 7], g_max_new_tokens = 1,
     g_requester_node_id = ''w'', g_exec_mode = [], g_computed_tokens = 0, g_reused_blocks = 0, g_local_hit = False\<rparr>"

lemma demo_generate_prepare: "generate_prepare demo_role demo_generate = Inr (demo_req, default_prefix_hint)"
  by (simp add: generate_prepare_def demo_generate_def demo_req_def build_req_from_generate_def text_or_def)

theorem generate_end_to_end_witness:
  "\<exists>x resp. submit_outcome 0 demo_served = Some x \<and> Generate demo_role (\<lambda>_ _. x) demo_generate = Inr resp
     \<and> map uint (gr_output_tokens resp) = [1008] \<and> gr_request_id resp = ''a''"
proof -
  obtain r where r: "submit_outcome 0 demo_served = Some (Inr r)" "output_token_ids r = [1008]" "reused_blocks r = 0"
    "prefill_blocks r = 1" "length (w_items demo_served) = 1" "in_req (w_items demo_served ! 0) = demo_req"
    by (rule demo_served_outcome)
  obtain resp where g: "Generate demo_role (\<lambda>_ _. Inr r) demo_generate = Inr resp"
    by (simp add: Generate_def demo_generate_prepare generate_reply_def wire_uint32_def r)
  have p: "generate_prepare demo_role demo_generate = Inr (in_req (w_items demo_served ! 0), default_prefix_hint)"
    by (simp add: r demo_generate_prepare)
  have "0 < length (w_items demo_served)" by (simp add: r)
  from generate_end_to_end [OF demo_served_reach [unfolded demo_worker_def] this p r(1) g]
  have "gr_request_id resp = ''a''" "output_token_ids r = map uint (gr_output_tokens resp)"
    by (simp_all add: demo_generate_def)
  then show ?thesis using r(1,2) g by metis
qed

end
