(* ===== verification/Input_Batch.thy ===== *)
theory Input_Batch
  imports Prelude
begin

text \<open>
  The per-step batch and its static buffers (\<^verbatim>\<open>engine/input_batch.py\<close>): \<open>materialize\<close> writes the query tokens of
  every request one after the other into arrays of fixed length. The reference is the concatenation of the requests'
  rows, padded to the length of the arrays.

  A raising \<open>materialize\<close> leaves the rows written so far.
\<close>

section \<open>State\<close>

record input_batch =
  ib_req_ids :: "string list"
  ib_num_scheduled_tokens :: "string \<rightharpoonup> int"
  ib_num_computed_tokens :: "string \<rightharpoonup> int"
  ib_token_ids :: "string \<rightharpoonup> int list"
  ib_query_start :: "string \<rightharpoonup> int"
  ib_query_end :: "string \<rightharpoonup> int"
  ib_is_prompt_phase :: "string \<rightharpoonup> bool"

definition input_batch_clear :: "input_batch \<Rightarrow> input_batch" where
  "input_batch_clear b = \<lparr>ib_req_ids = [], ib_num_scheduled_tokens = Map.empty, ib_num_computed_tokens = Map.empty,
     ib_token_ids = Map.empty, ib_query_start = Map.empty, ib_query_end = Map.empty, ib_is_prompt_phase = Map.empty\<rparr>"

record input_buffers =
  max_num_reqs :: int
  max_num_tokens :: int
  bf_input_ids :: "int list"
  bf_positions :: "int list"
  bf_query_start_loc :: "int list"
  bf_seq_lens :: "int list"
  bf_is_padding :: "bool list"
  bf_slot_mapping :: "int list"
  bf_req_ids :: "string list"
  bf_num_reqs :: int
  bf_num_tokens :: int

text \<open>\<^verbatim>\<open>__post_init__\<close>: the arrays get their length once.\<close>

definition input_buffers_init :: "int \<Rightarrow> int \<Rightarrow> py_exn + input_buffers" where
  "input_buffers_init reqs toks =
    (if reqs \<le> 0 then Inl ValueError
     else if toks \<le> 0 then Inl ValueError
     else Inr \<lparr>max_num_reqs = reqs, max_num_tokens = toks,
       bf_input_ids = replicate (nat toks) 0, bf_positions = replicate (nat toks) 0,
       bf_query_start_loc = replicate (nat (reqs + 1)) 0, bf_seq_lens = replicate (nat reqs) 0,
       bf_is_padding = replicate (nat toks) True, bf_slot_mapping = replicate (nat toks) (- 1),
       bf_req_ids = [], bf_num_reqs = 0, bf_num_tokens = 0\<rparr>)"

definition input_buffers_clear :: "input_buffers \<Rightarrow> input_buffers" where
  "input_buffers_clear b = b\<lparr>bf_req_ids := [], bf_num_reqs := 0, bf_num_tokens := 0,
     bf_query_start_loc := map (\<lambda>_. 0) (bf_query_start_loc b), bf_seq_lens := map (\<lambda>_. 0) (bf_seq_lens b),
     bf_input_ids := map (\<lambda>_. 0) (bf_input_ids b), bf_positions := map (\<lambda>_. 0) (bf_positions b),
     bf_is_padding := map (\<lambda>_. True) (bf_is_padding b), bf_slot_mapping := map (\<lambda>_. - 1) (bf_slot_mapping b)\<rparr>"

section \<open>Writing the rows\<close>

text \<open>\<^verbatim>\<open>xs[i:j]\<close> with Python's reading of negative bounds.\<close>

definition slice_bound :: "int \<Rightarrow> 'a list \<Rightarrow> nat" where
  "slice_bound i xs = nat (min (py_len xs) (if i < 0 then max 0 (py_len xs + i) else i))"

definition py_slice :: "int \<Rightarrow> int \<Rightarrow> 'a list \<Rightarrow> 'a list" where
  "py_slice i j xs = drop (slice_bound i xs) (take (slice_bound j xs) xs)"

text \<open>One token at index \<open>cursor + j\<close>: an index past the arrays, or past the request's slots, raises.\<close>

definition put_token :: "int list option \<Rightarrow> int \<Rightarrow> nat \<Rightarrow> nat \<Rightarrow> int \<Rightarrow> input_buffers \<Rightarrow> (py_exn + unit) \<times> input_buffers" where
  "put_token slots qs cursor j token b =
    (let idx = cursor + j in
     if length (bf_input_ids b) \<le> idx then (Inl IndexError, b)
     else
       (let b1 = b\<lparr>bf_input_ids := (bf_input_ids b)[idx := token], bf_positions := (bf_positions b)[idx := qs + int j],
                   bf_is_padding := (bf_is_padding b)[idx := False]\<rparr> in
        case slots of
          None \<Rightarrow> (Inr (), b1\<lparr>bf_slot_mapping := (bf_slot_mapping b1)[idx := qs + int j]\<rparr>)
        | Some ss \<Rightarrow>
            if length ss \<le> j then (Inl IndexError, b1)
            else (Inr (), b1\<lparr>bf_slot_mapping := (bf_slot_mapping b1)[idx := ss ! j]\<rparr>)))"

fun put_tokens :: "int list option \<Rightarrow> int \<Rightarrow> nat \<Rightarrow> nat \<Rightarrow> int list \<Rightarrow> input_buffers \<Rightarrow> (py_exn + unit) \<times> input_buffers" where
  "put_tokens slots qs cursor j [] b = (Inr (), b)"
| "put_tokens slots qs cursor j (t # ts) b =
    bind_st (put_token slots qs cursor j t b) (\<lambda>_. put_tokens slots qs cursor (Suc j) ts)"

text \<open>One request: a missing entry raises \<^verbatim>\<open>KeyError\<close>, a row that does not fit or slots of another length raise
  \<^verbatim>\<open>ValueError\<close>. The result is the next cursor.\<close>

definition put_row ::
  "(string \<rightharpoonup> int list) \<Rightarrow> input_batch \<Rightarrow> nat \<Rightarrow> string \<Rightarrow> nat \<Rightarrow> input_buffers \<Rightarrow> (py_exn + nat) \<times> input_buffers" where
  "put_row slots batch row rid cursor b =
    (case (ib_query_start batch rid, ib_query_end batch rid) of
       (Some qs, Some qe) \<Rightarrow>
         (let q_len = nat (qe - qs) in
          if int (cursor + q_len) > max_num_tokens b then (Inl ValueError, b)
          else
            (let b1 = b\<lparr>bf_query_start_loc := (bf_query_start_loc b)[row := int cursor],
                        bf_seq_lens := (bf_seq_lens b)[row := qe]\<rparr> in
             case ib_token_ids batch rid of
               None \<Rightarrow> (Inl KeyError, b1)
             | Some toks \<Rightarrow>
                 if (case slots rid of None \<Rightarrow> False | Some ss \<Rightarrow> length ss \<noteq> q_len) then (Inl ValueError, b1)
                 else bind_st (put_tokens (slots rid) qs cursor 0 (py_slice qs qe toks) b1)
                   (\<lambda>_ b2. (Inr (cursor + q_len), b2))))
     | _ \<Rightarrow> (Inl KeyError, b))"

fun put_rows ::
  "(string \<rightharpoonup> int list) \<Rightarrow> input_batch \<Rightarrow> nat \<Rightarrow> string list \<Rightarrow> nat \<Rightarrow> input_buffers \<Rightarrow> (py_exn + nat) \<times> input_buffers" where
  "put_rows slots batch row [] cursor b = (Inr cursor, b)"
| "put_rows slots batch row (rid # rids) cursor b =
    bind_st (put_row slots batch row rid cursor b) (\<lambda>c. put_rows slots batch (Suc row) rids c)"

definition materialize :: "input_batch \<Rightarrow> (string \<rightharpoonup> int list) \<Rightarrow> input_buffers \<Rightarrow> (py_exn + unit) \<times> input_buffers" where
  "materialize batch slots b =
    (let rids = ib_req_ids batch; n = length rids in
     if int n > max_num_reqs b then (Inl ValueError, b)
     else
       bind_st (put_rows slots batch 0 rids 0
           ((input_buffers_clear b)\<lparr>bf_req_ids := rids, bf_num_reqs := int n\<rparr>))
         (\<lambda>cursor b1. (Inr (), b1\<lparr>bf_num_tokens := int cursor,
            bf_query_start_loc := take n (bf_query_start_loc b1) @ replicate (nat (max_num_reqs b + 1) - n) (int cursor)\<rparr>)))"

section \<open>Reference\<close>

text \<open>A row of the batch as the engine builds it: the tokens up to the query's end are there.\<close>

definition row_ok :: "(string \<rightharpoonup> int list) \<Rightarrow> input_batch \<Rightarrow> string \<Rightarrow> bool" where
  "row_ok slots batch rid = (case (ib_query_start batch rid, ib_query_end batch rid, ib_token_ids batch rid) of
     (Some qs, Some qe, Some toks) \<Rightarrow> 0 \<le> qs \<and> qs \<le> qe \<and> qe = py_len toks
       \<and> (case slots rid of None \<Rightarrow> True | Some ss \<Rightarrow> int (length ss) = qe - qs)
   | _ \<Rightarrow> False)"

definition row_start :: "input_batch \<Rightarrow> string \<Rightarrow> int" where
  "row_start batch rid = the (ib_query_start batch rid)"

definition row_end :: "input_batch \<Rightarrow> string \<Rightarrow> int" where
  "row_end batch rid = the (ib_query_end batch rid)"

definition row_tokens :: "input_batch \<Rightarrow> string \<Rightarrow> int list" where
  "row_tokens batch rid = drop (nat (row_start batch rid)) (the (ib_token_ids batch rid))"

definition row_positions :: "input_batch \<Rightarrow> string \<Rightarrow> int list" where
  "row_positions batch rid = [row_start batch rid .. row_end batch rid - 1]"

definition row_slots :: "(string \<rightharpoonup> int list) \<Rightarrow> input_batch \<Rightarrow> string \<Rightarrow> int list" where
  "row_slots slots batch rid = (case slots rid of None \<Rightarrow> row_positions batch rid | Some ss \<Rightarrow> ss)"

text \<open>All rows in order, padded to \<open>n\<close>.\<close>

definition flat :: "nat \<Rightarrow> 'x \<Rightarrow> (string \<Rightarrow> 'x list) \<Rightarrow> string list \<Rightarrow> 'x list" where
  "flat n pad row rids = concat (map row rids) @ replicate (n - length (concat (map row rids))) pad"

text \<open>Where the rows start: running sums of their lengths.\<close>

fun row_offsets :: "input_batch \<Rightarrow> int \<Rightarrow> string list \<Rightarrow> int list" where
  "row_offsets batch c [] = []"
| "row_offsets batch c (rid # rids) = c # row_offsets batch (c + (row_end batch rid - row_start batch rid)) rids"

definition buffers_ok :: "input_buffers \<Rightarrow> bool" where
  "buffers_ok b \<longleftrightarrow> 0 < max_num_reqs b \<and> 0 < max_num_tokens b
     \<and> length (bf_input_ids b) = nat (max_num_tokens b) \<and> length (bf_positions b) = nat (max_num_tokens b)
     \<and> length (bf_is_padding b) = nat (max_num_tokens b) \<and> length (bf_slot_mapping b) = nat (max_num_tokens b)
     \<and> length (bf_query_start_loc b) = nat (max_num_reqs b + 1) \<and> length (bf_seq_lens b) = nat (max_num_reqs b)"

lemma input_buffers_init_ok: "input_buffers_init r t = Inr b \<Longrightarrow> buffers_ok b"
  by (auto simp: input_buffers_init_def buffers_ok_def split: if_splits)

section \<open>The rows end up as the reference lays them out\<close>

lemma update_pad: "length xs = n \<Longrightarrow> (xs @ replicate (Suc k) d)[n := v] = (xs @ [v]) @ replicate k d"
  by (simp add: list_update_append)

text \<open>\<open>filled A B D k b\<close>: the arrays of \<open>b\<close> hold tokens \<open>A\<close>, positions \<open>B\<close> and slots \<open>D\<close>, then \<open>k\<close> entries of padding.\<close>

definition filled :: "int list \<Rightarrow> int list \<Rightarrow> int list \<Rightarrow> nat \<Rightarrow> input_buffers \<Rightarrow> bool" where
  "filled A B D k b \<longleftrightarrow> length B = length A \<and> length D = length A
     \<and> bf_input_ids b = A @ replicate k 0 \<and> bf_positions b = B @ replicate k 0
     \<and> bf_is_padding b = replicate (length A) False @ replicate k True \<and> bf_slot_mapping b = D @ replicate k (- 1)"

definition slot_of :: "int list option \<Rightarrow> int \<Rightarrow> nat \<Rightarrow> int" where
  "slot_of slots qs j = (case slots of None \<Rightarrow> qs + int j | Some ss \<Rightarrow> ss ! j)"

text \<open>The fields a row does not touch.\<close>

definition other_fields :: "input_buffers \<Rightarrow> int \<times> int \<times> int list \<times> int list \<times> string list \<times> int \<times> int" where
  "other_fields b = (max_num_reqs b, max_num_tokens b, bf_query_start_loc b, bf_seq_lens b, bf_req_ids b, bf_num_reqs b, bf_num_tokens b)"

lemma slot_of_simps: "slot_of None qs = (\<lambda>j. qs + int j)" "slot_of (Some ss) qs = (!) ss"
  by (simp_all add: slot_of_def fun_eq_iff)

lemma put_token_filled:
  assumes "filled A B D (Suc k) b" "length A = cursor + j" "\<And>ss. slots = Some ss \<Longrightarrow> j < length ss"
  shows "\<exists>b'. put_token slots qs cursor j t b = (Inr (), b') \<and> filled (A @ [t]) (B @ [qs + int j]) (D @ [slot_of slots qs j]) k b'
    \<and> other_fields b' = other_fields b"
  using assms update_pad [of A "cursor + j" k 0 t] update_pad [of B "cursor + j" k 0 "qs + int j"]
    update_pad [of "replicate (length A) False" "cursor + j" k True False]
    update_pad [of D "cursor + j" k "- 1" "slot_of slots qs j"]
  by (cases slots) (simp_all add: put_token_def filled_def other_fields_def slot_of_def Let_def replicate_append_same)

lemma put_tokens_filled:
  assumes "filled A B D (length ts + k) b" "length A = cursor + j" "\<And>ss. slots = Some ss \<Longrightarrow> j + length ts \<le> length ss"
  shows "\<exists>b'. put_tokens slots qs cursor j ts b = (Inr (), b')
    \<and> filled (A @ ts) (B @ map (\<lambda>i. qs + int i) [j..<j + length ts]) (D @ map (slot_of slots qs) [j..<j + length ts]) k b'
    \<and> other_fields b' = other_fields b"
  using assms
proof (induction ts arbitrary: A B D j b)
  case Nil
  then show ?case by simp
next
  case (Cons t ts)
  have "j < length ss" if "slots = Some ss" for ss using Cons.prems(3) [OF that] by simp
  then obtain b1 where b1: "put_token slots qs cursor j t b = (Inr (), b1)" "other_fields b1 = other_fields b"
    "filled (A @ [t]) (B @ [qs + int j]) (D @ [slot_of slots qs j]) (length ts + k) b1"
    using put_token_filled [of A B D "length ts + k" b cursor j slots qs t] Cons.prems(1,2) by auto
  have "Suc j + length ts \<le> length ss" if "slots = Some ss" for ss using Cons.prems(3) [OF that] by simp
  then obtain b' where "put_tokens slots qs cursor (Suc j) ts b1 = (Inr (), b')" "other_fields b' = other_fields b1"
    "filled ((A @ [t]) @ ts) ((B @ [qs + int j]) @ map (\<lambda>i. qs + int i) [Suc j..<Suc j + length ts])
       ((D @ [slot_of slots qs j]) @ map (slot_of slots qs) [Suc j..<Suc j + length ts]) k b'"
    using Cons.IH [OF b1(3), of "Suc j"] Cons.prems(2) by auto
  moreover have "[j..<j + length (t # ts)] = j # [Suc j..<Suc j + length ts]"
    using upt_conv_Cons [of j "j + length (t # ts)"] by (simp del: upt_Suc)
  ultimately show ?case using b1 by simp
qed

lemma row_shapes:
  assumes "row_ok slots batch rid"
  obtains qs qe toks where "ib_query_start batch rid = Some qs" "ib_query_end batch rid = Some qe"
    "ib_token_ids batch rid = Some toks" "0 \<le> qs" "qs \<le> qe" "qe = py_len toks"
    "\<And>ss. slots rid = Some ss \<Longrightarrow> int (length ss) = qe - qs"
  using assms by (auto simp: row_ok_def split: option.splits)

lemma row_lists:
  assumes "row_ok slots batch rid"
  shows "row_positions batch rid = map (\<lambda>i. row_start batch rid + int i) [0..<length (row_tokens batch rid)]"
    "row_slots slots batch rid = map (slot_of (slots rid) (row_start batch rid)) [0..<length (row_tokens batch rid)]"
    "int (length (row_tokens batch rid)) = row_end batch rid - row_start batch rid"
    "py_slice (row_start batch rid) (row_end batch rid) (the (ib_token_ids batch rid)) = row_tokens batch rid"
proof -
  obtain qs qe toks where r: "ib_query_start batch rid = Some qs" "ib_query_end batch rid = Some qe"
    "ib_token_ids batch rid = Some toks" "0 \<le> qs" "qs \<le> qe" "qe = py_len toks"
    "\<And>ss. slots rid = Some ss \<Longrightarrow> int (length ss) = qe - qs" by (rule row_shapes [OF assms]) blast
  note e = row_start_def row_end_def row_tokens_def
  show len: "int (length (row_tokens batch rid)) = row_end batch rid - row_start batch rid"
    using r by (simp add: e)
  have "nat (qe - qs) = length (row_tokens batch rid)" using r by (simp add: e)
  then show pos: "row_positions batch rid = map (\<lambda>i. row_start batch rid + int i) [0..<length (row_tokens batch rid)]"
    using r by (intro nth_equalityI) (simp_all add: row_positions_def row_start_def row_end_def nth_upto)
  show "row_slots slots batch rid = map (slot_of (slots rid) (row_start batch rid)) [0..<length (row_tokens batch rid)]"
  proof (cases "slots rid")
    case None
    then show ?thesis using pos by (simp add: row_slots_def slot_of_simps)
  next
    case (Some ss)
    then have "length ss = length (row_tokens batch rid)" using r(7) [OF Some] len r by (simp add: e)
    then show ?thesis using Some map_nth [of ss] by (simp add: row_slots_def slot_of_simps)
  qed
  show "py_slice (row_start batch rid) (row_end batch rid) (the (ib_token_ids batch rid)) = row_tokens batch rid"
    using r by (simp add: e py_slice_def slice_bound_def)
qed

lemma concat_snoc: "concat (map f (xs @ [x])) = concat (map f xs) @ f x"
  by simp

text \<open>The rows \<open>rids\<close> are written, the rest of every array is padding.\<close>

definition rows_at :: "(string \<rightharpoonup> int list) \<Rightarrow> input_batch \<Rightarrow> string list \<Rightarrow> input_buffers \<Rightarrow> bool" where
  "rows_at slots batch rids b \<longleftrightarrow>
     filled (concat (map (row_tokens batch) rids)) (concat (map (row_positions batch) rids))
       (concat (map (row_slots slots batch) rids)) (nat (max_num_tokens b) - length (concat (map (row_tokens batch) rids))) b
     \<and> bf_query_start_loc b = row_offsets batch 0 rids @ replicate (nat (max_num_reqs b + 1) - length rids) 0
     \<and> bf_seq_lens b = map (row_end batch) rids @ replicate (nat (max_num_reqs b) - length rids) 0"

lemma length_row_offsets [simp]: "length (row_offsets batch c rids) = length rids"
  by (induction rids arbitrary: c) simp_all

lemma row_offsets_snoc:
  assumes "list_all (row_ok slots batch) rids"
  shows "row_offsets batch c (rids @ [rid]) = row_offsets batch c rids @ [c + int (length (concat (map (row_tokens batch) rids)))]"
  using assms by (induction rids arbitrary: c) (simp_all add: row_lists(3) [of slots])

lemma put_row_at:
  assumes at: "rows_at slots batch rids b" and ok: "list_all (row_ok slots batch) rids" "row_ok slots batch rid"
    and fit: "int (length (concat (map (row_tokens batch) (rids @ [rid])))) \<le> max_num_tokens b" "int (length rids) < max_num_reqs b"
  shows "\<exists>b'. put_row slots batch (length rids) rid (length (concat (map (row_tokens batch) rids))) b =
      (Inr (length (concat (map (row_tokens batch) (rids @ [rid])))), b')
    \<and> rows_at slots batch (rids @ [rid]) b' \<and> max_num_reqs b' = max_num_reqs b \<and> max_num_tokens b' = max_num_tokens b
    \<and> bf_req_ids b' = bf_req_ids b \<and> bf_num_reqs b' = bf_num_reqs b"
proof -
  let ?A = "concat (map (row_tokens batch) rids)" and ?ts = "row_tokens batch rid" and ?qs = "row_start batch rid"
  obtain qe toks where r: "ib_query_start batch rid = Some ?qs" "ib_query_end batch rid = Some (row_end batch rid)"
    "ib_token_ids batch rid = Some toks" "\<And>ss. slots rid = Some ss \<Longrightarrow> length ss = length ?ts"
    using row_shapes [OF ok(2)] row_lists(3) [OF ok(2)] by (fastforce simp: row_start_def row_end_def)
  note l = row_lists [OF ok(2)]
  have q: "nat (row_end batch rid - ?qs) = length ?ts" using l(3) by linarith
  let ?b1 = "b\<lparr>bf_query_start_loc := (bf_query_start_loc b)[length rids := int (length ?A)],
      bf_seq_lens := (bf_seq_lens b)[length rids := row_end batch rid]\<rparr>"
  let ?k = "nat (max_num_tokens b) - length (concat (map (row_tokens batch) (rids @ [rid])))"
  have k: "nat (max_num_tokens b) - length ?A = length ?ts + ?k" using fit(1) by simp
  have "filled ?A (concat (map (row_positions batch) rids)) (concat (map (row_slots slots batch) rids)) (length ?ts + ?k) ?b1"
    using at k by (simp add: rows_at_def filled_def)
  then obtain b' where b': "put_tokens (slots rid) ?qs (length ?A) 0 ?ts ?b1 = (Inr (), b')" "other_fields b' = other_fields ?b1"
    "filled (?A @ ?ts) (concat (map (row_positions batch) rids) @ row_positions batch rid)
       (concat (map (row_slots slots batch) rids) @ row_slots slots batch rid) ?k b'"
    using put_tokens_filled [of ?A _ _ ?ts ?k ?b1 "length ?A" 0 "slots rid" ?qs] r(4) l(1,2) by fastforce
  have "put_row slots batch (length rids) rid (length ?A) b = (Inr (length (concat (map (row_tokens batch) (rids @ [rid])))), b')"
    using fit(1) r(4) l(4) b'(1) by (simp add: put_row_def r(1-3) q Let_def split: option.splits)
  moreover have "bf_query_start_loc ?b1 = row_offsets batch 0 (rids @ [rid]) @ replicate (nat (max_num_reqs b + 1) - length (rids @ [rid])) 0"
    using at fit(2) update_pad [of "row_offsets batch 0 rids" "length rids" "nat (max_num_reqs b + 1) - Suc (length rids)" 0 "int (length ?A)"]
    by (simp add: rows_at_def row_offsets_snoc [OF ok(1)] Suc_diff_Suc)
  moreover have "bf_seq_lens ?b1 = map (row_end batch) (rids @ [rid]) @ replicate (nat (max_num_reqs b) - length (rids @ [rid])) 0"
    using at fit(2) update_pad [of "map (row_end batch) rids" "length rids" "nat (max_num_reqs b) - Suc (length rids)" 0 "row_end batch rid"]
    by (simp add: rows_at_def Suc_diff_Suc)
  ultimately show ?thesis using b'(2,3) by (simp add: rows_at_def other_fields_def)
qed

lemma put_rows_at:
  assumes "rows_at slots batch rids b" "list_all (row_ok slots batch) (rids @ rest)"
    and "int (length (concat (map (row_tokens batch) (rids @ rest)))) \<le> max_num_tokens b" "int (length (rids @ rest)) \<le> max_num_reqs b"
  shows "\<exists>b'. put_rows slots batch (length rids) rest (length (concat (map (row_tokens batch) rids))) b =
      (Inr (length (concat (map (row_tokens batch) (rids @ rest)))), b')
    \<and> rows_at slots batch (rids @ rest) b' \<and> max_num_reqs b' = max_num_reqs b \<and> max_num_tokens b' = max_num_tokens b
    \<and> bf_req_ids b' = bf_req_ids b \<and> bf_num_reqs b' = bf_num_reqs b"
  using assms
proof (induction rest arbitrary: rids b)
  case Nil
  then show ?case by simp
next
  case (Cons rid rest)
  have "int (length (concat (map (row_tokens batch) (rids @ [rid])))) \<le> max_num_tokens b" "int (length rids) < max_num_reqs b"
    using Cons.prems(3,4) by simp_all
  with Cons.prems(1,2) obtain b1 where b1: "put_row slots batch (length rids) rid (length (concat (map (row_tokens batch) rids))) b =
      (Inr (length (concat (map (row_tokens batch) (rids @ [rid])))), b1)" "rows_at slots batch (rids @ [rid]) b1"
    "max_num_reqs b1 = max_num_reqs b" "max_num_tokens b1 = max_num_tokens b" "bf_req_ids b1 = bf_req_ids b" "bf_num_reqs b1 = bf_num_reqs b"
    using put_row_at [of slots batch rids b rid] by auto
  show ?case
    using Cons.IH [OF b1(2)] Cons.prems(2-4) b1 by simp
qed

lemma clear_rows_at:
  assumes "buffers_ok b"
  shows "rows_at slots batch [] ((input_buffers_clear b)\<lparr>bf_req_ids := rids, bf_num_reqs := n\<rparr>)"
  using assms by (simp add: rows_at_def filled_def input_buffers_clear_def buffers_ok_def map_replicate_const)

text \<open>A batch that fits is written row by row.\<close>

lemma put_rows_fit:
  assumes b: "buffers_ok b" and rows: "list_all (row_ok slots batch) rids"
    and fit: "int (length rids) \<le> max_num_reqs b" "int n \<le> max_num_tokens b" and n: "n = length (concat (map (row_tokens batch) rids))"
  obtains b' where
    "put_rows slots batch 0 rids 0 ((input_buffers_clear b)\<lparr>bf_req_ids := rids, bf_num_reqs := int (length rids)\<rparr>) = (Inr n, b')"
    "rows_at slots batch rids b'" "max_num_reqs b' = max_num_reqs b" "max_num_tokens b' = max_num_tokens b"
    "bf_req_ids b' = rids" "bf_num_reqs b' = int (length rids)"
proof -
  let ?b0 = "(input_buffers_clear b)\<lparr>bf_req_ids := rids, bf_num_reqs := int (length rids)\<rparr>"
  have m: "max_num_reqs ?b0 = max_num_reqs b" "max_num_tokens ?b0 = max_num_tokens b"
    by (simp_all add: input_buffers_clear_def)
  show ?thesis
    using that put_rows_at [OF clear_rows_at [OF b], of slots batch rids "int (length rids)" rids] rows fit m n by auto
qed

lemma materialize_fits:
  assumes "buffers_ok b" "list_all (row_ok slots batch) (ib_req_ids batch)" "int (length (ib_req_ids batch)) \<le> max_num_reqs b"
    "int (length (concat (map (row_tokens batch) (ib_req_ids batch)))) \<le> max_num_tokens b"
  shows "fst (materialize batch slots b) = Inr ()"
proof -
  obtain b' where "put_rows slots batch 0 (ib_req_ids batch) 0 ((input_buffers_clear b)\<lparr>bf_req_ids := ib_req_ids batch,
      bf_num_reqs := int (length (ib_req_ids batch))\<rparr>) = (Inr (length (concat (map (row_tokens batch) (ib_req_ids batch)))), b')"
    by (rule put_rows_fit [OF assms refl])
  then show ?thesis using assms(3) by (simp add: materialize_def Let_def bind_st_def)
qed

text \<open>
  C14. The static buffers hold exactly the batch: for a batch that fits, whatever the buffers held before,
  \<open>materialize\<close> succeeds and the arrays are the concatenation of the requests' query tokens, of their absolute
  positions and of their slots, padded to the full length; a position is marked as padding exactly past the last
  token; the row offsets are the running sums of the row lengths, repeated to the end, and the sequence lengths are
  the query ends.
\<close>

theorem materialize_layout:
  assumes b: "buffers_ok b" and rows: "list_all (row_ok slots batch) rids" and rids: "rids = ib_req_ids batch"
    and fit: "int (length rids) \<le> max_num_reqs b" "int n \<le> max_num_tokens b" and n: "n = length (concat (map (row_tokens batch) rids))"
  shows "materialize batch slots b = (Inr (),
    \<lparr>max_num_reqs = max_num_reqs b, max_num_tokens = max_num_tokens b,
     bf_input_ids = flat (nat (max_num_tokens b)) 0 (row_tokens batch) rids,
     bf_positions = flat (nat (max_num_tokens b)) 0 (row_positions batch) rids,
     bf_query_start_loc = row_offsets batch 0 rids @ replicate (nat (max_num_reqs b + 1) - length rids) (int n),
     bf_seq_lens = map (row_end batch) rids @ replicate (nat (max_num_reqs b) - length rids) 0,
     bf_is_padding = replicate n False @ replicate (nat (max_num_tokens b) - n) True,
     bf_slot_mapping = flat (nat (max_num_tokens b)) (- 1) (row_slots slots batch) rids,
     bf_req_ids = rids, bf_num_reqs = int (length rids), bf_num_tokens = int n\<rparr>)"
proof -
  obtain b' where b': "put_rows slots batch 0 rids 0 ((input_buffers_clear b)\<lparr>bf_req_ids := rids, bf_num_reqs := int (length rids)\<rparr>) = (Inr n, b')"
    "rows_at slots batch rids b'" "max_num_reqs b' = max_num_reqs b" "max_num_tokens b' = max_num_tokens b" "bf_req_ids b' = rids"
    "bf_num_reqs b' = int (length rids)"
    by (rule put_rows_fit [OF b rows fit n])
  then have "length (concat (map (row_positions batch) rids)) = n" "length (concat (map (row_slots slots batch) rids)) = n"
    by (simp_all add: rows_at_def filled_def n)
  then show ?thesis
    using b' fit(1) by (simp add: materialize_def rids [symmetric] Let_def rows_at_def filled_def flat_def n [symmetric])
qed

definition demo_input :: input_batch where
  "demo_input = \<lparr>ib_req_ids = [''a'', ''b''], ib_num_scheduled_tokens = Map.empty, ib_num_computed_tokens = Map.empty,
     ib_token_ids = [''a'' \<mapsto> [5, 7, 9], ''b'' \<mapsto> [4]], ib_query_start = [''a'' \<mapsto> 1, ''b'' \<mapsto> 0],
     ib_query_end = [''a'' \<mapsto> 3, ''b'' \<mapsto> 1], ib_is_prompt_phase = Map.empty\<rparr>"

definition demo_buffers :: input_buffers where
  "demo_buffers = (case input_buffers_init 3 4 of Inr b \<Rightarrow> b)"

lemma demo_buffers_ok: "buffers_ok demo_buffers"
  by (simp add: demo_buffers_def input_buffers_init_def buffers_ok_def)

theorem materialize_layout_witness:
  "let b = snd (materialize demo_input [''b'' \<mapsto> [8]] demo_buffers) in
     bf_input_ids b = [7, 9, 4, 0] \<and> bf_positions b = [1, 2, 0, 0] \<and> bf_slot_mapping b = [1, 2, 8, - 1]
     \<and> bf_is_padding b = [False, False, False, True] \<and> bf_query_start_loc b = [0, 2, 3, 3] \<and> bf_seq_lens b = [3, 1, 0]"
proof -
  have rows: "list_all (row_ok [''b'' \<mapsto> [8]] demo_input) [''a'', ''b'']" by code_simp
  have toks: "concat (map (row_tokens demo_input) [''a'', ''b'']) = [7, 9, 4]" by code_simp
  have max: "max_num_reqs demo_buffers = 3" "max_num_tokens demo_buffers = 4" by code_simp+
  have "ib_req_ids demo_input = [''a'', ''b'']" by (simp add: demo_input_def)
  from materialize_layout [OF demo_buffers_ok rows this [symmetric], of 3] show ?thesis
    unfolding max toks by (simp add: flat_def row_positions_def row_slots_def row_start_def row_end_def row_tokens_def
        demo_input_def upto.simps Let_def numeral_2_eq_2 numeral_3_eq_3)
qed

end
