(* ===== verification/Sampling.thy ===== *)
theory Sampling
  imports Prelude "HOL-Library.Option_ord" "HOL-Library.Sublist"
begin

text \<open>
  Sampling (\<^verbatim>\<open>engine/sample\<close>): greedy choice, the grammar mask and the chained rejection of draft tokens.

  A logit is an optional element of a linear order: \<open>None\<close> is minus infinity and lies below every value. The
  not-a-number values of floats are left out.
\<close>

section \<open>Greedy choice\<close>

text \<open>The loop carries the index and value of the best logit so far, and the next index.\<close>

fun greedy_loop :: "nat \<Rightarrow> 'a::linorder \<Rightarrow> nat \<Rightarrow> 'a list \<Rightarrow> nat" where
  "greedy_loop best_i best_v i [] = best_i"
| "greedy_loop best_i best_v i (v # vs) =
    (if v > best_v then greedy_loop i v (Suc i) vs else greedy_loop best_i best_v (Suc i) vs)"

definition greedy_sample :: "'a::linorder list \<Rightarrow> py_exn + nat" where
  "greedy_sample logits = (case logits of [] \<Rightarrow> Inl IndexError | v # vs \<Rightarrow> Inr (greedy_loop 0 v 0 logits))"

section \<open>Grammar mask\<close>

definition apply_token_bitmask :: "'a option list \<Rightarrow> bool list \<Rightarrow> py_exn + 'a option list" where
  "apply_token_bitmask logits bitmask =
     (if length logits \<noteq> length bitmask then Inl ValueError
      else if \<not> list_ex id bitmask then Inl ValueError
      else Inr (map (\<lambda>(v, allowed). if allowed then v else None) (zip logits bitmask)))"

section \<open>Rejection of a draft\<close>

fun reject_loop :: "(int list \<Rightarrow> int) \<Rightarrow> int list \<Rightarrow> int list \<Rightarrow> int list" where
  "reject_loop target_greedy ctx [] = [target_greedy ctx]"
| "reject_loop target_greedy ctx (d # ds) =
    (let t = target_greedy ctx in if t \<noteq> d then [t] else d # reject_loop target_greedy (ctx @ [d]) ds)"

definition chain_reject_sample :: "int list \<Rightarrow> int list \<Rightarrow> (int list \<Rightarrow> int) \<Rightarrow> int list" where
  "chain_reject_sample ctx draft_tokens target_greedy = reject_loop target_greedy ctx draft_tokens"

text \<open>The reference: the target model decoding alone, one token at a time.\<close>

fun target_decode :: "(int list \<Rightarrow> int) \<Rightarrow> int list \<Rightarrow> nat \<Rightarrow> int list" where
  "target_decode target_greedy ctx 0 = []"
| "target_decode target_greedy ctx (Suc n) =
    (let t = target_greedy ctx in t # target_decode target_greedy (ctx @ [t]) n)"

section \<open>The greedy choice is the first maximum\<close>

text \<open>\<open>first_max vs k\<close>: no value is above the one at \<open>k\<close>, and every earlier one is below it.\<close>

definition first_max :: "'a::linorder list \<Rightarrow> nat \<Rightarrow> bool" where
  "first_max vs k \<longleftrightarrow> k < length vs \<and> list_all (\<lambda>v. v \<le> vs ! k) vs \<and> list_all (\<lambda>v. v < vs ! k) (take k vs)"

lemma first_max_snoc:
  assumes "first_max vs k"
  shows "first_max (vs @ [v]) (if v > vs ! k then length vs else k)"
proof (cases "v > vs ! k")
  case True
  have "list_all (\<lambda>x. x < v) vs"
    using assms True by (auto simp: first_max_def list_all_iff intro: le_less_trans)
  then show ?thesis
    using True by (auto simp: first_max_def list_all_iff nth_append intro: less_imp_le)
next
  case False
  then show ?thesis
    using assms by (auto simp: first_max_def list_all_iff nth_append take_append)
qed

lemma greedy_loop_first_max:
  assumes "first_max seen k"
  shows "first_max (seen @ vs) (greedy_loop k (seen ! k) (length seen) vs)"
  using assms
proof (induction vs arbitrary: seen k)
  case Nil
  then show ?case by simp
next
  case (Cons v vs)
  have k: "k < length seen" using Cons.prems by (simp add: first_max_def)
  show ?case
    using Cons.IH [OF first_max_snoc [OF Cons.prems, of v]] k by (simp add: nth_append split: if_splits)
qed

lemma greedy_sample_first_max: "vs \<noteq> [] \<Longrightarrow> \<exists>k. greedy_sample vs = Inr k \<and> first_max vs k"
proof -
  assume "vs \<noteq> []"
  then obtain v ws where vs: "vs = v # ws" by (cases vs) auto
  have "first_max [v] 0" by (simp add: first_max_def)
  from greedy_loop_first_max [OF this, of ws] show ?thesis by (simp add: greedy_sample_def vs)
qed

lemma masked_logits:
  assumes "apply_token_bitmask logits bitmask = Inr masked"
  shows "length bitmask = length logits" and "length masked = length logits" and "masked \<noteq> []"
    and "i < length logits \<Longrightarrow> masked ! i = (if bitmask ! i then logits ! i else None)"
  using assms by (auto simp: apply_token_bitmask_def list_ex_iff split: if_splits)

text \<open>
  Greedy choice under a grammar mask: when some allowed logit is above minus infinity, the token
  \<open>greedy_sample\<close> picks from the masked logits is allowed, its logit is at least that of every allowed token, and
  it is the first such token.
\<close>

theorem constrained_choice:
  assumes masked: "apply_token_bitmask logits bitmask = Inr masked"
    and live: "i < length logits" "bitmask ! i" "logits ! i \<noteq> None"
  shows "\<exists>k. greedy_sample masked = Inr k \<and> k < length logits \<and> bitmask ! k
    \<and> (\<forall>j < length logits. bitmask ! j \<longrightarrow> logits ! j \<le> logits ! k \<and> (j < k \<longrightarrow> logits ! j < logits ! k))"
proof -
  note m = masked_logits [OF masked]
  obtain k where k: "greedy_sample masked = Inr k" "first_max masked k"
    using greedy_sample_first_max m(3) by blast
  have len: "k < length logits" using k(2) m(2) by (simp add: first_max_def)
  have le: "masked ! j \<le> masked ! k" if "j < length logits" for j
    using k(2) that m(2) by (simp add: first_max_def list_all_length)
  have lt: "masked ! j < masked ! k" if "j < k" for j
    using k(2) that by (simp add: first_max_def list_all_length)
  have "masked ! k \<noteq> None" using le [OF live(1)] live m(4) [OF live(1)] by (cases "masked ! k") auto
  then have bk: "bitmask ! k" using m(4) [OF len] by (auto split: if_splits)
  have "logits ! j \<le> logits ! k \<and> (j < k \<longrightarrow> logits ! j < logits ! k)" if "j < length logits" "bitmask ! j" for j
    using le [OF that(1)] lt [of j] that m(4) [OF len] m(4) [OF that(1)] bk by simp
  with k(1) len bk show ?thesis by blast
qed

theorem constrained_choice_witness:
  "apply_token_bitmask [Some (7::int), Some 3, Some 5, Some 5] [False, True, True, True] = Inr [None, Some 3, Some 5, Some 5]
   \<and> greedy_sample [None, Some (3::int), Some 5, Some 5] = Inr 2
   \<and> (\<exists>k. greedy_sample [None, Some (3::int), Some 5, Some 5] = Inr k \<and> [False, True, True, True] ! k)"
  using constrained_choice [of "[Some (7::int), Some 3, Some 5, Some 5]" "[False, True, True, True]" _ 1]
  by (auto simp: apply_token_bitmask_def greedy_sample_def)

section \<open>A draft never changes what the target decodes\<close>

lemma target_decode_length [simp]: "length (target_decode t ctx n) = n"
  by (induction n arbitrary: ctx) (simp_all add: Let_def)

text \<open>
  C8. Speculative decoding is exact: whatever tokens the draft proposes, \<open>chain_reject_sample\<close> returns precisely
  the tokens the target model decodes alone. Their number is one more than the number of leading draft tokens on
  which draft and target agree.
\<close>

theorem speculation_is_exact:
  "chain_reject_sample ctx draft t =
     target_decode t ctx (Suc (length (longest_common_prefix draft (target_decode t ctx (length draft)))))"
  unfolding chain_reject_sample_def by (induction draft arbitrary: ctx) (simp_all add: Let_def)

lemma chain_reject_length:
  "1 \<le> length (chain_reject_sample ctx draft t) \<and> length (chain_reject_sample ctx draft t) \<le> length draft + 1"
  unfolding chain_reject_sample_def by (induction draft arbitrary: ctx) (simp_all add: Let_def)

end
