(* ===== verification/Model_Runner.thy ===== *)
theory Model_Runner
  imports Node_Scheduler Input_Batch Sampling Py_Text
begin

text \<open>
  The model runner (\<^verbatim>\<open>engine/model_runner.py\<close>) with the attention metadata it builds
  (\<^verbatim>\<open>attention_metadata.py\<close>) and the registry and loaders it gets its model from (\<^verbatim>\<open>models/registry.py\<close>,
  \<^verbatim>\<open>models/loader.py\<close>). It is the executor of the worker: it turns a scheduled step into an input batch, writes the
  static buffers, and samples one token per decoding request from the placeholder model.

  Parameters are what lies outside the repository: reading a configuration from a path, importing a class, and the
  constructor of a network, of which only the parameter names are used. A logit is 0 or 1.
  \<^verbatim>\<open>NotImplementedError\<close> is its base class \<open>RuntimeError\<close>.
\<close>

section \<open>Attention metadata\<close>

record attn_metadata =
  am_seq_lens :: "(string, int) dict"
  am_query_start :: "string \<rightharpoonup> int"
  am_query_end :: "string \<rightharpoonup> int"
  am_block_tables :: "string \<rightharpoonup> int list"
  am_block_table_tensor :: "int list list"
  am_slot_mapping :: "int list"
  am_positions :: "int list"
  am_query_start_loc :: "int list"
  am_max_seq_len :: int
  am_max_query_len :: int
  am_num_reqs :: int
  am_num_actual_tokens :: int

text \<open>The accumulators of the loop over the requests.\<close>

record attn_acc =
  ac_qsl :: "int list"
  ac_max_seq :: int
  ac_max_q :: int
  ac_slots :: "int list"
  ac_positions :: "int list"

definition attn_row ::
  "(string, int) dict \<Rightarrow> (string \<rightharpoonup> int) \<Rightarrow> (string \<rightharpoonup> int) \<Rightarrow> bool \<Rightarrow> (string \<rightharpoonup> int list)
    \<Rightarrow> string \<Rightarrow> attn_acc \<Rightarrow> py_exn + attn_acc" where
  "attn_row seq_lens query_start query_end buffered slots rid a =
    (let qs = get0 query_start rid;
         qe = (case query_end rid of None \<Rightarrow> qs | Some e \<Rightarrow> e);
         q_len = max 0 (qe - qs);
         a1 = a\<lparr>ac_qsl := ac_qsl a @ [last (ac_qsl a) + q_len],
                ac_max_seq := max (ac_max_seq a) (dict_get seq_lens rid 0), ac_max_q := max (ac_max_q a) q_len\<rparr> in
     if buffered then Inr a1
     else if (case slots rid of None \<Rightarrow> False | Some ss \<Rightarrow> py_len ss \<noteq> q_len) then Inl ValueError
     else Inr (a1\<lparr>ac_slots := ac_slots a @ (case slots rid of None \<Rightarrow> [qs .. qe - 1] | Some ss \<Rightarrow> ss),
                  ac_positions := ac_positions a @ [qs .. qe - 1]\<rparr>))"

fun attn_rows ::
  "(string, int) dict \<Rightarrow> (string \<rightharpoonup> int) \<Rightarrow> (string \<rightharpoonup> int) \<Rightarrow> bool \<Rightarrow> (string \<rightharpoonup> int list)
    \<Rightarrow> string list \<Rightarrow> attn_acc \<Rightarrow> py_exn + attn_acc" where
  "attn_rows seq_lens query_start query_end buffered slots [] a = Inr a"
| "attn_rows seq_lens query_start query_end buffered slots (rid # rids) a =
    bind_res (attn_row seq_lens query_start query_end buffered slots rid a)
      (attn_rows seq_lens query_start query_end buffered slots rids)"

definition build_attn_metadata ::
  "(string, int) dict \<Rightarrow> (string \<rightharpoonup> int) \<Rightarrow> (string \<rightharpoonup> int) \<Rightarrow> (string \<rightharpoonup> int list) \<Rightarrow> input_buffers option
    \<Rightarrow> (string \<rightharpoonup> int list) \<Rightarrow> string list \<Rightarrow> py_exn + attn_metadata" where
  "build_attn_metadata seq_lens query_start query_end tables buffers slots req_order =
    (let order = (if req_order = [] then dict_keys seq_lens else req_order) in
     bind_res (attn_rows seq_lens query_start query_end (buffers \<noteq> None) slots order
         \<lparr>ac_qsl = [0], ac_max_seq = 0, ac_max_q = 0, ac_slots = [], ac_positions = []\<rparr>) (\<lambda>a.
     (let (sl, ps, qsl) = (case buffers of
            None \<Rightarrow> (ac_slots a, ac_positions a, ac_qsl a)
          | Some b \<Rightarrow> (py_take (bf_num_tokens b) (bf_slot_mapping b), py_take (bf_num_tokens b) (bf_positions b),
                       py_take (bf_num_reqs b + 1) (bf_query_start_loc b))) in
      Inr \<lparr>am_seq_lens = seq_lens, am_query_start = query_start, am_query_end = query_end, am_block_tables = tables,
        am_block_table_tensor = map (get_list tables) order, am_slot_mapping = sl, am_positions = ps,
        am_query_start_loc = qsl, am_max_seq_len = ac_max_seq a, am_max_query_len = ac_max_q a,
        am_num_reqs = py_len order, am_num_actual_tokens = (if qsl = [] then 0 else last qsl)\<rparr>)))"

section \<open>Registry and loaders\<close>

record model_config =
  vocab_size :: int
  bos_token_id :: "int option"
  num_hidden_layers :: int
  architectures :: "string list"

text \<open>A class is its constructor: it raises, or gives the names of the network's parameters.\<close>

type_synonym model_cls = "model_config \<Rightarrow> py_exn + string list"

datatype registered_model = RegisteredModel model_cls | LazyRegisteredModel string string

datatype model_ref = ByClass model_cls | ByName string

record load_env =
  le_path_exists :: "string \<Rightarrow> bool"
  le_from_pretrained :: "string \<Rightarrow> string option \<Rightarrow> py_exn + model_config"
  le_import :: "string \<Rightarrow> string \<Rightarrow> py_exn + model_cls"

definition load_model_cls :: "load_env \<Rightarrow> registered_model \<Rightarrow> py_exn + model_cls" where
  "load_model_cls le m = (case m of RegisteredModel c \<Rightarrow> Inr c | LazyRegisteredModel md cl \<Rightarrow> le_import le md cl)"

definition register_model ::
  "string \<Rightarrow> model_ref \<Rightarrow> (string, registered_model) dict \<Rightarrow> py_exn + (string, registered_model) dict" where
  "register_model arch ref reg =
    (if arch = [] then Inl TypeError
     else (case ref of
        ByName s \<Rightarrow> (case py_partition (CHR '':'') s of
            (_, None) \<Rightarrow> Inl ValueError
          | (md, Some cl) \<Rightarrow> if md = [] \<or> cl = [] then Inl ValueError
              else Inr (dict_set arch (LazyRegisteredModel md cl) reg))
      | ByClass c \<Rightarrow> Inr (dict_set arch (RegisteredModel c) reg)))"

definition model_registry :: "(string, registered_model) dict" where
  "model_registry = (case register_model ''Qwen3ForCausalLM''
       (ByName ''lake.engine.model_executor.models.qwen.qwen3:Qwen3ForCausalLM'') [] of
     Inl e \<Rightarrow> [] | Inr reg \<Rightarrow> reg)"

fun resolve_model_cls ::
  "load_env \<Rightarrow> (string, registered_model) dict \<Rightarrow> string list \<Rightarrow> py_exn + model_cls \<times> string" where
  "resolve_model_cls le reg [] = Inl RuntimeError"
| "resolve_model_cls le reg (arch # archs) = (case map_of reg arch of
     None \<Rightarrow> resolve_model_cls le reg archs
   | Some m \<Rightarrow> bind_res (load_model_cls le m) (\<lambda>c. Inr (c, arch)))"

definition load_hf_config :: "load_env \<Rightarrow> string \<Rightarrow> string \<Rightarrow> py_exn + model_config" where
  "load_hf_config le path revision =
     le_from_pretrained le path (if revision \<noteq> [] \<and> \<not> le_path_exists le path then Some revision else None)"

record net =
  net_config :: model_config
  net_state_dict :: "string list"
  loaded_weights :: "string set"
  loaded_dummy_weights :: bool

datatype model_loader = DummyModelLoader | DefaultModelLoader string string

definition get_model_loader :: "string \<Rightarrow> string \<Rightarrow> string \<Rightarrow> py_exn + model_loader" where
  "get_model_loader load_format path revision =
    (if load_format = ''dummy'' then Inr DummyModelLoader
     else if load_format = ''hf'' then Inr (DefaultModelLoader path revision)
     else Inl ValueError)"

definition load_weights :: "model_loader \<Rightarrow> net \<Rightarrow> py_exn + net" where
  "load_weights l m = (case l of
     DummyModelLoader \<Rightarrow> Inr (m\<lparr>loaded_weights := set (net_state_dict m), loaded_dummy_weights := True\<rparr>)
   | DefaultModelLoader path revision \<Rightarrow> Inl RuntimeError)"

definition loader_load_model :: "model_loader \<Rightarrow> model_cls \<Rightarrow> model_config \<Rightarrow> py_exn + net" where
  "loader_load_model l c cfg =
    bind_res (c cfg) (\<lambda>names. load_weights l
      \<lparr>net_config = cfg, net_state_dict = names, loaded_weights = {}, loaded_dummy_weights = False\<rparr>)"

record loaded_model =
  lm_model_path :: string
  lm_revision :: string
  lm_backend :: string
  lm_load_format :: string
  lm_config :: model_config
  lm_model :: net
  lm_load_dummy_weights :: bool

definition load_registered_model ::
  "load_env \<Rightarrow> string \<Rightarrow> string \<Rightarrow> string \<Rightarrow> string \<Rightarrow> model_config option \<Rightarrow> py_exn + loaded_model" where
  "load_registered_model le backend path revision load_format override =
    bind_res (case override of Some c \<Rightarrow> Inr c | None \<Rightarrow> load_hf_config le path revision) (\<lambda>cfg.
    bind_res (resolve_model_cls le model_registry (architectures cfg)) (\<lambda>(c, arch).
    bind_res (get_model_loader load_format path revision) (\<lambda>l.
    bind_res (loader_load_model l c cfg) (\<lambda>m.
      Inr \<lparr>lm_model_path = path, lm_revision = revision, lm_backend = backend, lm_load_format = load_format,
           lm_config = cfg, lm_model = m, lm_load_dummy_weights = (load_format = ''dummy'')\<rparr>))))"

section \<open>The runner\<close>

record model_load_info =
  li_model_path :: string
  li_served_model_name :: string
  li_revision :: string
  li_backend :: string
  li_load_format :: string
  li_load_dummy_weights :: bool
  li_weight_pinned :: bool

record model_runner_status =
  rs_model_path :: string
  rs_served_model_name :: string
  rs_revision :: string
  rs_backend :: string
  rs_loaded :: bool
  rs_warmed :: bool

text \<open>The pin callback may raise; its effect outside the runner is not part of the state.\<close>

record model_runner =
  mr_input_batch :: input_batch
  mr_input_buffers :: input_buffers
  mr_attn_meta :: "attn_metadata option"
  mr_backend :: string
  mr_config_override :: "model_config option"
  mr_model :: "net option"
  mr_pin_callback :: "(model_load_info \<Rightarrow> py_exn + unit) option"
  mr_model_path :: string
  mr_served_model_name :: string
  mr_model_revision :: string
  mr_model_loaded :: bool
  mr_model_warmed :: bool

definition empty_batch :: input_batch where
  "empty_batch = \<lparr>ib_req_ids = [], ib_num_scheduled_tokens = Map.empty, ib_num_computed_tokens = Map.empty,
     ib_token_ids = Map.empty, ib_query_start = Map.empty, ib_query_end = Map.empty, ib_is_prompt_phase = Map.empty\<rparr>"

definition runner_init ::
  "string \<Rightarrow> model_config option \<Rightarrow> (model_load_info \<Rightarrow> py_exn + unit) option \<Rightarrow> py_exn + model_runner" where
  "runner_init backend config pin =
    bind_res (input_buffers_init 64 8192) (\<lambda>b.
      Inr \<lparr>mr_input_batch = empty_batch, mr_input_buffers = b, mr_attn_meta = None, mr_backend = backend,
           mr_config_override = config, mr_model = None, mr_pin_callback = pin, mr_model_path = [],
           mr_served_model_name = ''model'', mr_model_revision = [], mr_model_loaded = False, mr_model_warmed = False\<rparr>)"

definition runner_status :: "model_runner \<Rightarrow> model_runner_status" where
  "runner_status r = \<lparr>rs_model_path = mr_model_path r, rs_served_model_name = mr_served_model_name r,
     rs_revision = mr_model_revision r, rs_backend = mr_backend r, rs_loaded = mr_model_loaded r,
     rs_warmed = mr_model_warmed r\<rparr>"

text \<open>The assignments shared by the two branches of \<^verbatim>\<open>load_model\<close>.\<close>

definition set_model :: "net option \<Rightarrow> string \<Rightarrow> string \<Rightarrow> string \<Rightarrow> model_runner \<Rightarrow> model_runner" where
  "set_model m path name revision r = r\<lparr>mr_model := m, mr_model_path := path,
     mr_served_model_name := (if name = [] then ''model'' else name), mr_model_revision := revision,
     mr_model_loaded := True, mr_model_warmed := False\<rparr>"

definition load_info_of :: "model_runner \<Rightarrow> string \<Rightarrow> bool \<Rightarrow> bool \<Rightarrow> model_load_info" where
  "load_info_of r load_format dummy pinned = \<lparr>li_model_path = mr_model_path r,
     li_served_model_name = mr_served_model_name r, li_revision = mr_model_revision r, li_backend = mr_backend r,
     li_load_format = load_format, li_load_dummy_weights = dummy, li_weight_pinned = pinned\<rparr>"

definition load_model ::
  "load_env \<Rightarrow> string \<Rightarrow> string \<Rightarrow> string \<Rightarrow> string \<Rightarrow> bool \<Rightarrow> bool \<Rightarrow> model_runner
    \<Rightarrow> (py_exn + model_load_info) \<times> model_runner" where
  "load_model le path name revision load_format load_dummy pin r =
    (if mr_backend r = ''mock'' then
       (let r1 = set_model None path name revision r in (Inr (load_info_of r1 load_format load_dummy pin), r1))
     else
       (case load_registered_model le (mr_backend r) path revision load_format (mr_config_override r) of
          Inl e \<Rightarrow> (Inl e, r)
        | Inr lm \<Rightarrow>
            (let r1 = set_model (Some (lm_model lm)) (lm_model_path lm) name (lm_revision lm) r;
                 info = load_info_of r1 (lm_load_format lm) (load_dummy \<or> lm_load_dummy_weights lm) pin in
             case mr_pin_callback r1 of
               None \<Rightarrow> (Inr info, r1)
             | Some f \<Rightarrow> (if pin then bind_res (f info) (\<lambda>_. Inr info) else Inr info, r1))))"

section \<open>One step\<close>

text \<open>The row of one request: a chunk of its prompt, or its whole text followed by drafts and padding. The result is
  the tokens, the query range and whether it is part of the prompt.\<close>

definition row_of :: "scheduler_output \<Rightarrow> string \<Rightarrow> int \<Rightarrow> req \<Rightarrow> int list \<times> int \<times> int \<times> bool" where
  "row_of out rid n r =
    (let prompt_len = py_len (prompt_token_ids r);
         computed = dict_get (req_num_computed_at_schedule out) rid (num_computed_tokens r) in
     if computed < prompt_len then
       (let qs = (case map_of (req_query_start out) rid of None \<Rightarrow> computed | Some q \<Rightarrow> q);
            qe = min prompt_len (case map_of (req_query_end out) rid of None \<Rightarrow> computed + n | Some q \<Rightarrow> q) in
        (py_take qe (prompt_token_ids r), qs, qe, True))
     else
       (let ctx = all_token_ids r;
            drafts = (case scheduled_spec_decode_tokens out of None \<Rightarrow> [] | Some d \<Rightarrow> get_list (map_of d) rid);
            toks = ctx @ py_take (max 0 (n - 1)) drafts;
            qs = (case map_of (req_query_start out) rid of None \<Rightarrow> max 0 (py_len ctx - 1) | Some q \<Rightarrow> q);
            qe = (case map_of (req_query_end out) rid of None \<Rightarrow> max qs (qs + n) | Some q \<Rightarrow> q);
            pad = (if toks = [] then 0 else last toks);
            padded = toks @ replicate (nat (qe - py_len toks)) pad in
        (py_take qe padded, qs, qe, False)))"

definition batch_row :: "scheduler_output \<Rightarrow> (string \<rightharpoonup> req) \<Rightarrow> string \<times> int \<Rightarrow> input_batch \<Rightarrow> input_batch" where
  "batch_row out host e b =
    (let (rid, n) = e in
     if n \<le> 0 then b
     else (case host rid of
        None \<Rightarrow> b
      | Some r \<Rightarrow>
          (let computed = dict_get (req_num_computed_at_schedule out) rid (num_computed_tokens r);
               (toks, qs, qe, prompt) = row_of out rid n r in
           b\<lparr>ib_req_ids := ib_req_ids b @ [rid],
             ib_num_scheduled_tokens := (ib_num_scheduled_tokens b)(rid \<mapsto> n),
             ib_num_computed_tokens := (ib_num_computed_tokens b)(rid \<mapsto> computed),
             ib_token_ids := (ib_token_ids b)(rid \<mapsto> toks), ib_query_start := (ib_query_start b)(rid \<mapsto> qs),
             ib_query_end := (ib_query_end b)(rid \<mapsto> qe), ib_is_prompt_phase := (ib_is_prompt_phase b)(rid \<mapsto> prompt)\<rparr>)))"

definition build_batch :: "scheduler_output \<Rightarrow> (string \<rightharpoonup> req) \<Rightarrow> input_batch" where
  "build_batch out host = fold (batch_row out host) (num_scheduled_tokens out) empty_batch"

definition prepare_inputs ::
  "scheduler_output \<Rightarrow> (string \<rightharpoonup> req) \<Rightarrow> model_runner \<Rightarrow> (py_exn + input_batch) \<times> model_runner" where
  "prepare_inputs out host r = (let b = build_batch out host in (Inr b, r\<lparr>mr_input_batch := b\<rparr>))"

text \<open>Writes the static buffers; a raise there leaves them half written.\<close>

definition prepare_attn ::
  "input_batch \<Rightarrow> ready_handle \<Rightarrow> model_runner \<Rightarrow> (py_exn + attn_metadata) \<times> model_runner" where
  "prepare_attn batch ready r =
    (case map_res (\<lambda>rid. case ib_query_end batch rid of None \<Rightarrow> Inl KeyError | Some e \<Rightarrow> Inr (rid, e)) (ib_req_ids batch) of
       Inl e \<Rightarrow> (Inl e, r)
     | Inr ends \<Rightarrow>
         (let (x, b) = materialize batch (slot_mapping_by_req ready) (mr_input_buffers r);
              r1 = r\<lparr>mr_input_buffers := b\<rparr> in
          case x of
            Inl e \<Rightarrow> (Inl e, r1)
          | Inr _ \<Rightarrow>
              (case build_attn_metadata (dict_update [] ends) (ib_query_start batch) (ib_query_end batch)
                  (block_table_by_req ready) (Some b) Map.empty (ib_req_ids batch) of
                 Inl e \<Rightarrow> (Inl e, r1)
               | Inr m \<Rightarrow> (Inr m, r1\<lparr>mr_attn_meta := Some m\<rparr>))))"

definition dummy_model_token :: "model_config \<Rightarrow> int list \<Rightarrow> py_exn + int" where
  "dummy_model_token cfg context =
    bind_res (if context \<noteq> [] then Inr (last context)
       else (case bos_token_id cfg of None \<Rightarrow> Inl TypeError | Some b \<Rightarrow> Inr b)) (\<lambda>seed.
     if vocab_size cfg = 0 then Inl ZeroDivisionError
     else Inr ((seed + py_len context + num_hidden_layers cfg) mod vocab_size cfg))"

text \<open>The index is within the list whenever the list is not empty.\<close>

definition dummy_model_logits :: "model_config \<Rightarrow> int list \<Rightarrow> py_exn + int option list" where
  "dummy_model_logits cfg context =
    bind_res (dummy_model_token cfg context) (\<lambda>t.
      if 0 \<le> t \<and> t < vocab_size cfg then Inr ((replicate (nat (vocab_size cfg)) (Some 0))[nat t := Some 1])
      else Inl IndexError)"

fun sample_loop ::
  "(string \<rightharpoonup> req) \<Rightarrow> string set \<Rightarrow> (string, bool list) dict \<Rightarrow> (string, int option list) dict
    \<Rightarrow> (string \<rightharpoonup> int list) \<Rightarrow> py_exn + (string \<rightharpoonup> int list)" where
  "sample_loop host deferred masks [] toks = Inr toks"
| "sample_loop host deferred masks ((rid, logits) # rest) toks =
    (if rid \<in> deferred \<or> host rid = None then sample_loop host deferred masks rest toks
     else
       bind_res (case map_of masks rid of None \<Rightarrow> Inr logits | Some m \<Rightarrow> apply_token_bitmask logits m) (\<lambda>masked.
       bind_res (greedy_sample masked) (\<lambda>t.
         sample_loop host deferred masks rest (toks(rid \<mapsto> [int t])))))"

definition sample_tokens ::
  "scheduler_output \<Rightarrow> (string \<rightharpoonup> req) \<Rightarrow> (string, int option list) dict
    \<Rightarrow> py_exn + (string \<rightharpoonup> int list) \<times> (string \<rightharpoonup> int list)" where
  "sample_tokens out host last_logits =
    (if (case scheduled_spec_decode_tokens out of None \<Rightarrow> False | Some d \<Rightarrow> d \<noteq> []) then Inl RuntimeError
     else
       (let deferred = (case grammar_out out of None \<Rightarrow> {} | Some g \<Rightarrow> set (deferred_req_ids g));
            masks = (case grammar_out out of None \<Rightarrow> [] | Some g \<Rightarrow> token_bitmask_by_req g) in
        bind_res (sample_loop host deferred masks last_logits Map.empty) (\<lambda>toks. Inr (toks, Map.empty))))"

definition decoding :: "(string \<rightharpoonup> req) \<Rightarrow> input_batch \<Rightarrow> string \<Rightarrow> bool" where
  "decoding host batch rid \<longleftrightarrow> ib_is_prompt_phase batch rid \<noteq> Some True \<and> host rid \<noteq> None"

definition forward_model ::
  "net option \<Rightarrow> scheduler_output \<Rightarrow> (string \<rightharpoonup> req) \<Rightarrow> input_batch
    \<Rightarrow> py_exn + (string \<rightharpoonup> int list) \<times> (string \<rightharpoonup> int list)" where
  "forward_model model out host batch = (case model of
     None \<Rightarrow> Inl AssertionError
   | Some m \<Rightarrow>
       bind_res (map_res (\<lambda>rid. bind_res (dummy_model_logits (net_config m) (all_token_ids (the (host rid))))
           (\<lambda>l. Inr (rid, l))) (filter (decoding host batch) (ib_req_ids batch)))
         (\<lambda>ls. sample_tokens out host (dict_update [] ls)))"

text \<open>The other backends answer one placeholder token per decoding request.\<close>

definition placeholder_tokens :: "scheduler_output \<Rightarrow> (string \<rightharpoonup> req) \<Rightarrow> input_batch \<Rightarrow> string \<rightharpoonup> int list" where
  "placeholder_tokens out host batch =
    fold (\<lambda>(rid, n) toks. if n \<le> 0 \<or> \<not> decoding host batch rid then toks else toks(rid \<mapsto> [0]))
      (num_scheduled_tokens out) Map.empty"

definition execute_prepared ::
  "scheduler_output \<Rightarrow> ready_handle \<Rightarrow> (string \<rightharpoonup> req) \<Rightarrow> model_runner
    \<Rightarrow> (py_exn + model_runner_output) \<times> model_runner" where
  "execute_prepared out ready host r =
    bind_st (prepare_inputs out host r) (\<lambda>batch r1.
    bind_st (prepare_attn batch ready r1) (\<lambda>_ r2.
      (bind_res (if mr_backend r2 = ''qwen3'' then forward_model (mr_model r2) out host batch
                 else Inr (placeholder_tokens out host batch, Map.empty)) (\<lambda>(toks, drafts).
         Inr \<lparr>mro_step_id = step_id out, next_token_ids = toks, next_draft_tokens = drafts,
              mro_model_backend = mr_backend r2\<rparr>), r2)))"

definition execute_model ::
  "scheduler_output \<Rightarrow> ready_handle \<Rightarrow> (string \<rightharpoonup> req) \<Rightarrow> model_runner
    \<Rightarrow> (py_exn + model_runner_output) \<times> model_runner" where
  "execute_model out ready host r =
    (if rh_step_id ready \<noteq> step_id out then (Inl RuntimeError, r) else execute_prepared out ready host r)"

section \<open>Warm-up\<close>

definition dummy_id :: "int \<Rightarrow> string" where
  "dummy_id i = ''dummy-'' @ show_int i"

definition dummy_req :: "string \<Rightarrow> int \<Rightarrow> string \<Rightarrow> req" where
  "dummy_req name toks rid = \<lparr>req_id = rid, served_model_name = name, prompt_token_ids = [0 .. toks - 1],
     req_sampling = \<lparr>max_new_tokens = 1, temperature = (1, 0), structured_output = None\<rparr>, node_id = ''worker-0'',
     num_computed_tokens = 0, output_token_ids = [], reused_blocks = 0, prefill_blocks = 0, finished = False,
     finish_reason = None, req_exec_mode = COLOCATED\<rparr>"

definition dummy_output :: "int \<Rightarrow> int \<Rightarrow> string list \<Rightarrow> scheduler_output" where
  "dummy_output sid toks rids = (mk_scheduler_output sid DECODE)\<lparr>
     num_scheduled_tokens := map (\<lambda>rid. (rid, 1)) rids, total_num_scheduled_tokens := py_len rids,
     req_forward_modes := map (\<lambda>rid. (rid, DECODE)) rids,
     req_num_computed_at_schedule := map (\<lambda>rid. (rid, toks)) rids,
     req_query_start := map (\<lambda>rid. (rid, max 0 (toks - 1))) rids, req_query_end := map (\<lambda>rid. (rid, toks)) rids,
     can_run_graph := Some True\<rparr>"

definition dummy_ready :: "int \<Rightarrow> int \<Rightarrow> string list \<Rightarrow> ready_handle" where
  "dummy_ready sid toks rids = \<lparr>rh_step_id = sid, stats_by_req = [], effective_read_set = None,
     effective_write_set = None,
     block_table_by_req = map_of (map (\<lambda>rid. (rid, [0 .. (toks + 7) div 8 - 1])) rids),
     slot_mapping_by_req = map_of (map (\<lambda>rid. (rid, [max 0 (toks - 1)])) rids)\<rparr>"

definition dummy_run :: "int \<Rightarrow> int \<Rightarrow> int \<Rightarrow> model_runner \<Rightarrow> (py_exn + model_runner_output) \<times> model_runner" where
  "dummy_run num_reqs tokens_per_req sid r =
    (if \<not> mr_model_loaded r then (Inl ValueError, r)
     else
       (let toks = max 1 tokens_per_req; rids = map dummy_id [0 .. max 1 num_reqs - 1] in
        execute_prepared (dummy_output sid toks rids) (dummy_ready sid toks rids)
          (map_of (map (\<lambda>rid. (rid, dummy_req (mr_served_model_name r) toks rid)) rids)) r))"

definition warmup :: "load_env \<Rightarrow> int \<Rightarrow> int \<Rightarrow> model_runner \<Rightarrow> (py_exn + model_runner_output) \<times> model_runner" where
  "warmup le num_reqs tokens_per_req r =
    bind_st (if mr_model_loaded r then (Inr (), r)
       else bind_st (load_model le (mr_model_path r) (mr_served_model_name r) [] ''dummy'' False True r) (\<lambda>_ r1. (Inr (), r1)))
      (\<lambda>_ r1. bind_st (dummy_run num_reqs tokens_per_req (- 1) r1) (\<lambda>out r2. (Inr out, r2\<lparr>mr_model_warmed := True\<rparr>)))"

end
