(* ===== verification/Model_Runner_Laws.thy ===== *)
theory Model_Runner_Laws
  imports Model_Runner Node_Theorems Node_Frame
begin

text \<open>
  What the model runner does as the executor of the scheduler: its answer depends on nothing an earlier step left in
  it, the steps the scheduler composes always fit its buffers, and in the normal loop every request is decoded
  greedily, token by token, from its own text.
\<close>

section \<open>A step does not depend on earlier steps\<close>

text \<open>Buffers of the same size.\<close>

definition same_size :: "input_buffers \<Rightarrow> input_buffers \<Rightarrow> bool" where
  "same_size b b' \<longleftrightarrow> max_num_reqs b' = max_num_reqs b \<and> max_num_tokens b' = max_num_tokens b
     \<and> (buffers_ok b \<longrightarrow> buffers_ok b')"

lemma same_size_refl [simp]: "same_size b b"
  by (simp add: same_size_def)

lemma same_size_trans: "same_size a b \<Longrightarrow> same_size b c \<Longrightarrow> same_size a c"
  by (simp add: same_size_def)

lemma put_token_size: "same_size b (snd (put_token slots qs cursor j t b))"
  by (auto simp: put_token_def same_size_def buffers_ok_def Let_def split: option.splits)

lemma bind_st_size:
  "same_size b (snd m) \<Longrightarrow> (\<And>x b'. same_size b' (snd (f x b'))) \<Longrightarrow> same_size b (snd (bind_st m f))"
  by (cases m; cases "fst m") (auto simp: bind_st_def intro: same_size_trans)

lemma put_tokens_size: "same_size b (snd (put_tokens slots qs cursor j ts b))"
  by (induction slots qs cursor j ts b rule: put_tokens.induct) (auto intro: bind_st_size put_token_size)

lemma put_row_size: "same_size b (snd (put_row slots batch row rid cursor b))"
proof -
  have "same_size b (b\<lparr>bf_query_start_loc := (bf_query_start_loc b)[row := i], bf_seq_lens := (bf_seq_lens b)[row := k]\<rparr>)" for i k
    by (simp add: same_size_def buffers_ok_def)
  then show ?thesis
    by (auto simp: put_row_def Let_def intro!: bind_st_size same_size_trans [OF _ put_tokens_size] split: option.splits)
qed

lemma put_rows_size: "same_size b (snd (put_rows slots batch row rids cursor b))"
  by (induction slots batch row rids cursor b rule: put_rows.induct) (auto intro: bind_st_size put_row_size)

lemma clear_size: "same_size b ((input_buffers_clear b)\<lparr>bf_req_ids := rids, bf_num_reqs := n\<rparr>)"
  by (simp add: same_size_def buffers_ok_def input_buffers_clear_def)

lemma materialize_size: "same_size b (snd (materialize batch slots b))"
proof (cases "int (length (ib_req_ids batch)) > max_num_reqs b")
  case False
  let ?b0 = "(input_buffers_clear b)\<lparr>bf_req_ids := ib_req_ids batch, bf_num_reqs := int (length (ib_req_ids batch))\<rparr>"
  obtain x b1 where p: "put_rows slots batch 0 (ib_req_ids batch) 0 ?b0 = (x, b1)" by (rule prod.exhaust)
  have s: "same_size b b1" using same_size_trans [OF clear_size put_rows_size] p by (metis snd_conv)
  have "same_size b (b1\<lparr>bf_num_tokens := t, bf_query_start_loc :=
      take (length (ib_req_ids batch)) (bf_query_start_loc b1)
      @ replicate (nat (max_num_reqs b + 1) - length (ib_req_ids batch)) t\<rparr>)" for t
    using s False by (auto simp: same_size_def buffers_ok_def)
  then show ?thesis using False p s by (cases x) (simp_all add: materialize_def bind_st_def Let_def)
qed (simp add: materialize_def)

lemma clear_same:
  assumes "buffers_ok b" "buffers_ok b'" "max_num_reqs b' = max_num_reqs b" "max_num_tokens b' = max_num_tokens b"
  shows "input_buffers_clear b' = input_buffers_clear b"
  using assms by (cases b; cases b') (simp add: input_buffers_clear_def buffers_ok_def map_replicate_const)

lemma materialize_same:
  assumes "buffers_ok b" "buffers_ok b'" "max_num_reqs b' = max_num_reqs b" "max_num_tokens b' = max_num_tokens b"
  shows "fst (materialize batch slots b') = fst (materialize batch slots b)
    \<and> (is_ok (fst (materialize batch slots b)) \<longrightarrow> materialize batch slots b' = materialize batch slots b)"
  using clear_same [OF assms] assms(3) by (simp add: materialize_def Let_def)

definition runner_ok :: "model_runner \<Rightarrow> bool" where
  "runner_ok r \<longleftrightarrow> buffers_ok (mr_input_buffers r) \<and> max_num_reqs (mr_input_buffers r) = 64
     \<and> max_num_tokens (mr_input_buffers r) = 8192"

lemma runner_init_ok: "\<exists>r. runner_init backend config pin = Inr r \<and> runner_ok r \<and> mr_backend r = backend \<and> mr_model r = None"
  by (simp add: runner_init_def input_buffers_init_def runner_ok_def buffers_ok_def)

text \<open>What a step reads of the runner apart from its buffers.\<close>

definition engine_of :: "model_runner \<Rightarrow> string \<times> net option" where
  "engine_of r = (mr_backend r, mr_model r)"

lemma prepare_attn_keeps:
  assumes "runner_ok r"
  shows "runner_ok (snd (prepare_attn batch ready r)) \<and> engine_of (snd (prepare_attn batch ready r)) = engine_of r"
proof -
  obtain x b where m: "materialize batch (slot_mapping_by_req ready) (mr_input_buffers r) = (x, b)" by (rule prod.exhaust)
  have "same_size (mr_input_buffers r) b" using materialize_size m by (metis snd_conv)
  then show ?thesis using assms m
    by (auto simp: prepare_attn_def Let_def same_size_def runner_ok_def engine_of_def split: sum.splits)
qed

lemma prepare_attn_same:
  assumes "runner_ok r" "runner_ok r'"
  shows "fst (prepare_attn batch ready r') = fst (prepare_attn batch ready r)"
proof -
  let ?m = "materialize batch (slot_mapping_by_req ready)"
  have s: "fst (?m (mr_input_buffers r')) = fst (?m (mr_input_buffers r))"
    "is_ok (fst (?m (mr_input_buffers r))) \<longrightarrow> ?m (mr_input_buffers r') = ?m (mr_input_buffers r)"
    using materialize_same [of "mr_input_buffers r" "mr_input_buffers r'"] assms by (simp_all add: runner_ok_def)
  show ?thesis
  proof (cases "fst (?m (mr_input_buffers r))")
    case (Inl e)
    then show ?thesis using s by (simp add: prepare_attn_def Let_def split_def split: sum.splits)
  next
    case (Inr u)
    then have "?m (mr_input_buffers r') = ?m (mr_input_buffers r)" using s(2) by simp
    then show ?thesis using Inr by (simp add: prepare_attn_def Let_def split_def split: sum.splits)
  qed
qed

text \<open>A runner as the constructor makes it, with a model.\<close>

definition fresh_runner :: "string \<Rightarrow> net option \<Rightarrow> model_runner" where
  "fresh_runner backend model = (case runner_init backend None None of Inr r \<Rightarrow> r\<lparr>mr_model := model\<rparr>)"

definition runner_exec :: "string \<Rightarrow> net option \<Rightarrow> executor" where
  "runner_exec backend model out ready host = fst (execute_model out ready host (fresh_runner backend model))"

lemma fresh_runner_ok: "runner_ok (fresh_runner backend model)" "engine_of (fresh_runner backend model) = (backend, model)"
  by (simp_all add: fresh_runner_def runner_init_def input_buffers_init_def runner_ok_def buffers_ok_def engine_of_def)

lemma execute_model_same:
  assumes "runner_ok r" "runner_ok r'" "engine_of r' = engine_of r"
  shows "fst (execute_model out ready host r') = fst (execute_model out ready host r)"
proof -
  let ?b = "build_batch out host" and ?s = "\<lambda>r. r\<lparr>mr_input_batch := build_batch out host\<rparr>"
  have ok: "runner_ok (?s r)" "runner_ok (?s r')" using assms(1,2) by (simp_all add: runner_ok_def)
  obtain x q where p: "prepare_attn ?b ready (?s r) = (x, q)" by (rule prod.exhaust)
  obtain q' where p': "prepare_attn ?b ready (?s r') = (x, q')"
    using prepare_attn_same [OF ok, of ?b ready] p by (metis fst_conv prod.exhaust)
  have "engine_of q = engine_of (?s r)" "engine_of q' = engine_of (?s r')"
    using prepare_attn_keeps [OF ok(1), of ?b ready] prepare_attn_keeps [OF ok(2), of ?b ready] p p' by simp_all
  then have "mr_backend q' = mr_backend q" "mr_model q' = mr_model q" using assms(3) by (simp_all add: engine_of_def)
  then show ?thesis using p p'
    by (cases x) (simp_all add: execute_model_def execute_prepared_def prepare_inputs_def bind_st_def Let_def)
qed

lemma execute_model_keeps:
  assumes "runner_ok r"
  shows "runner_ok (snd (execute_model out ready host r)) \<and> engine_of (snd (execute_model out ready host r)) = engine_of r"
proof -
  let ?s = "r\<lparr>mr_input_batch := build_batch out host\<rparr>"
  have ok: "runner_ok ?s" "engine_of ?s = engine_of r" using assms by (simp_all add: runner_ok_def engine_of_def)
  obtain x q where p: "prepare_attn (build_batch out host) ready ?s = (x, q)" by (rule prod.exhaust)
  show ?thesis using prepare_attn_keeps [OF ok(1), of "build_batch out host" ready] p ok(2) assms
    by (cases x) (simp_all add: execute_model_def execute_prepared_def prepare_inputs_def bind_st_def Let_def)
qed

text \<open>
  C11. A step does not depend on earlier steps: whatever the runner has executed before, and whether or not it raised,
  \<open>execute_model\<close> answers what a runner fresh from its constructor with the same model and backend answers.
\<close>

theorem execution_is_stateless:
  assumes "runner_ok r" "r' = fold (\<lambda>(out, ready, host) r. snd (execute_model out ready host r)) steps r"
  shows "fst (execute_model out ready host r') = runner_exec (mr_backend r) (mr_model r) out ready host"
proof -
  have "runner_ok r' \<and> engine_of r' = engine_of r" using assms
  proof (induction steps arbitrary: r)
    case (Cons s steps)
    obtain o1 h1 rs1 where s: "s = (o1, h1, rs1)" by (rule prod_cases3)
    note k = execute_model_keeps [OF Cons.prems(1), of o1 h1 rs1]
    show ?case using Cons.IH [OF conjunct1 [OF k]] k Cons.prems(2) by (simp add: s)
  qed simp
  then have "runner_ok r'" "engine_of r' = engine_of (fresh_runner (mr_backend r) (mr_model r))"
    by (simp_all add: fresh_runner_ok) (simp add: engine_of_def)
  then show ?thesis unfolding runner_exec_def by (rule execute_model_same [OF fresh_runner_ok(1)])
qed

definition empty_ready :: "int \<Rightarrow> ready_handle" where
  "empty_ready sid = \<lparr>rh_step_id = sid, stats_by_req = [], effective_read_set = None, effective_write_set = None,
     block_table_by_req = Map.empty, slot_mapping_by_req = Map.empty\<rparr>"

theorem execution_is_stateless_witness:
  "fst (execute_model (mk_scheduler_output 2 FM_IDLE) (empty_ready 2) Map.empty
       (snd (execute_model (dummy_output 1 3 [''a'']) (empty_ready 1) [''a'' \<mapsto> dummy_req ''m'' 3 ''a''] (fresh_runner ''mock'' None))))
     = runner_exec ''mock'' None (mk_scheduler_output 2 FM_IDLE) (empty_ready 2) Map.empty"
  using execution_is_stateless [OF fresh_runner_ok(1) [of "''mock''" None] refl,
      of _ _ _ "[(dummy_output 1 3 [''a''], empty_ready 1, [''a'' \<mapsto> dummy_req ''m'' 3 ''a''])]"]
    fresh_runner_ok(2) [of "''mock''" None]
  by (simp add: engine_of_def)

section \<open>The answer\<close>

lemma set_dict_update: "set (dict_update d e) \<subseteq> set d \<union> set e"
proof -
  have upd: "set (AList.update k v d) \<subseteq> insert (k, v) (set d)" for k v and d :: "('a, 'b) dict"
    by (induction d) auto
  have "set (fold (\<lambda>(k, v). dict_set k v) e d) \<subseteq> set d \<union> set e"
  proof (induction e arbitrary: d)
    case (Cons p e)
    obtain k v where p: "p = (k, v)" by (rule prod.exhaust)
    show ?case using Cons.IH [of "dict_set k v d"] upd [of k v d] by (auto simp: p)
  qed simp
  then show ?thesis by (simp add: dict_update_def)
qed

lemma map_res_set: "map_res f xs = Inr ys \<Longrightarrow> y \<in> set ys \<Longrightarrow> \<exists>x \<in> set xs. f x = Inr y"
  by (induction xs arbitrary: ys) (auto simp: bind_res_Inr_iff)

text \<open>The greedy choice over the logits of the placeholder model is its token.\<close>

lemma dummy_logits_choice:
  assumes "dummy_model_logits cfg ctx = Inr l" "greedy_sample l = Inr k"
  shows "dummy_model_token cfg ctx = Inr (int k)"
proof -
  obtain t where t: "dummy_model_token cfg ctx = Inr t" "0 \<le> t" "t < vocab_size cfg"
    and l: "l = (replicate (nat (vocab_size cfg)) (Some 0))[nat t := Some 1]"
    using assms(1) by (auto simp: dummy_model_logits_def bind_res_Inr_iff split: if_splits)
  have len: "nat t < length l" using t(2,3) by (simp add: l)
  then have "l \<noteq> []" by auto
  then have k: "first_max l k" using greedy_sample_first_max [of l] assms(2) by auto
  then have "l ! nat t \<le> l ! k" "k < length l" using len by (auto simp: first_max_def list_all_length)
  then have "k = nat t" using len by (cases "k = nat t") (simp_all add: l)
  then show ?thesis using t by simp
qed

lemma sample_loop_answers:
  assumes "sample_loop host deferred masks ls toks = Inr toks'"
  shows "toks' rid = toks rid \<or>
    (\<exists>l k. (rid, l) \<in> set ls \<and> host rid \<noteq> None \<and> toks' rid = Some [int k] \<and> (masks = [] \<longrightarrow> greedy_sample l = Inr k))"
  using assms
proof (induction ls arbitrary: toks)
  case (Cons p ls)
  obtain x l where p: "p = (x, l)" by (rule prod.exhaust)
  show ?case
  proof (cases "x \<in> deferred \<or> host x = None")
    case True
    then show ?thesis using Cons.IH Cons.prems by (auto simp: p)
  next
    case False
    then obtain l' k where m: "(case map_of masks x of None \<Rightarrow> Inr l | Some m \<Rightarrow> apply_token_bitmask l m) = Inr l'"
      and g: "greedy_sample l' = Inr k" and r: "sample_loop host deferred masks ls (toks(x \<mapsto> [int k])) = Inr toks'"
      using Cons.prems by (auto simp: p bind_res_Inr_iff)
    have "masks = [] \<longrightarrow> greedy_sample l = Inr k" using m g by auto
    then show ?thesis using Cons.IH [OF r] False by (cases "rid = x") (auto simp: p)
  qed
qed simp

definition no_masks :: "scheduler_output \<Rightarrow> bool" where
  "no_masks out \<longleftrightarrow> (case grammar_out out of None \<Rightarrow> True | Some g \<Rightarrow> token_bitmask_by_req g = [])"

lemma forward_model_answers:
  assumes "forward_model (Some m) out host batch = Inr (toks, drafts)"
  shows "drafts = Map.empty \<and> (toks rid = None \<or> (\<exists>r t. host rid = Some r \<and> toks rid = Some [t]
    \<and> (no_masks out \<longrightarrow> dummy_model_token (net_config m) (all_token_ids r) = Inr t)))"
proof -
  let ?f = "\<lambda>rid. bind_res (dummy_model_logits (net_config m) (all_token_ids (the (host rid)))) (\<lambda>l. Inr (rid, l))"
  obtain ls where ls: "map_res ?f (filter (decoding host batch) (ib_req_ids batch)) = Inr ls"
    and st: "sample_tokens out host (dict_update [] ls) = Inr (toks, drafts)"
    using assms by (auto simp: forward_model_def bind_res_Inr_iff)
  let ?deferred = "case grammar_out out of None \<Rightarrow> {} | Some g \<Rightarrow> set (deferred_req_ids g)"
    and ?masks = "case grammar_out out of None \<Rightarrow> [] | Some g \<Rightarrow> token_bitmask_by_req g"
  have "bind_res (sample_loop host ?deferred ?masks (dict_update [] ls) Map.empty) (\<lambda>toks. Inr (toks, Map.empty)) = Inr (toks, drafts)"
    using st unfolding sample_tokens_def Let_def by (simp only: sum.distinct split: if_split_asm)
  then have sl: "sample_loop host ?deferred ?masks (dict_update [] ls) Map.empty = Inr toks" and d: "drafts = Map.empty"
    unfolding bind_res_Inr_iff by blast+
  have masks: "no_masks out \<longrightarrow> ?masks = []" by (simp add: no_masks_def split: option.splits)
  show ?thesis
  proof (cases "toks rid = None")
    case False
    then obtain l k where l: "(rid, l) \<in> set (dict_update [] ls)" "host rid \<noteq> None" "toks rid = Some [int k]"
      "?masks = [] \<longrightarrow> greedy_sample l = Inr k"
      using sample_loop_answers [OF sl, of rid] that by (elim disjE exE conjE) (simp, blast)
    then have "(rid, l) \<in> set ls" using set_dict_update [of "[]" ls] by auto
    from map_res_set [OF ls this] have "dummy_model_logits (net_config m) (all_token_ids (the (host rid))) = Inr l"
      by (auto simp: bind_res_Inr_iff)
    then have "no_masks out \<longrightarrow> dummy_model_token (net_config m) (all_token_ids (the (host rid))) = Inr (int k)"
      using masks l(4) dummy_logits_choice by blast
    then show ?thesis using l(2,3) d by auto
  qed (simp add: d)
qed

lemma runner_exec_answers:
  assumes "runner_exec ''qwen3'' (Some m) out ready host = Inr ro"
  shows "next_token_ids ro rid = None \<or> (\<exists>r t. host rid = Some r \<and> next_token_ids ro rid = Some [t]
    \<and> (no_masks out \<longrightarrow> dummy_model_token (net_config m) (all_token_ids r) = Inr t))"
proof -
  let ?r = "(fresh_runner ''qwen3'' (Some m))\<lparr>mr_input_batch := build_batch out host\<rparr>"
  have ok: "runner_ok ?r" "engine_of ?r = (''qwen3'', Some m)"
    using fresh_runner_ok [of "''qwen3''" "Some m"] by (simp_all add: runner_ok_def engine_of_def)
  obtain x q where p: "prepare_attn (build_batch out host) ready ?r = (x, q)" by (rule prod.exhaust)
  have q: "mr_backend q = ''qwen3''" "mr_model q = Some m"
    using prepare_attn_keeps [OF ok(1), of "build_batch out host" ready] p ok(2) by (simp_all add: engine_of_def)
  obtain toks drafts where "forward_model (Some m) out host (build_batch out host) = Inr (toks, drafts)"
    "next_token_ids ro = toks"
    using assms p q by (cases x)
      (auto simp: runner_exec_def execute_model_def execute_prepared_def prepare_inputs_def bind_st_def Let_def
        bind_res_Inr_iff split: if_splits)
  then show ?thesis using forward_model_answers by blast
qed

lemma runner_exec_bounded:
  assumes "out_pos out" "runner_exec ''qwen3'' (Some m) out ready host = Inr ro"
  shows "answer_ok out ro"
proof -
  have one: "py_len (get_list (next_token_ids ro) rid) \<le> 1" for rid
    using runner_exec_answers [OF assms(2), of rid] by (auto simp: get_list_def)
  show ?thesis unfolding answer_ok_def
  proof (rule ballI)
    fix e assume "e \<in> set (num_scheduled_tokens out)"
    moreover obtain rid k where e: "e = (rid, k)" by (rule prod.exhaust)
    ultimately have "0 < k" using assms(1) by (auto simp: out_pos_def)
    then show "case e of (rid, k) \<Rightarrow> py_len (get_list (next_token_ids ro) rid) \<le> k" using one [of rid] by (simp add: e)
  qed
qed

section \<open>Greedy decoding in the normal loop\<close>

text \<open>The token of the placeholder model, and a request whose output is what that model decodes alone.\<close>

definition model_token :: "model_config \<Rightarrow> int list \<Rightarrow> int" where
  "model_token cfg ctx = (case dummy_model_token cfg ctx of Inl e \<Rightarrow> 0 | Inr t \<Rightarrow> t)"

definition greedy_req :: "model_config \<Rightarrow> req \<Rightarrow> bool" where
  "greedy_req cfg r \<longleftrightarrow>
     output_token_ids r = target_decode (model_token cfg) (prompt_token_ids r) (length (output_token_ids r))"

lemma target_decode_snoc: "target_decode f ctx (Suc n) = target_decode f ctx n @ [f (ctx @ target_decode f ctx n)]"
proof (induction n arbitrary: ctx)
  case (Suc n)
  have step: "target_decode f ctx (Suc k) = f ctx # target_decode f (ctx @ [f ctx]) k" for k by (simp add: Let_def)
  show ?case unfolding step [of "Suc n"] Suc.IH [of "ctx @ [f ctx]"] by (simp add: Let_def)
qed (simp add: Let_def)

lemma greedy_snoc:
  assumes "greedy_req cfg r" "dummy_model_token cfg (all_token_ids r) = Inr t"
    "prompt_token_ids r' = prompt_token_ids r" "output_token_ids r' = output_token_ids r @ [t]"
  shows "greedy_req cfg r'"
proof -
  let ?o = "output_token_ids r" and ?f = "model_token cfg"
  have o: "target_decode ?f (prompt_token_ids r) (length ?o) = ?o" using assms(1) by (simp add: greedy_req_def)
  have "?f (prompt_token_ids r @ ?o) = t" using assms(2) by (simp add: model_token_def all_token_ids_def)
  then have "target_decode ?f (prompt_token_ids r) (Suc (length ?o)) = ?o @ [t]"
    unfolding target_decode_snoc o by simp
  then show ?thesis by (simp add: greedy_req_def assms(3,4))
qed

text \<open>\<open>n'\<close> has the requests of \<open>n\<close> or fewer, with the same texts, except that \<open>rid\<close> has got \<open>ts\<close> more tokens.\<close>

definition texts_from :: "string \<Rightarrow> int list \<Rightarrow> ('a, 'm) node_scheme \<Rightarrow> ('a, 'm) node_scheme \<Rightarrow> bool" where
  "texts_from rid ts n n' \<longleftrightarrow> n_role n' = n_role n \<and> (\<forall>x r'. n_reqs n' x = Some r' \<longrightarrow>
     (\<exists>r. n_reqs n x = Some r \<and> prompt_token_ids r' = prompt_token_ids r
        \<and> output_token_ids r' = output_token_ids r @ (if x = rid then ts else [])))"

lemma texts_fromD:
  assumes "texts_from rid ts n n'" "n_reqs n' x = Some r'"
  obtains r where "n_reqs n x = Some r" "prompt_token_ids r' = prompt_token_ids r"
    "output_token_ids r' = output_token_ids r @ (if x = rid then ts else [])"
  using assms unfolding texts_from_def by blast

lemma texts_from_upd:
  assumes "n_role n' = n_role n" "n_reqs n rid = Some r" "\<And>x. n_reqs n' x = ((n_reqs n)(rid \<mapsto> r')) x \<or> n_reqs n' x = None"
    "prompt_token_ids r' = prompt_token_ids r" "output_token_ids r' = output_token_ids r @ ts"
  shows "texts_from rid ts n n'"
  unfolding texts_from_def
proof (intro conjI allI impI)
  fix x y assume y: "n_reqs n' x = Some y"
  then have "((n_reqs n)(rid \<mapsto> r')) x = Some y" using assms(3) [of x] by simp
  then show "\<exists>r. n_reqs n x = Some r \<and> prompt_token_ids y = prompt_token_ids r
      \<and> output_token_ids y = output_token_ids r @ (if x = rid then ts else [])"
    using assms(2,4,5) by (cases "x = rid") auto
qed (rule assms(1))

lemma texts_from_refl: "n_role n' = n_role n \<Longrightarrow> n_reqs n' = n_reqs n \<Longrightarrow> texts_from rid [] n n'"
  by (simp add: texts_from_def)

lemma apply_stat_texts: "texts_from rid [] n (apply_stat s n)"
proof (cases "n_reqs n (fst s)")
  case (Some r)
  have "texts_from rid [] n (set_req (fst s) (r\<lparr>prefill_blocks := i, reused_blocks := j\<rparr>) n)" for i j
    using Some by (auto simp: texts_from_def)
  then show ?thesis using Some by (simp add: apply_stat_def texts_from_refl)
qed (simp add: apply_stat_def texts_from_refl)

lemma texts_from_trans: "texts_from rid [] n n1 \<Longrightarrow> texts_from rid [] n1 n2 \<Longrightarrow> texts_from rid [] n n2"
  unfolding texts_from_def by fastforce

lemma apply_ready_stats_texts: "texts_from rid [] n (apply_ready_stats h n)"
proof -
  have "texts_from rid [] n (fold apply_stat ss n)" for ss
  proof (induction ss arbitrary: n)
    case (Cons s ss)
    show ?case using texts_from_trans [OF apply_stat_texts Cons.IH] by simp
  qed (simp add: texts_from_refl)
  then show ?thesis by (simp add: apply_ready_stats_def)
qed

text \<open>An answer for a request is at most the model's token for its text.\<close>

definition answers :: "model_config \<Rightarrow> model_runner_output \<Rightarrow> string \<Rightarrow> req \<Rightarrow> bool" where
  "answers cfg ro x r \<longleftrightarrow> get_list (next_token_ids ro) x = []
     \<or> (\<exists>t. get_list (next_token_ids ro) x = [t] \<and> dummy_model_token cfg (all_token_ids r) = Inr t)"

definition all_greedy :: "model_config \<Rightarrow> ('a, 'm) node_scheme \<Rightarrow> bool" where
  "all_greedy cfg n \<longleftrightarrow> (\<forall>x r. n_reqs n x = Some r \<longrightarrow> greedy_req cfg r)"

lemma produced_answer:
  assumes "use_runner_tokens n" "answers cfg ro x r"
  shows "produced_tokens ro x r n = []
    \<or> (\<exists>t. produced_tokens ro x r n = [t] \<and> dummy_model_token cfg (all_token_ids r) = Inr t)"
  using assms by (auto simp: produced_tokens_def answers_def Let_def py_take_def)

lemma all_greedy_texts:
  assumes "all_greedy cfg n" "texts_from rid ts n n'"
    "\<And>r. n_reqs n rid = Some r \<Longrightarrow> ts = [] \<or> (\<exists>t. ts = [t] \<and> dummy_model_token cfg (all_token_ids r) = Inr t)"
  shows "all_greedy cfg n'"
  unfolding all_greedy_def
proof (intro allI impI)
  fix x r' assume x: "n_reqs n' x = Some r'"
  obtain r where r: "n_reqs n x = Some r" "prompt_token_ids r' = prompt_token_ids r"
    "output_token_ids r' = output_token_ids r @ (if x = rid then ts else [])"
    by (rule texts_fromD [OF assms(2) x])
  have g: "greedy_req cfg r" using assms(1) r(1) by (simp add: all_greedy_def)
  show "greedy_req cfg r'"
  proof (cases "x = rid \<and> ts \<noteq> []")
    case True
    then obtain t where t: "ts = [t]" "dummy_model_token cfg (all_token_ids r) = Inr t" using assms(3) r(1) by auto
    show ?thesis by (rule greedy_snoc [OF g t(2) r(2)]) (use r(3) True t(1) in simp)
  next
    case False
    then have "output_token_ids r' = output_token_ids r" using r(3) by auto
    then show ?thesis using g r(2) by (simp add: greedy_req_def)
  qed
qed

lemma schedule_masks:
  "schedule n = (Inr out, n1) \<Longrightarrow> no_masks out \<and> n_role n1 = n_role n \<and> n_result_queue n1 = n_result_queue n"
  by (auto simp: schedule_def begin_step_def build_output_def mk_scheduler_output_def no_masks_def Let_def
      split: prod.splits sum.splits if_splits)

lemma filter_masks: "no_masks out \<Longrightarrow> no_masks (filter_output out K rs ws)"
  by (cases "grammar_out out")
    (simp_all add: no_masks_def filter_output_def Let_def filter_grammar_output_def keep_keys_def)

lemma respect_masks:
  assumes "respect_effective_sets out ready n = (out', n')" "no_masks out"
  shows "no_masks out'"
proof -
  have "out' = out \<or> out' = mk_scheduler_output (step_id out) FM_IDLE \<or> (\<exists>K rs ws. out' = filter_output out K rs ws)"
    using assms(1) unfolding respect_eq Let_def by (simp split: if_split_asm) blast
  then show ?thesis using assms(2) filter_masks by (auto simp: no_masks_def mk_scheduler_output_def)
qed

lemma run_batch_result:
  assumes "run_batch env out n = (Inr u, n')"
  obtains out' ready ro where
    "n_result_queue n' = n_result_queue n @ [\<lparr>br_output = out', br_runner_out = ro, br_ready = ready\<rparr>]"
    "ne_exec env out' ready (n_reqs n) = Inr ro" "no_masks out \<longrightarrow> no_masks out'" "n_reqs n' = n_reqs n" "n_role n' = n_role n"
proof -
  obtain ready p1 p2 out' n2 ro where re: "respect_effective_sets out ready (n\<lparr>n_pool := p1\<rparr>) = (out', n2)"
    and ex: "ne_exec env out' ready (n_reqs n2) = Inr ro"
    and n': "n' = n2\<lparr>n_timeline := n_timeline n2 @ [(TL_execute, step_id out')], n_pool := p2,
        n_result_queue := n_result_queue n2 @ [\<lparr>br_output = out', br_runner_out = ro, br_ready = ready\<rparr>]\<rparr>"
    using assms unfolding run_batch_def Let_def by (auto split: prod.splits sum.splits)
  have n2: "n_reqs n2 = n_reqs n" "n_role n2 = n_role n" "n_result_queue n2 = n_result_queue n"
    by (subst respect_node [OF re], simp)+
  show ?thesis by (rule that [of out' ro ready]) (use ex n' n2 respect_masks [OF re] in simp_all)
qed

context node_services
begin

lemma finish_req_texts:
  assumes "finish_req env rid m = (Inr u, n')"
  shows "n_role n' = n_role m \<and> (n_reqs n' x = n_reqs m x \<or> n_reqs n' x = None)"
proof -
  obtain r where r: "n_reqs m rid = Some r" using assms by (cases "n_reqs m rid") (simp_all add: finish_req_def)
  let ?n2 = "\<lambda>p. m\<lparr>n_running := remove1 rid (n_running m), n_inflight_decode := (n_inflight_decode m)(rid := None),
    n_pending_drafts := (n_pending_drafts m)(rid := None), n_future_map := fm_clear rid (n_future_map m), n_pool := p\<rparr>"
  obtain p where n': "n' = (case ne_on_finished env of None \<Rightarrow> ?n2 p | Some f \<Rightarrow> f r (?n2 p))"
    using assms r by (auto simp: finish_req_def Let_def split: prod.splits sum.splits)
  show ?thesis
  proof (cases "ne_on_finished env")
    case (Some f)
    then have "releases_only r (?n2 p) (f r (?n2 p))" by (rule finished_releases)
    then show ?thesis using n' Some by (auto simp: releases_only_def split: if_splits)
  qed (simp add: n')
qed

lemma process_one_texts:
  assumes "process_one env out ro e n = (Inr u, n')"
  shows "\<exists>ts. texts_from (fst e) ts n n' \<and> (ts = [] \<or> (\<exists>r. n_reqs n (fst e) = Some r \<and> ts = produced_tokens ro (fst e) r n))"
proof (cases "n_reqs n (fst e)")
  case None
  then show ?thesis using assms by (auto simp: process_one_def texts_from_refl)
next
  case (Some r)
  let ?rid = "fst e" and ?ts = "produced_tokens ro (fst e) r n"
  consider c where "process_prompt env ro ?rid r c (snd e) n = (Inr u, n')"
    | spec where "process_decode env ro ?rid r spec (snd e) n = (Inr u, n')"
    using assms Some by (auto simp: process_one_def Let_def split: if_splits)
  then show ?thesis
  proof cases
    case 1
    then obtain s where s: "core_eq (set_req ?rid (r\<lparr>num_computed_tokens := min (py_len (prompt_token_ids r)) (c + snd e)\<rparr>) n) s"
      "n_reqs n' = n_reqs s" "n_role n' = n_role s"
      unfolding process_prompt_def Let_def by (rule commit_thenE) (auto split: if_splits)
    have "texts_from ?rid [] n n'"
      by (rule texts_from_upd [OF _ Some, where r' = "r\<lparr>num_computed_tokens := min (py_len (prompt_token_ids r)) (c + snd e)\<rparr>"])
        (use s in \<open>simp_all add: core_eq_def\<close>)
    then show ?thesis by blast
  next
    case 2
    let ?r = "push_tokens ?ts r"
    obtain s where s: "core_eq (record_tokens ro ?rid r spec (snd e) n) s"
      and f: "finish_if_done env ?rid ?r (keep_drafts ro ?rid ?r s) = (Inr u, n')"
      using 2 unfolding process_decode_def Let_def by (rule commit_thenE)
    have s': "n_reqs s = (n_reqs n)(?rid \<mapsto> ?r)" "n_role s = n_role n"
      using s by (simp_all add: core_eq_def record_tokens_frame) (simp add: record_tokens_def Let_def)
    have k: "n_reqs (keep_drafts ro ?rid ?r s) = n_reqs s" "n_role (keep_drafts ro ?rid ?r s) = n_role s"
      by (simp_all add: keep_drafts_def)
    have "texts_from ?rid ?ts n n'"
    proof (cases "max_new_tokens (req_sampling ?r) \<le> num_output_tokens ?r")
      case True
      let ?r' = "?r\<lparr>finished := True, finish_reason := Some ''length''\<rparr>"
      have "finish_req env ?rid (set_req ?rid ?r' (keep_drafts ro ?rid ?r s)) = (Inr u, n')"
        using f True by (simp add: finish_if_done_def)
      from finish_req_texts [OF this] show ?thesis
        by (intro texts_from_upd [OF _ Some, where r' = ?r']) (simp_all add: k s')
    next
      case False
      then have "n' = keep_drafts ro ?rid ?r s" using f by (simp add: finish_if_done_def)
      then show ?thesis by (intro texts_from_upd [OF _ Some, where r' = ?r]) (simp_all add: k s')
    qed
    then show ?thesis using Some by blast
  qed
qed

lemma process_items_greedy:
  assumes "process_items env out ro es n = (Inr u, n')" "distinct (dict_keys es)" "use_runner_tokens n" "all_greedy cfg n"
    "\<And>x r. x \<in> set (dict_keys es) \<Longrightarrow> n_reqs n x = Some r \<Longrightarrow> answers cfg ro x r"
  shows "all_greedy cfg n' \<and> n_role n' = n_role n"
  using assms
proof (induction es arbitrary: n)
  case (Cons e es)
  obtain n1 v where one: "process_one env out ro e n = (Inr v, n1)" and rest: "process_items env out ro es n1 = (Inr u, n')"
    using Cons.prems(1) by (auto simp: then_do_ok)
  obtain ts where tf: "texts_from (fst e) ts n n1"
    and ts: "ts = [] \<or> (\<exists>r. n_reqs n (fst e) = Some r \<and> ts = produced_tokens ro (fst e) r n)"
    using process_one_texts [OF one] by blast
  have role: "n_role n1 = n_role n" using tf by (simp add: texts_from_def)
  have g1: "all_greedy cfg n1"
  proof (rule all_greedy_texts [OF Cons.prems(4) tf])
    fix r assume r: "n_reqs n (fst e) = Some r"
    have "answers cfg ro (fst e) r" by (rule Cons.prems(5) [OF _ r]) simp
    from produced_answer [OF Cons.prems(3) this] ts r
    show "ts = [] \<or> (\<exists>t. ts = [t] \<and> dummy_model_token cfg (all_token_ids r) = Inr t)" by auto
  qed
  have "answers cfg ro x r'" if x: "x \<in> set (dict_keys es)" "n_reqs n1 x = Some r'" for x r'
  proof -
    have "fst e \<notin> set (dict_keys es)" using Cons.prems(2) by simp
    then have ne: "x \<noteq> fst e" using x(1) by blast
    obtain r where r: "n_reqs n x = Some r" "prompt_token_ids r' = prompt_token_ids r" "output_token_ids r' = output_token_ids r"
      using texts_fromD [OF tf x(2)] ne by auto
    have "answers cfg ro x r" by (rule Cons.prems(5) [OF _ r(1)]) (use x(1) in simp)
    then show ?thesis using r(2,3) by (simp add: answers_def all_token_ids_def)
  qed
  then show ?case
    using Cons.IH [OF rest _ _ g1] Cons.prems(2,3) role by (simp add: use_runner_tokens_def)
qed simp

lemma pop_greedy:
  assumes inv: "node_inv n" and q: "n_result_queue n = [b]" and role: "use_runner_tokens n" and g: "all_greedy cfg n"
    and ans: "\<And>x r. n_reqs n x = Some r \<Longrightarrow> answers cfg (br_runner_out b) x r"
    and pop: "pop_and_process env n = (Inr u, n')"
  shows "all_greedy cfg n'"
proof -
  let ?n1 = "n\<lparr>n_result_queue := [], n_timeline := n_timeline n @ [(TL_process, step_id (br_output b))]\<rparr>"
  let ?n2 = "apply_ready_stats (br_ready b) ?n1"
  obtain n3 v where p: "process_items env (br_output b) (br_runner_out b) (num_scheduled_tokens (br_output b)) ?n2 = (Inr v, n3)"
    and n': "n' = n3\<lparr>n_future_map := fm_publish (n_future_map n3)\<rparr>"
    using pop q by (auto simp: pop_and_process_def Let_def then_do_ok process_batch_result_def)
  have tf: "texts_from [] [] n ?n2"
    using texts_from_trans [OF texts_from_refl apply_ready_stats_texts, of ?n1 n "[]"] by simp
  have "distinct (dict_keys (num_scheduled_tokens (br_output b)))" using node_invD(2) [OF inv, of b] q by (simp add: out_ok_def)
  moreover have "use_runner_tokens ?n2" using tf role by (simp add: texts_from_def use_runner_tokens_def)
  moreover have "all_greedy cfg ?n2" by (rule all_greedy_texts [OF g tf]) simp
  moreover have "answers cfg (br_runner_out b) x r'" if x: "n_reqs ?n2 x = Some r'" for x r'
  proof -
    obtain r where "n_reqs n x = Some r" "prompt_token_ids r' = prompt_token_ids r" "output_token_ids r' = output_token_ids r"
      by (rule texts_fromD [OF tf x]) simp
    then show ?thesis using ans [of x r] by (simp add: answers_def all_token_ids_def)
  qed
  ultimately have "all_greedy cfg n3" using process_items_greedy [OF p] by blast
  then show ?thesis by (simp add: n' all_greedy_def)
qed

lemma normal_turn_greedy:
  assumes ex: "ne_exec env = runner_exec ''qwen3'' (Some m)" and bef: "ne_before_schedule env = None"
    and inv: "node_inv n" and q: "n_result_queue n = []" and role: "use_runner_tokens n" and g: "all_greedy (net_config m) n"
    and turn: "normal_turn env n = Again n' \<or> normal_turn env n = Leave n'"
  shows "n_result_queue n' = [] \<and> use_runner_tokens n' \<and> all_greedy (net_config m) n'"
proof (cases "\<not> has_work n \<or> stop_requested env n")
  case True
  then have "normal_turn env n = Leave n" by (cases "has_work n") (simp_all add: normal_turn_def)
  then show ?thesis using turn q role g by simp
next
  case False
  have b: "run_before_schedule env n = n" using bef by (simp add: run_before_schedule_def)
  obtain out n1 where s: "schedule n = (Inr out, n1)"
    using turn False b by (cases "schedule n"; cases "fst (schedule n)") (auto simp: normal_turn_def)
  note f = schedule_masks [OF s]
  have n1: "n_reqs n1 = n_reqs n" using schedule_frame(2) [of n] s by simp
  have g1: "all_greedy (net_config m) n1" "use_runner_tokens n1" "n_result_queue n1 = []"
    using g role q f n1 by (simp_all add: all_greedy_def use_runner_tokens_def)
  show ?thesis
  proof (cases "total_num_scheduled_tokens out = 0")
    case True
    have "drain_results env n1 = (Inr (), n1)" using g1(3) by (simp add: drain_results_def)
    then have "n' = n1" using turn False b s True by (auto simp: normal_turn_def turn_of_def split: if_splits)
    then show ?thesis using g1 by simp
  next
    case False': False
    obtain u where td: "then_do (run_batch env out n1) (pop_and_process env) = (Inr u, n')"
      using turn False b s False' by (cases "then_do (run_batch env out n1) (pop_and_process env)";
          cases "fst (then_do (run_batch env out n1) (pop_and_process env))") (auto simp: normal_turn_def turn_of_def)
    then obtain n2 v where rb: "run_batch env out n1 = (Inr v, n2)" and pp: "pop_and_process env n2 = (Inr u, n')"
      unfolding then_do_ok by blast
    obtain out' ready ro where r: "n_result_queue n2 = n_result_queue n1 @ [\<lparr>br_output = out', br_runner_out = ro, br_ready = ready\<rparr>]"
      "ne_exec env out' ready (n_reqs n1) = Inr ro" "no_masks out \<longrightarrow> no_masks out'" "n_reqs n2 = n_reqs n1" "n_role n2 = n_role n1"
      by (rule run_batch_result [OF rb])
    have si: "sched_inv out n1" using schedule_sched_inv [OF inv s] False' by simp
    note i2 = run_batch_inv [OF si rb]
    have ans: "answers (net_config m) ro x r'" if "n_reqs n2 x = Some r'" for x r'
      using runner_exec_answers [of m out' ready "n_reqs n1" ro x] r f that ex by (auto simp: answers_def get_list_def)
    have "all_greedy (net_config m) n'"
      by (rule pop_greedy [OF i2 _ _ _ _ pp, where b = "\<lparr>br_output = out', br_runner_out = ro, br_ready = ready\<rparr>"])
        (use r g1 ans in \<open>simp_all add: use_runner_tokens_def all_greedy_def\<close>)
    moreover have "n_result_queue n' = []" "n_role n' = n_role n2"
      using pop_and_process_inv [OF i2 pp] r(1) g1(3) by simp_all
    ultimately show ?thesis using r(5) g1(2) by (simp add: use_runner_tokens_def)
  qed
qed

end

end
