(* ===== verification/Model_Runner_Steps.thy ===== *)
theory Model_Runner_Steps
  imports Model_Runner_Laws
begin

text \<open>
  The runner and the scheduler together: a step that the scheduler composes is executed without a raise and answers
  the model's token for every decoding request, and over every history of the normal loop a request is decoded
  greedily from its own text.
\<close>

section \<open>The batch of a step\<close>

lemma batch_ids:
  "ib_req_ids (fold (batch_row out host) es empty_batch) = map fst (filter (\<lambda>(rid, k). 0 < k \<and> host rid \<noteq> None) es)"
proof (induction es rule: rev_induct)
  case (snoc e es)
  obtain x j where e: "e = (x, j)" by (rule prod.exhaust)
  show ?case using snoc by (auto simp: e batch_row_def split: option.splits prod.splits)
qed (simp add: empty_batch_def)

lemma batch_rows:
  assumes "distinct (dict_keys es)" "(rid, k) \<in> set es" "0 < k" "host rid = Some r" "row_of out rid k r = (toks, qs, qe, p)"
  shows "ib_token_ids (fold (batch_row out host) es empty_batch) rid = Some toks
    \<and> ib_query_start (fold (batch_row out host) es empty_batch) rid = Some qs
    \<and> ib_query_end (fold (batch_row out host) es empty_batch) rid = Some qe
    \<and> ib_is_prompt_phase (fold (batch_row out host) es empty_batch) rid = Some p"
  using assms(1,2)
proof (induction es rule: rev_induct)
  case (snoc e es)
  obtain x j where e: "e = (x, j)" by (rule prod.exhaust)
  have fresh: "x \<notin> fst ` set es" and d: "distinct (dict_keys es)" using snoc.prems(1) by (simp_all add: e)
  show ?case
  proof (cases "rid = x")
    case True
    then have "(rid, k) \<notin> set es" using fresh by force
    then have "k = j" using snoc.prems(2) by (auto simp: e)
    then show ?thesis using assms(3-5) True by (simp add: e batch_row_def)
  next
    case False
    then have "(rid, k) \<in> set es" using snoc.prems(2) by (auto simp: e)
    from snoc.IH [OF d this] show ?thesis
      using False by (auto simp: e batch_row_def split: option.splits prod.splits)
  qed
qed simp

text \<open>A step whose rows fit: ranges as wide as the number of tokens, prompt chunks inside the prompt, and slots, where
  the agent gives them, one per token.\<close>

definition row_fits :: "scheduler_output \<Rightarrow> ready_handle \<Rightarrow> (string \<rightharpoonup> req) \<Rightarrow> string \<Rightarrow> int \<Rightarrow> bool" where
  "row_fits out ready host rid k \<longleftrightarrow> 0 < k \<and> (\<exists>r qs. host rid = Some r
     \<and> map_of (req_query_start out) rid = Some qs \<and> map_of (req_query_end out) rid = Some (qs + k) \<and> 0 \<le> qs
     \<and> (dict_get (req_num_computed_at_schedule out) rid (num_computed_tokens r) < py_len (prompt_token_ids r)
          \<longrightarrow> qs + k \<le> py_len (prompt_token_ids r))
     \<and> (case slot_mapping_by_req ready rid of None \<Rightarrow> True | Some ss \<Rightarrow> py_len ss = k))"

definition step_fits :: "scheduler_output \<Rightarrow> ready_handle \<Rightarrow> (string \<rightharpoonup> req) \<Rightarrow> bool" where
  "step_fits out ready host \<longleftrightarrow> distinct (dict_keys (num_scheduled_tokens out))
     \<and> (\<forall>(rid, k) \<in> set (num_scheduled_tokens out). row_fits out ready host rid k)
     \<and> length (num_scheduled_tokens out) \<le> 64 \<and> sum_list (dict_vals (num_scheduled_tokens out)) \<le> 8192"

lemma padded_take: "0 \<le> q \<Longrightarrow> py_len (py_take q (toks @ replicate (nat (q - py_len toks)) pad)) = q"
  by (auto simp: min_def)

lemma row_of_fits:
  assumes "map_of (req_query_start out) rid = Some qs" "map_of (req_query_end out) rid = Some (qs + k)" "0 \<le> qs" "0 < k"
    "dict_get (req_num_computed_at_schedule out) rid (num_computed_tokens r) < py_len (prompt_token_ids r)
       \<longrightarrow> qs + k \<le> py_len (prompt_token_ids r)"
  shows "\<exists>toks. row_of out rid k r = (toks, qs, qs + k,
      dict_get (req_num_computed_at_schedule out) rid (num_computed_tokens r) < py_len (prompt_token_ids r)) \<and> py_len toks = qs + k"
proof (cases "dict_get (req_num_computed_at_schedule out) rid (num_computed_tokens r) < py_len (prompt_token_ids r)")
  case True
  then show ?thesis using assms by (simp add: row_of_def Let_def)
next
  case False
  let ?toks = "all_token_ids r @ py_take (max 0 (k - 1))
    (case scheduled_spec_decode_tokens out of None \<Rightarrow> [] | Some d \<Rightarrow> get_list (map_of d) rid)"
  let ?row = "py_take (qs + k) (?toks @ replicate (nat (qs + k - py_len ?toks)) (if ?toks = [] then 0 else last ?toks))"
  have row: "row_of out rid k r = (?row, qs, qs + k, False)"
    unfolding row_of_def Let_def if_not_P [OF False] assms(1,2) by (simp only: option.case)
  have "py_len ?row = qs + k" by (rule padded_take) (use assms(3,4) in simp)
  then show ?thesis unfolding row using False by (intro exI [of _ ?row] conjI) (simp only: False, assumption)
qed

lemma step_fits_rows:
  assumes "step_fits out ready host" "(rid, k) \<in> set (num_scheduled_tokens out)"
  obtains r toks qs where "host rid = Some r" "0 < k" "0 \<le> qs" "py_len toks = qs + k"
    "ib_token_ids (build_batch out host) rid = Some toks" "ib_query_start (build_batch out host) rid = Some qs"
    "ib_query_end (build_batch out host) rid = Some (qs + k)"
    "ib_is_prompt_phase (build_batch out host) rid =
       Some (dict_get (req_num_computed_at_schedule out) rid (num_computed_tokens r) < py_len (prompt_token_ids r))"
    "case slot_mapping_by_req ready rid of None \<Rightarrow> True | Some ss \<Rightarrow> py_len ss = k"
proof -
  have d: "distinct (dict_keys (num_scheduled_tokens out))" and "row_fits out ready host rid k"
    using assms by (auto simp: step_fits_def)
  then obtain r qs where r: "0 < k" "host rid = Some r" "map_of (req_query_start out) rid = Some qs"
    "map_of (req_query_end out) rid = Some (qs + k)" "0 \<le> qs"
    "dict_get (req_num_computed_at_schedule out) rid (num_computed_tokens r) < py_len (prompt_token_ids r)
       \<longrightarrow> qs + k \<le> py_len (prompt_token_ids r)"
    "case slot_mapping_by_req ready rid of None \<Rightarrow> True | Some ss \<Rightarrow> py_len ss = k"
    unfolding row_fits_def by blast
  obtain toks where t: "row_of out rid k r = (toks, qs, qs + k,
      dict_get (req_num_computed_at_schedule out) rid (num_computed_tokens r) < py_len (prompt_token_ids r))" "py_len toks = qs + k"
    using row_of_fits [OF r(3,4,5,1,6)] by blast
  show ?thesis
    using that [OF r(2,1,5) t(2)] batch_rows [where host = host, OF d assms(2) r(1,2) t(1)] r(7) unfolding build_batch_def by blast
qed

lemma step_fits_ids:
  assumes "step_fits out ready host"
  shows "ib_req_ids (build_batch out host) = dict_keys (num_scheduled_tokens out)"
proof -
  have "filter (\<lambda>(rid, k). 0 < k \<and> host rid \<noteq> None) (num_scheduled_tokens out) = num_scheduled_tokens out"
    by (rule filter_True) (auto elim!: step_fits_rows [OF assms])
  then show ?thesis by (simp add: build_batch_def batch_ids)
qed

lemma step_fits_tokens:
  assumes "step_fits out ready host"
  shows "int (length (concat (map (row_tokens (build_batch out host)) (dict_keys (num_scheduled_tokens out)))))
    = sum_list (dict_vals (num_scheduled_tokens out))"
proof -
  have row: "py_len (row_tokens (build_batch out host) rid) = k" if "(rid, k) \<in> set (num_scheduled_tokens out)" for rid k
    by (rule step_fits_rows [OF assms that]) (auto simp: row_tokens_def row_start_def)
  have "int (length (concat (map (row_tokens (build_batch out host)) (dict_keys es)))) = sum_list (dict_vals es)"
    if "set es \<subseteq> set (num_scheduled_tokens out)" for es
    using that
  proof (induction es)
    case (Cons e es)
    then have "py_len (row_tokens (build_batch out host) (fst e)) = snd e" using row [of "fst e" "snd e"] by simp
    then show ?case using Cons by simp
  qed simp
  then show ?thesis by blast
qed

text \<open>What the runner needs of a batch.\<close>

definition batch_fits :: "input_batch \<Rightarrow> ready_handle \<Rightarrow> bool" where
  "batch_fits b ready \<longleftrightarrow> list_all (row_ok (slot_mapping_by_req ready) b) (ib_req_ids b) \<and> py_len (ib_req_ids b) \<le> 64
     \<and> py_len (concat (map (row_tokens b) (ib_req_ids b))) \<le> 8192"

lemma step_fits_batch:
  assumes "step_fits out ready host"
  shows "batch_fits (build_batch out host) ready"
proof -
  have "row_ok (slot_mapping_by_req ready) (build_batch out host) rid" if "(rid, k) \<in> set (num_scheduled_tokens out)" for rid k
    by (rule step_fits_rows [OF assms that]) (auto simp: row_ok_def split: option.splits)
  then have "list_all (row_ok (slot_mapping_by_req ready) (build_batch out host)) (ib_req_ids (build_batch out host))"
    by (auto simp: step_fits_ids [OF assms] list_all_iff)
  then show ?thesis
    using assms step_fits_ids [OF assms] step_fits_tokens [OF assms] by (auto simp: batch_fits_def step_fits_def)
qed

section \<open>A step that fits is executed\<close>

lemma map_res_all_ok: "(\<And>x. x \<in> set xs \<Longrightarrow> \<exists>y. f x = Inr y) \<Longrightarrow> \<exists>ys. map_res f xs = Inr ys"
proof (induction xs)
  case (Cons x xs)
  obtain y where "f x = Inr y" using Cons.prems [of x] by auto
  moreover obtain ys where "map_res f xs = Inr ys" using Cons.IH Cons.prems by auto
  ultimately show ?case by simp
qed simp

lemma map_res_keys: "map_res f xs = Inr ys \<Longrightarrow> (\<And>x y. f x = Inr y \<Longrightarrow> fst y = x) \<Longrightarrow> dict_keys ys = xs"
  by (induction xs arbitrary: ys) (auto simp: bind_res_Inr_iff)

lemma attn_rows_buffered: "\<exists>a'. attn_rows sl qs qe True slots rids a = Inr a'"
  by (induction rids arbitrary: a) (simp_all add: attn_row_def Let_def)

lemma prepare_attn_fits:
  assumes "batch_fits b ready" "runner_ok r"
  shows "\<exists>m. fst (prepare_attn b ready r) = Inr m"
proof -
  let ?ends = "\<lambda>rid. case ib_query_end b rid of None \<Rightarrow> Inl KeyError | Some e \<Rightarrow> Inr (rid, e)"
  have "\<exists>y. ?ends rid = Inr y" if "rid \<in> set (ib_req_ids b)" for rid
    using assms(1) that by (auto simp: batch_fits_def list_all_iff row_ok_def split: option.splits)
  then obtain ends where e: "map_res ?ends (ib_req_ids b) = Inr ends" using map_res_all_ok [of "ib_req_ids b" ?ends] by blast
  have "fst (materialize b (slot_mapping_by_req ready) (mr_input_buffers r)) = Inr ()"
    by (rule materialize_fits) (use assms in \<open>simp_all add: batch_fits_def runner_ok_def\<close>)
  then obtain x b' where m: "materialize b (slot_mapping_by_req ready) (mr_input_buffers r) = (Inr x, b')"
    by (metis prod.collapse)
  obtain a where "attn_rows (dict_update [] ends) (ib_query_start b) (ib_query_end b) True Map.empty
      (if ib_req_ids b = [] then dict_keys (dict_update [] ends) else ib_req_ids b)
      \<lparr>ac_qsl = [0], ac_max_seq = 0, ac_max_q = 0, ac_slots = [], ac_positions = []\<rparr> = Inr a"
    using attn_rows_buffered by blast
  then show ?thesis using e m by (simp add: prepare_attn_def build_attn_metadata_def Let_def)
qed

text \<open>A batch that fits is answered without a look at the buffers; this is also how a step is evaluated.\<close>

lemma runner_exec_batch [code]:
  "runner_exec backend model out ready host =
    (if rh_step_id ready \<noteq> step_id out then Inl RuntimeError
     else if batch_fits (build_batch out host) ready then
       bind_res (if backend = ''qwen3'' then forward_model model out host (build_batch out host)
                 else Inr (placeholder_tokens out host (build_batch out host), Map.empty)) (\<lambda>(toks, drafts).
         Inr \<lparr>mro_step_id = step_id out, next_token_ids = toks, next_draft_tokens = drafts, mro_model_backend = backend\<rparr>)
     else fst (execute_prepared out ready host (fresh_runner backend model)))"
proof (cases "batch_fits (build_batch out host) ready")
  case True
  let ?r = "(fresh_runner backend model)\<lparr>mr_input_batch := build_batch out host\<rparr>"
  have ok: "runner_ok ?r" "engine_of ?r = (backend, model)"
    using fresh_runner_ok [of backend model] by (simp_all add: runner_ok_def engine_of_def)
  obtain x q where p: "prepare_attn (build_batch out host) ready ?r = (Inr x, q)"
    using prepare_attn_fits [OF True ok(1)] by (metis prod.collapse)
  have "mr_backend q = backend" "mr_model q = model"
    using prepare_attn_keeps [OF ok(1), of "build_batch out host" ready] p ok(2) by (simp_all add: engine_of_def)
  then show ?thesis
    using p True by (simp add: runner_exec_def execute_model_def execute_prepared_def prepare_inputs_def bind_st_def Let_def)
qed (simp add: runner_exec_def execute_model_def)

text \<open>A model that can decode, and a step without masks, deferrals or drafts, as the scheduler composes them.\<close>

definition model_ok :: "model_config \<Rightarrow> bool" where
  "model_ok cfg \<longleftrightarrow> 0 < vocab_size cfg \<and> bos_token_id cfg \<noteq> None"

definition plain_step :: "scheduler_output \<Rightarrow> bool" where
  "plain_step out \<longleftrightarrow> scheduled_spec_decode_tokens out = None
     \<and> (case grammar_out out of None \<Rightarrow> True | Some g \<Rightarrow> token_bitmask_by_req g = [] \<and> deferred_req_ids g = [])"

lemma dummy_token_ok: "model_ok cfg \<Longrightarrow> dummy_model_token cfg ctx = Inr (model_token cfg ctx)"
  by (cases "ctx = []") (auto simp: model_ok_def dummy_model_token_def model_token_def)

lemma dummy_logits_ok:
  assumes "model_ok cfg"
  shows "\<exists>l k. dummy_model_logits cfg ctx = Inr l \<and> greedy_sample l = Inr k"
proof -
  let ?t = "model_token cfg ctx"
  have v: "0 < vocab_size cfg" using assms by (simp add: model_ok_def)
  have "?t = (if ctx = [] then the (bos_token_id cfg) + py_len ctx + num_hidden_layers cfg
      else last ctx + py_len ctx + num_hidden_layers cfg) mod vocab_size cfg"
    using assms by (auto simp: model_ok_def dummy_model_token_def model_token_def)
  then have "0 \<le> ?t" "?t < vocab_size cfg" using v by simp_all
  then have l: "dummy_model_logits cfg ctx = Inr ((replicate (nat (vocab_size cfg)) (Some 0))[nat ?t := Some 1])"
    by (simp add: dummy_model_logits_def dummy_token_ok [OF assms])
  have "(replicate (nat (vocab_size cfg)) (Some 0))[nat ?t := Some (1 :: int)] \<noteq> []" using v by simp
  from greedy_sample_first_max [OF this] l show ?thesis by blast
qed

lemma sample_loop_all:
  assumes "\<And>rid l. (rid, l) \<in> set ls \<Longrightarrow> host rid \<noteq> None \<and> (\<exists>k. greedy_sample l = Inr k)"
  shows "\<exists>toks'. sample_loop host {} [] ls toks = Inr toks' \<and> dom toks' = dom toks \<union> set (dict_keys ls)"
  using assms
proof (induction ls arbitrary: toks)
  case (Cons p ls)
  obtain rid l where p: "p = (rid, l)" by (rule prod.exhaust)
  obtain k where k: "host rid \<noteq> None" "greedy_sample l = Inr k" using Cons.prems [of rid l] by (auto simp: p)
  obtain toks' where "sample_loop host {} [] ls (toks(rid \<mapsto> [int k])) = Inr toks'"
    "dom toks' = dom (toks(rid \<mapsto> [int k])) \<union> set (dict_keys ls)"
    using Cons.IH [OF Cons.prems, of "toks(rid \<mapsto> [int k])"] by (meson list.set_intros(2))
  then show ?case using k by (auto simp: p)
qed simp

lemma dict_update_fresh: "distinct (dict_keys (d @ e)) \<Longrightarrow> dict_update d e = d @ e"
proof (induction e arbitrary: d)
  case (Cons p e)
  obtain k v where p: "p = (k, v)" by (rule prod.exhaust)
  have "dict_set k v d = d @ [(k, v)]" using Cons.prems by (intro dict_set_fresh) (auto simp: p)
  then show ?case using Cons.IH [of "d @ [(k, v)]"] Cons.prems by (simp add: p dict_update_def)
qed (simp add: dict_update_def)

lemma forward_fits:
  assumes "step_fits out ready host" "model_ok (net_config m)" "plain_step out"
  shows "\<exists>toks drafts. forward_model (Some m) out host (build_batch out host) = Inr (toks, drafts)
    \<and> dom toks = {rid \<in> set (dict_keys (num_scheduled_tokens out)). decoding host (build_batch out host) rid}"
proof -
  let ?b = "build_batch out host" and ?ids = "filter (decoding host (build_batch out host)) (ib_req_ids (build_batch out host))"
  let ?f = "\<lambda>rid. bind_res (dummy_model_logits (net_config m) (all_token_ids (the (host rid)))) (\<lambda>l. Inr (rid, l))"
  have f: "\<exists>l. ?f rid = Inr (rid, l) \<and> (\<exists>k. greedy_sample l = Inr k)" for rid
    using dummy_logits_ok [OF assms(2), of "all_token_ids (the (host rid))"] by auto
  obtain ls where ls: "map_res ?f ?ids = Inr ls" using map_res_all_ok [of ?ids ?f] f by blast
  have keys: "dict_keys ls = ?ids" by (rule map_res_keys [OF ls]) (auto simp: bind_res_Inr_iff)
  have d: "distinct (dict_keys ls)" using assms(1) unfolding keys step_fits_ids [OF assms(1)] by (simp add: step_fits_def)
  have "host rid \<noteq> None \<and> (\<exists>k. greedy_sample l = Inr k)" if e: "(rid, l) \<in> set ls" for rid l
  proof
    have "rid \<in> set ?ids" using keys e by (metis image_eqI fst_conv set_map)
    then show "host rid \<noteq> None" by (simp add: decoding_def)
    obtain x where "?f x = Inr (rid, l)" using map_res_set [OF ls e] by blast
    then show "\<exists>k. greedy_sample l = Inr k" using f [of x] by auto
  qed
  then obtain toks where "sample_loop host {} [] ls Map.empty = Inr toks" "dom toks = dom Map.empty \<union> set (dict_keys ls)"
    using sample_loop_all [of ls host Map.empty] by blast
  then show ?thesis
    using assms(3) ls dict_update_fresh [of "[]" ls] d keys step_fits_ids [OF assms(1)]
    by (auto simp: forward_model_def sample_tokens_def plain_step_def split: option.splits)
qed

lemma runner_exec_fits:
  assumes "step_fits out ready host" "model_ok (net_config m)" "plain_step out" "rh_step_id ready = step_id out"
  shows "\<exists>ro. runner_exec ''qwen3'' (Some m) out ready host = Inr ro
    \<and> dom (next_token_ids ro) = {rid \<in> set (dict_keys (num_scheduled_tokens out)). decoding host (build_batch out host) rid}"
  using forward_fits [OF assms(1-3)] step_fits_batch [OF assms(1)] assms(4) by (auto simp: runner_exec_batch)

text \<open>The answer, entry by entry.\<close>

lemma step_answers:
  assumes "step_fits out ready host" "model_ok (net_config m)" "plain_step out" "rh_step_id ready = step_id out"
  shows "\<exists>ro. runner_exec ''qwen3'' (Some m) out ready host = Inr ro \<and>
    (\<forall>(rid, k) \<in> set (num_scheduled_tokens out). \<exists>r. host rid = Some r \<and> next_token_ids ro rid =
      (if dict_get (req_num_computed_at_schedule out) rid (num_computed_tokens r) < py_len (prompt_token_ids r) then None
       else Some [model_token (net_config m) (all_token_ids r)]))"
proof -
  obtain ro where ro: "runner_exec ''qwen3'' (Some m) out ready host = Inr ro"
    and d: "dom (next_token_ids ro) = {rid \<in> set (dict_keys (num_scheduled_tokens out)). decoding host (build_batch out host) rid}"
    using runner_exec_fits [OF assms] by blast
  have "\<exists>r. host rid = Some r \<and> next_token_ids ro rid =
      (if dict_get (req_num_computed_at_schedule out) rid (num_computed_tokens r) < py_len (prompt_token_ids r) then None
       else Some [model_token (net_config m) (all_token_ids r)])" if e: "(rid, k) \<in> set (num_scheduled_tokens out)" for rid k
  proof -
    obtain r where r: "host rid = Some r" and ph: "ib_is_prompt_phase (build_batch out host) rid =
        Some (dict_get (req_num_computed_at_schedule out) rid (num_computed_tokens r) < py_len (prompt_token_ids r))"
      by (rule step_fits_rows [OF assms(1) e])
    have "rid \<in> set (dict_keys (num_scheduled_tokens out))" using e by force
    then have "rid \<in> dom (next_token_ids ro) \<longleftrightarrow>
        \<not> dict_get (req_num_computed_at_schedule out) rid (num_computed_tokens r) < py_len (prompt_token_ids r)"
      using d r ph by (simp add: decoding_def)
    moreover have "no_masks out" using assms(3) by (auto simp: plain_step_def no_masks_def split: option.splits)
    ultimately show ?thesis
      using runner_exec_answers [OF ro, of rid] r dummy_token_ok [OF assms(2)] by auto
  qed
  then show ?thesis using ro by blast
qed

section \<open>Steps of the scheduler fit\<close>

lemma pass_a_spec: "pass_a n rids acc = Inr acc' \<Longrightarrow> sa_spec acc' = sa_spec acc"
  by (induction n rids acc rule: pass_a.induct)
    (auto simp: pass_a_req_def spec_enabled_def Let_def split: if_splits option.splits)

lemma pass_b_spec: "pass_b n rids acc = Inr acc' \<Longrightarrow> sa_spec acc' = sa_spec acc"
  by (induction n rids acc rule: pass_b.induct)
    (auto simp: pass_b_req_def Let_def split: if_splits option.splits)

lemma schedule_plain: "schedule n = (Inr out, n') \<Longrightarrow> plain_step out"
  by (auto simp: schedule_def sched_passes_def build_output_def mk_scheduler_output_def plain_step_def Let_def
      bind_res_Inr_iff acc_init_def dest!: pass_a_spec pass_b_spec split: prod.splits sum.splits if_splits)

definition slots_ok :: "scheduler_output \<Rightarrow> ready_handle \<Rightarrow> bool" where
  "slots_ok out ready \<longleftrightarrow> (\<forall>(rid, k) \<in> set (num_scheduled_tokens out).
     case slot_mapping_by_req ready rid of None \<Rightarrow> True | Some ss \<Rightarrow> py_len ss = k)"

lemma schedule_fits:
  assumes inv: "node_inv n" and sch: "schedule n = (Inr out, n')" and sl: "slots_ok out ready"
    and lim: "max_running_reqs (n_role n) \<le> 64" "max_num_scheduled_tokens (n_role n) \<le> 8192"
  shows "step_fits out ready (n_reqs n)
    \<and> (\<forall>(rid, k) \<in> set (num_scheduled_tokens out). \<forall>r. n_reqs n rid = Some r \<longrightarrow>
        dict_get (req_num_computed_at_schedule out) rid (num_computed_tokens r) = num_computed_tokens r)"
proof -
  note p = node_invD(1) [OF inv]
  obtain es infl where n': "n' = (begin_step n)\<lparr>n_inflight_decode := infl\<rparr>" and s: "out_repr es out"
    "entries_ok (begin_step n) (n_inflight_decode n)
       (max 0 (max_num_scheduled_tokens (n_role n))) (set (n_running (begin_step n))) es"
    by (rule schedule_spec [OF pending_invD(3) [OF p]]) (use sch in auto)
  have dist: "distinct (map se_rid es)" and sum: "se_sum es \<le> max 0 (max_num_scheduled_tokens (n_role n))"
    and sub: "se_rid ` set es \<subseteq> set (n_running n')" using s(2) by (simp_all add: entries_ok_def n')
  have run: "py_len (n_running n') \<le> max 0 (max_running_reqs (n_role n'))"
    using schedule_sched_inv [OF inv sch] by (simp add: sched_inv_def)
  have "length es = card (se_rid ` set es)" using distinct_card [OF dist] by simp
  also have "\<dots> \<le> length (n_running n')" using card_mono [OF _ sub] card_length [of "n_running n'"] by (meson List.finite_set order_trans)
  finally have len: "length es \<le> 64" using run lim(1) by (simp add: n' begin_step_queues)
  have entry: "row_fits out ready (n_reqs n) (se_rid e) (se_k e)
      \<and> (\<forall>r. n_reqs n (se_rid e) = Some r \<longrightarrow>
           dict_get (req_num_computed_at_schedule out) (se_rid e) (num_computed_tokens r) = num_computed_tokens r)"
    if e: "e \<in> set es" for e
  proof -
    obtain r where r: "n_reqs n (se_rid e) = Some r" "se_computed e = num_computed_tokens r"
      "decode_ok (begin_step n) (n_inflight_decode n) e r \<or> extend_ok (begin_step n) e r"
      using s(2) e by (auto simp: entries_ok_def entry_ok_def)
    have ri: "req_inv n (se_rid e) r (pend (se_rid e) (pending_of n))" using pending_invD(1) [OF p r(1)] by simp
    have pos: "0 \<le> se_qs e" "0 < se_k e" using r(3) ri
      by (auto simp: decode_ok_def extend_ok_def req_inv_def phase_ok_def Let_def split: if_splits)
    have maps: "map_of (req_query_start out) (se_rid e) = Some (se_qs e)"
      "map_of (req_query_end out) (se_rid e) = Some (se_qs e + se_k e)"
      "map_of (req_num_computed_at_schedule out) (se_rid e) = Some (se_computed e)"
      using s(1) map_of_entries [OF dist e] by (simp_all add: out_repr_def)
    have "(se_rid e, se_k e) \<in> set (num_scheduled_tokens out)" using s(1) e by (auto simp: out_repr_def)
    then have "case slot_mapping_by_req ready (se_rid e) of None \<Rightarrow> True | Some ss \<Rightarrow> py_len ss = se_k e"
      using sl by (auto simp: slots_ok_def)
    moreover have "se_computed e < py_len (prompt_token_ids r) \<longrightarrow> se_qs e + se_k e \<le> py_len (prompt_token_ids r)"
      using r(2,3) by (auto simp: decode_ok_def extend_ok_def)
    ultimately show ?thesis using r pos maps by (auto simp: row_fits_def dict_get_def)
  qed
  have "\<forall>(rid, k) \<in> set (num_scheduled_tokens out). row_fits out ready (n_reqs n) rid k \<and> (\<forall>r. n_reqs n rid = Some r \<longrightarrow>
      dict_get (req_num_computed_at_schedule out) rid (num_computed_tokens r) = num_computed_tokens r)"
    using s(1) entry by (auto simp: out_repr_def)
  then show ?thesis using s(1) dist len sum lim(2) by (auto simp: step_fits_def out_repr_def comp_def)
qed

text \<open>
  C10. Every step the scheduler composes is executed: with limits within the sizes of the static buffers and slots, where
  given, one per token, the runner never raises, answers the model's token for the text of every decoding request,
  and answers nothing for a prompt chunk.
\<close>

theorem scheduled_step_executes:
  assumes "node_inv n" "schedule n = (Inr out, n')" "max_running_reqs (n_role n) \<le> 64"
    "max_num_scheduled_tokens (n_role n) \<le> 8192" "slots_ok out ready" "rh_step_id ready = step_id out"
    "model_ok (net_config m)"
  shows "\<exists>ro. runner_exec ''qwen3'' (Some m) out ready (n_reqs n') = Inr ro \<and>
    (\<forall>(rid, k) \<in> set (num_scheduled_tokens out). \<exists>r. n_reqs n rid = Some r \<and> next_token_ids ro rid =
      (if num_computed_tokens r < py_len (prompt_token_ids r) then None
       else Some [model_token (net_config m) (all_token_ids r)]))"
proof -
  have reqs: "n_reqs n' = n_reqs n" using schedule_frame(2) [of n] assms(2) by simp
  note f = schedule_fits [OF assms(1,2,5,3,4)]
  obtain ro where ro: "runner_exec ''qwen3'' (Some m) out ready (n_reqs n) = Inr ro"
    and a: "\<forall>(rid, k) \<in> set (num_scheduled_tokens out). \<exists>r. n_reqs n rid = Some r \<and> next_token_ids ro rid =
      (if dict_get (req_num_computed_at_schedule out) rid (num_computed_tokens r) < py_len (prompt_token_ids r) then None
       else Some [model_token (net_config m) (all_token_ids r)])"
    using step_answers [OF conjunct1 [OF f] assms(7) schedule_plain [OF assms(2)] assms(6)] by blast
  have "\<exists>r. n_reqs n rid = Some r \<and> next_token_ids ro rid =
      (if num_computed_tokens r < py_len (prompt_token_ids r) then None
       else Some [model_token (net_config m) (all_token_ids r)])" if e: "(rid, k) \<in> set (num_scheduled_tokens out)" for rid k
  proof -
    obtain r where r: "n_reqs n rid = Some r" and t: "next_token_ids ro rid =
      (if dict_get (req_num_computed_at_schedule out) rid (num_computed_tokens r) < py_len (prompt_token_ids r) then None
       else Some [model_token (net_config m) (all_token_ids r)])"
      using a e by blast
    have "dict_get (req_num_computed_at_schedule out) rid (num_computed_tokens r) = num_computed_tokens r"
      using f e r by blast
    then show ?thesis using r t by simp
  qed
  then show ?thesis using ro unfolding reqs by blast
qed

section \<open>Greedy decoding over every history of the normal loop\<close>

inductive normal_step ::
  "('a, ('a, 'm) node_scheme) node_env \<Rightarrow> ('a, 'm) node_scheme \<Rightarrow> ('a, 'm) node_scheme \<Rightarrow> bool"
  for env where
  normal_add: "fresh_req r \<Longrightarrow> hint_ok h \<Longrightarrow> add_request r h n = (Inr (), n') \<Longrightarrow> normal_step env n n'"
| normal_run: "normal_turn env n = Again n' \<or> normal_turn env n = Leave n' \<Longrightarrow> normal_step env n n'"
| normal_release: "n_reqs n rid = Some r \<Longrightarrow> finished r \<Longrightarrow> release_req rid n = (x, n') \<Longrightarrow> normal_step env n n'"

lemma normal_step_node: "normal_step env n n' \<Longrightarrow> node_step env n n'"
  by (induction rule: normal_step.induct) (auto intro: node_step.intros)

lemma add_request_greedy:
  assumes "add_request r h n = (Inr (), n')" "output_token_ids r = []" "all_greedy cfg n"
  shows "all_greedy cfg n' \<and> n_result_queue n' = n_result_queue n \<and> n_role n' = n_role n"
  using assms by (auto simp: add_request_def admit_hint_def all_greedy_def greedy_req_def Let_def apply_prefix_hint_def
      split: if_splits option.splits)

lemma normal_history_greedy:
  assumes "node_services env" "ne_exec env = runner_exec ''qwen3'' (Some m)" "ne_before_schedule env = None"
    "(normal_step env)\<^sup>*\<^sup>* (node_init pool role) n" "model_backend role = ''qwen3''"
  shows "node_inv n \<and> n_result_queue n = [] \<and> use_runner_tokens n \<and> all_greedy (net_config m) n"
  using assms(4)
proof (induction rule: rtranclp_induct)
  case base
  show ?case using assms(5) node_inv_init by (simp add: node_init_def use_runner_tokens_def all_greedy_def node_inv_init [unfolded node_init_def])
next
  case (step n n')
  have inv: "node_inv n'" using node_services.node_step_inv [OF assms(1) normal_step_node [OF step(2)]] step(3) by blast
  from step(2) show ?case
  proof cases
    case (normal_add r h)
    then have "all_greedy (net_config m) n' \<and> n_result_queue n' = n_result_queue n \<and> n_role n' = n_role n"
      by (intro add_request_greedy [OF normal_add(3)]) (use step(3) in \<open>simp_all add: fresh_req_def\<close>)
    then show ?thesis using step(3) inv by (simp add: use_runner_tokens_def)
  next
    case normal_run
    then show ?thesis using node_services.normal_turn_greedy [OF assms(1-3)] step(3) inv by blast
  next
    case (normal_release rid r x)
    then have "n' = n\<lparr>n_reqs := (n_reqs n)(rid := None)\<rparr>" by (simp add: release_req_def)
    then show ?thesis using step(3) inv by (auto simp: all_greedy_def use_runner_tokens_def split: if_splits)
  qed
qed

text \<open>
  C9. In the normal loop every request is decoded greedily from its own text: whatever is batched with it, however its
  prompt is chunked and whatever the storage agent drops, its output is at every point what the runner's model decodes
  alone from its prompt, and it is finished exactly with as many tokens as it asked for.
\<close>

theorem normal_loop_decodes_greedily:
  assumes "node_services env" "ne_exec env = runner_exec ''qwen3'' (Some m)" "ne_before_schedule env = None"
    "model_backend role = ''qwen3''" "(normal_step env)\<^sup>*\<^sup>* (node_init pool role) n" "n_reqs n rid = Some r"
  shows "output_token_ids r = target_decode (model_token (net_config m)) (prompt_token_ids r) (length (output_token_ids r))
    \<and> (finished r \<longleftrightarrow> num_output_tokens r = max_new_tokens (req_sampling r))"
proof -
  have h: "node_inv n" "all_greedy (net_config m) n" using normal_history_greedy [OF assms(1-3,5,4)] by blast+
  have "req_inv n rid r (pend rid (pending_of n))" using pending_invD(1) [OF node_invD(1) [OF h(1)] assms(6)] by blast
  then show ?thesis using h(2) assms(6) by (auto simp: all_greedy_def greedy_req_def req_inv_def split: if_splits)
qed

section \<open>A concrete model\<close>

definition tiny_net :: net where
  "tiny_net = \<lparr>net_config = \<lparr>vocab_size = 10, bos_token_id = Some 0, num_hidden_layers = 1, architectures = []\<rparr>,
     net_state_dict = [], loaded_weights = {}, loaded_dummy_weights = True\<rparr>"

definition qwen_env :: "net \<Rightarrow> (mem_agent, mem_agent node) node_env" where
  "qwen_env m = \<lparr>ne_ops = in_memory_agent, ne_exec = runner_exec ''qwen3'' (Some m), ne_on_finished = None,
     ne_before_schedule = None, ne_should_stop = None\<rparr>"

lemma qwen_env_services: "node_services (qwen_env m)"
  by unfold_locales (auto simp: qwen_env_def intro: runner_exec_bounded)

interpretation qwen_node: node_services "qwen_env m" for m
  by (rule qwen_env_services)

definition qwen_req :: req where
  "qwen_req = (case build_req_from_generate ''a'' ''m'' [5, 7] 2 ''w'' of Inr r \<Rightarrow> r)"

definition qwen_role :: role_config where
  "qwen_role = default_role_config\<lparr>model_backend := ''qwen3'', max_num_scheduled_tokens := 4\<rparr>"

definition qwen_start :: "mem_agent node" where
  "qwen_start = node_init (pool_init mem_init 0 False) qwen_role"

definition qwen_added :: "mem_agent node" where
  "qwen_added = snd (add_request qwen_req None qwen_start)"

text \<open>Turns that all ask for another one.\<close>

primrec again_run :: "nat \<Rightarrow> ('s \<Rightarrow> 's turn) \<Rightarrow> 's \<Rightarrow> 's option" where
  "again_run 0 f n = Some n"
| "again_run (Suc k) f n = (case f n of Leave n' \<Rightarrow> None | Raise e n' \<Rightarrow> None | Again n' \<Rightarrow> again_run k f n')"

lemma again_run_history: "again_run k (normal_turn env) n = Some n' \<Longrightarrow> (normal_step env)\<^sup>*\<^sup>* n n'"
proof (induction k arbitrary: n)
  case (Suc k)
  then obtain n1 where n1: "normal_turn env n = Again n1" "again_run k (normal_turn env) n1 = Some n'"
    by (auto split: turn.splits)
  show ?case by (rule converse_rtranclp_into_rtranclp [OF normal_run [OF disjI1 [OF n1(1)]] Suc.IH [OF n1(2)]])
qed simp

definition outputs_of :: "('a, 'm) node_scheme \<Rightarrow> (bool \<times> int list) option" where
  "outputs_of n = map_option (\<lambda>r. (finished r, output_token_ids r)) (n_reqs n ''a'')"

lemma qwen_add: "add_request qwen_req None qwen_start = (Inr (), qwen_added)"
  by (simp add: qwen_added_def qwen_start_def add_request_def Let_def node_init_def qwen_req_def
      build_req_from_generate_def qwen_role_def default_role_config_def)

lemma qwen_req_fresh: "fresh_req qwen_req"
  by (simp add: qwen_req_def build_req_from_generate_def fresh_req_def)

lemma qwen_run: "map_option outputs_of (again_run 3 (normal_turn (qwen_env tiny_net)) qwen_added) = Some (Some (True, [0, 4]))"
  by code_simp

theorem normal_loop_decodes_greedily_witness:
  "\<exists>n r. (normal_step (qwen_env tiny_net))\<^sup>*\<^sup>* qwen_start n \<and> n_reqs n ''a'' = Some r \<and> finished r
    \<and> output_token_ids r = target_decode (model_token (net_config tiny_net)) (prompt_token_ids r) (length (output_token_ids r))"
proof -
  obtain n where n: "again_run 3 (normal_turn (qwen_env tiny_net)) qwen_added = Some n" "outputs_of n = Some (True, [0, 4])"
    using qwen_run by blast
  obtain r where r: "n_reqs n ''a'' = Some r" "finished r" using n(2) by (auto simp: outputs_of_def)
  have "normal_step (qwen_env tiny_net) qwen_start qwen_added"
    by (rule normal_add [OF qwen_req_fresh _ qwen_add]) (simp add: hint_ok_def)
  then have h: "(normal_step (qwen_env tiny_net))\<^sup>*\<^sup>* qwen_start n"
    by (rule converse_rtranclp_into_rtranclp [OF _ again_run_history [OF n(1)]])
  show ?thesis
    using normal_loop_decodes_greedily [OF qwen_env_services _ _ _ h [unfolded qwen_start_def] r(1)] h r
    by (auto simp: qwen_env_def qwen_role_def)
qed

lemma qwen_added_inv: "node_inv qwen_added"
  using add_request_node_inv [OF node_inv_init qwen_req_fresh _ qwen_add [unfolded qwen_start_def]]
  by (simp add: hint_ok_def)

theorem scheduled_step_executes_witness:
  "\<exists>out ro. fst (schedule qwen_added) = Inr out
    \<and> runner_exec ''qwen3'' (Some tiny_net) out (empty_ready (step_id out)) (n_reqs (snd (schedule qwen_added))) = Inr ro"
proof -
  have "queues_ok qwen_added" using pending_invD(3) [OF node_invD(1) [OF qwen_added_inv]] .
  then obtain out n' where s: "schedule qwen_added = (Inr out, n')" by (rule schedule_spec) blast
  have role: "n_role qwen_added = qwen_role" using add_request_greedy [OF qwen_add, of "net_config tiny_net"]
    by (simp add: qwen_start_def node_init_def all_greedy_def qwen_req_def build_req_from_generate_def)
  have "model_ok (net_config tiny_net)" by (simp add: model_ok_def tiny_net_def)
  from scheduled_step_executes [OF qwen_added_inv s _ _ _ _ this, of "empty_ready (step_id out)"] show ?thesis
    using s by (auto simp: role qwen_role_def default_role_config_def slots_ok_def empty_ready_def)
qed


section \<open>Warm-up\<close>

lemma dummy_ids_distinct: "distinct (map dummy_id [0 .. k])"
  by (auto simp: distinct_map dummy_id_def inj_on_def)

lemma dummy_step_fits:
  fixes t :: int
  assumes "1 \<le> t" "distinct rids" "length rids \<le> 64"
  shows "step_fits (dummy_output sid t rids) (dummy_ready sid t rids) (map_of (map (\<lambda>rid. (rid, dummy_req name t rid)) rids))"
proof -
  have lookup: "map_of (map (\<lambda>rid. (rid, f rid)) rids) rid = Some (f rid)" if "rid \<in> set rids" for rid and f :: "string \<Rightarrow> 'b"
    using that by (induction rids) auto
  have sum: "sum_list (map (\<lambda>_. 1 :: int) rids) = int (length rids)" by (induction rids) simp_all
  have "row_fits (dummy_output sid t rids) (dummy_ready sid t rids) (map_of (map (\<lambda>rid. (rid, dummy_req name t rid)) rids)) rid 1"
    if "rid \<in> set rids" for rid
    unfolding row_fits_def
    by (intro conjI exI [of _ "dummy_req name t rid"] exI [of _ "t - 1"])
      (use assms(1) that in \<open>simp_all add: dummy_output_def dummy_ready_def lookup dict_get_def dummy_req_def\<close>)
  then show ?thesis using assms(2,3) by (auto simp: step_fits_def dummy_output_def comp_def sum)
qed

text \<open>Warming up a loaded runner with no more requests than its buffers hold succeeds and marks it as warmed.\<close>

lemma warmup_succeeds:
  assumes "runner_ok r" "mr_model_loaded r" "mr_backend r = ''qwen3''" "mr_model r = Some m" "model_ok (net_config m)" "num_reqs \<le> 64"
  shows "\<exists>out r'. warmup le num_reqs toks r = (Inr out, r') \<and> mr_model_warmed r' \<and> runner_ok r'"
proof -
  let ?rids = "map dummy_id [0 .. max 1 num_reqs - 1]" and ?t = "max 1 toks"
  let ?out = "dummy_output (- 1) ?t ?rids" and ?ready = "dummy_ready (- 1) ?t ?rids"
  let ?host = "map_of (map (\<lambda>rid. (rid, dummy_req (mr_served_model_name r) ?t rid)) ?rids)"
  have fits: "step_fits ?out ?ready ?host"
    by (rule dummy_step_fits) (use assms(6) dummy_ids_distinct in simp_all)
  have ids: "rh_step_id ?ready = step_id ?out" by (simp add: dummy_ready_def dummy_output_def mk_scheduler_output_def)
  have "plain_step ?out" by (simp add: plain_step_def dummy_output_def mk_scheduler_output_def)
  then obtain ro where "runner_exec ''qwen3'' (Some m) ?out ?ready ?host = Inr ro"
    using runner_exec_fits [OF fits assms(5) _ ids] by blast
  then have "fst (execute_model ?out ?ready ?host r) = Inr ro"
    using execute_model_same [OF fresh_runner_ok(1) assms(1), of "''qwen3''" "Some m" ?out ?ready ?host] assms(3,4) fresh_runner_ok(2)
    by (simp add: runner_exec_def engine_of_def)
  then obtain r1 where e: "execute_model ?out ?ready ?host r = (Inr ro, r1)" by (metis prod.collapse)
  then have "runner_ok r1" using execute_model_keeps [OF assms(1), of ?out ?ready ?host] by simp
  then show ?thesis
    using e ids assms(2) by (auto simp: warmup_def dummy_run_def Let_def bind_st_def execute_model_def runner_ok_def)
qed

end
