(* ===== verification/Grpc_Agent.thy ===== *)
theory Grpc_Agent
  imports Pool_Iface "HOL-Library.Word"
begin

text \<open>
  The storage agent over gRPC (\<^verbatim>\<open>engine/agents/grpc_skeleton.py\<close>): it hashes a prompt into a chain of blocks, asks
  the control plane which leading blocks are stored, fetches those and stores and registers the rest.

  The two services are a record of remote calls over a world of their own; a call answers or raises an RPC error. The
  SHA-256 function is a parameter. The agent walks a set of request ids, so the order of the walk is a parameter too.
\<close>

section \<open>Block hashes\<close>

type_synonym bytes = "8 word list"

definition BLOCK_SIZE :: int where
  "BLOCK_SIZE = 8"

text \<open>\<^verbatim>\<open>int(t).to_bytes(4, "little", signed=False)\<close>; \<open>None\<close> is the overflow error.\<close>

definition token_bytes :: "int \<Rightarrow> bytes option" where
  "token_bytes t =
    (if 0 \<le> t \<and> t < 2 ^ 32 then Some (map (\<lambda>i. word_of_int (t div 2 ^ (8 * i))) [0..<4]) else None)"

text \<open>What a call of the agent may raise: an RPC error, a \<^verbatim>\<open>RuntimeError\<close>, or anything else.\<close>

datatype ga_exn = GA_Rpc | GA_Runtime | GA_Other

fun chunk_bytes :: "int list \<Rightarrow> ga_exn + bytes" where
  "chunk_bytes [] = Inr []"
| "chunk_bytes (t # ts) = (case token_bytes t of
     None \<Rightarrow> Inl GA_Other
   | Some bs \<Rightarrow> bind_res (chunk_bytes ts) (\<lambda>r. Inr (bs @ r)))"

fun chain_from :: "(bytes \<Rightarrow> bytes) \<Rightarrow> nat \<Rightarrow> bytes \<Rightarrow> int list \<Rightarrow> ga_exn + bytes list" where
  "chain_from sha n parent [] = Inr []"
| "chain_from sha n parent (t # ts) =
    bind_res (chunk_bytes (take n (t # ts))) (\<lambda>bs.
      let digest = sha (parent @ bs) in
      bind_res (chain_from sha n digest (drop (n - 1) ts)) (\<lambda>hs. Inr (digest # hs)))"

text \<open>A step of zero makes \<^verbatim>\<open>range\<close> raise; a negative one makes it empty.\<close>

definition chain_block_hashes :: "(bytes \<Rightarrow> bytes) \<Rightarrow> int \<Rightarrow> int list \<Rightarrow> ga_exn + bytes list" where
  "chain_block_hashes sha block_size token_ids =
    (if block_size = 0 then Inl GA_Other
     else if block_size < 0 then Inr []
     else chain_from sha (nat block_size) [] token_ids)"

definition kv_mark :: bytes where
  "kv_mark = [0x4B, 0x56, 0x3A]"

definition mock_kv_bytes :: "bytes \<Rightarrow> bytes" where
  "mock_kv_bytes h = kv_mark @ take 16 h"

section \<open>The services and the agent's state\<close>

text \<open>A block id on the wire is the model with the hash; kind, scope and revision are constants of the code.\<close>

type_synonym block_id = "string \<times> bytes"

record 'w services =
  sv_register_model :: "string \<Rightarrow> string \<Rightarrow> 'w \<Rightarrow> (unit + bool) \<times> 'w"
  sv_lookup_prefix :: "string \<Rightarrow> bytes list \<Rightarrow> string \<Rightarrow> 'w \<Rightarrow> (unit + nat) \<times> 'w"
  sv_get_blocks :: "block_id list \<Rightarrow> 'w \<Rightarrow> (unit + (bytes \<times> bytes) list) \<times> 'w"
  sv_put_blocks :: "string \<Rightarrow> (block_id \<times> bytes) list \<Rightarrow> 'w \<Rightarrow> (unit + bool) \<times> 'w"
  sv_register_blocks :: "string \<Rightarrow> block_id list \<Rightarrow> bytes list \<Rightarrow> 'w \<Rightarrow> (unit + bool) \<times> 'w"
  sv_request_barrier :: "string \<Rightarrow> string \<Rightarrow> 'w \<Rightarrow> (unit + unit) \<times> 'w"

record 'w grpc_agent =
  ga_world :: 'w
  ga_ready_step :: "int option"
  ga_host_reqs :: "string \<rightharpoonup> req"
  ga_ensured_prefix :: "string set"
  ga_registered_models :: "(string \<times> string) set"

record 'w ga_env =
  ge_services :: "'w services"
  ge_sha :: "bytes \<Rightarrow> bytes"
  ge_order :: "string list \<Rightarrow> string list"

definition ga_init :: "'w \<Rightarrow> 'w grpc_agent" where
  "ga_init world = \<lparr>ga_world = world, ga_ready_step = None, ga_host_reqs = Map.empty, ga_ensured_prefix = {},
     ga_registered_models = {}\<rparr>"

definition ga_bind_host_reqs :: "(string \<rightharpoonup> req) \<Rightarrow> 'w grpc_agent \<Rightarrow> 'w grpc_agent" where
  "ga_bind_host_reqs reqs a = a\<lparr>ga_host_reqs := reqs\<rparr>"

text \<open>A remote call: the answer with the world it leaves.\<close>

definition ga_rpc :: "('w \<Rightarrow> (unit + 'r) \<times> 'w) \<Rightarrow> 'w grpc_agent \<Rightarrow> (ga_exn + 'r) \<times> 'w grpc_agent" where
  "ga_rpc call a =
    (let (x, world) = call (ga_world a) in
     (case x of Inl _ \<Rightarrow> Inl GA_Rpc | Inr r \<Rightarrow> Inr r, a\<lparr>ga_world := world\<rparr>))"

text \<open>\<^verbatim>\<open>if not ack.ok: raise RuntimeError\<close>.\<close>

definition check_ack :: "bool \<Rightarrow> 'w grpc_agent \<Rightarrow> (ga_exn + unit) \<times> 'w grpc_agent" where
  "check_ack good a = (if good then (Inr (), a) else (Inl GA_Runtime, a))"

section \<open>Operations\<close>

definition ensure_model :: "'w ga_env \<Rightarrow> string \<Rightarrow> string \<Rightarrow> 'w grpc_agent \<Rightarrow> (ga_exn + unit) \<times> 'w grpc_agent" where
  "ensure_model env model revision a =
    (if (model, revision) \<in> ga_registered_models a then (Inr (), a)
     else
       bind_st (ga_rpc (sv_register_model (ge_services env) model revision) a) (\<lambda>good a1.
       bind_st (check_ack good a1) (\<lambda>_ a2.
         (Inr (), a2\<lparr>ga_registered_models := insert (model, revision) (ga_registered_models a2)\<rparr>))))"

definition ga_lookup :: "'w ga_env \<Rightarrow> req \<Rightarrow> bytes list \<Rightarrow> 'w grpc_agent \<Rightarrow> (ga_exn + nat) \<times> 'w grpc_agent" where
  "ga_lookup env r hashes a = ga_rpc (sv_lookup_prefix (ge_services env) (served_model_name r) hashes (node_id r)) a"

text \<open>\<open>probe_prefix\<close> turns an RPC error into a downstream pool error; nothing else is caught.\<close>

definition probe_exn :: "ga_exn \<Rightarrow> agent_exn" where
  "probe_exn e = (case e of GA_Rpc \<Rightarrow> AE_Pool DOWNSTREAM | _ \<Rightarrow> AE_Other)"

definition lift_exn :: "(ga_exn \<Rightarrow> agent_exn) \<Rightarrow> (ga_exn + 'r) \<times> 's \<Rightarrow> (agent_exn + 'r) \<times> 's" where
  "lift_exn f m = (case m of (Inl e, s) \<Rightarrow> (Inl (f e), s) | (Inr r, s) \<Rightarrow> (Inr r, s))"

definition ga_probe_prefix :: "'w ga_env \<Rightarrow> req \<Rightarrow> 'w grpc_agent \<Rightarrow> (agent_exn + prefix_hint) \<times> 'w grpc_agent" where
  "ga_probe_prefix env r a =
    (case chain_block_hashes (ge_sha env) BLOCK_SIZE (prompt_token_ids r) of
       Inl e \<Rightarrow> (Inl AE_Other, a)
     | Inr [] \<Rightarrow> (Inr default_prefix_hint, a)
     | Inr hashes \<Rightarrow> lift_exn probe_exn
         (bind_st (ensure_model env (served_model_name r) [] a) (\<lambda>_ a1.
          bind_st (ga_lookup env r hashes a1) (\<lambda>reused a2.
            (Inr \<lparr>computed_tokens = min (int reused * BLOCK_SIZE) (py_len (prompt_token_ids r)),
                  hint_reused_blocks = int reused, local_hit = False, prebuilt = False\<rparr>, a2)))))"

text \<open>The check of what was fetched: block by block the hash asked for, and the mark of the mock payload. An index
  past the ids raises.\<close>

fun check_blocks :: "bytes list \<Rightarrow> (bytes \<times> bytes) list \<Rightarrow> ga_exn + unit" where
  "check_blocks want [] = Inr ()"
| "check_blocks [] (b # bs) = Inl GA_Other"
| "check_blocks (h # hs) ((got, data) # bs) =
    (if got \<noteq> h then Inl GA_Runtime
     else if take 3 data \<noteq> kv_mark then Inl GA_Runtime
     else check_blocks hs bs)"

definition fetch_blocks :: "'w ga_env \<Rightarrow> string \<Rightarrow> bytes list \<Rightarrow> nat \<Rightarrow> 'w grpc_agent \<Rightarrow> (ga_exn + unit) \<times> 'w grpc_agent" where
  "fetch_blocks env model hashes reused a =
    (if reused = 0 then (Inr (), a)
     else bind_st (ga_rpc (sv_get_blocks (ge_services env) (map (Pair model) (take reused hashes))) a) (\<lambda>got a1.
       if length got \<noteq> reused then (Inl GA_Runtime, a1)
       else (case check_blocks hashes got of Inl e \<Rightarrow> (Inl e, a1) | Inr _ \<Rightarrow> (Inr (), a1))))"

definition store_blocks ::
  "'w ga_env \<Rightarrow> string \<Rightarrow> string \<Rightarrow> bytes list \<Rightarrow> bytes list \<Rightarrow> 'w grpc_agent \<Rightarrow> (ga_exn + unit) \<times> 'w grpc_agent" where
  "store_blocks env model node hashes miss a =
    (if miss = [] then (Inr (), a)
     else
       bind_st (ga_rpc (sv_put_blocks (ge_services env) node (map (\<lambda>h. ((model, h), mock_kv_bytes h)) miss)) a) (\<lambda>put a1.
       bind_st (check_ack put a1) (\<lambda>_ a2.
       bind_st (ga_rpc (sv_register_blocks (ge_services env) node (map (Pair model) miss) hashes) a2) (\<lambda>reg a3.
         check_ack reg a3))))"

definition ensure_prefix_kv :: "'w ga_env \<Rightarrow> req \<Rightarrow> 'w grpc_agent \<Rightarrow> (ga_exn + step_stats) \<times> 'w grpc_agent" where
  "ensure_prefix_kv env r a =
    (case chain_block_hashes (ge_sha env) BLOCK_SIZE (prompt_token_ids r) of
       Inl e \<Rightarrow> (Inl e, a)
     | Inr hashes \<Rightarrow>
         bind_st (ensure_model env (served_model_name r) [] a) (\<lambda>_ a1.
         bind_st (ga_lookup env r hashes a1) (\<lambda>reused a2.
         bind_st (fetch_blocks env (served_model_name r) hashes reused a2) (\<lambda>_ a3.
         bind_st (store_blocks env (served_model_name r) (node_id r) hashes (drop reused hashes) a3) (\<lambda>_ a4.
           (Inr \<lparr>st_reused_blocks = int reused, st_prefill_blocks = py_len (drop reused hashes), st_pulled_blocks = 0\<rparr>, a4))))))"

text \<open>The requests a step touches in their prompt: a write that starts in it, or a read of it that was not ensured yet.\<close>

fun touched_writes :: "(string \<rightharpoonup> req) \<Rightarrow> req_io_set list \<Rightarrow> ga_exn + string list" where
  "touched_writes reqs [] = Inr []"
| "touched_writes reqs (io # ios) = (case reqs (io_req_id io) of
     None \<Rightarrow> Inl GA_Other
   | Some r \<Rightarrow> bind_res (touched_writes reqs ios) (\<lambda>rids.
       Inr (if token_start io < py_len (prompt_token_ids r) then io_req_id io # rids else rids)))"

fun touched_reads :: "(string \<rightharpoonup> req) \<Rightarrow> string set \<Rightarrow> req_io_set list \<Rightarrow> ga_exn + string list" where
  "touched_reads reqs ensured [] = Inr []"
| "touched_reads reqs ensured (io # ios) = (case reqs (io_req_id io) of
     None \<Rightarrow> Inl GA_Other
   | Some r \<Rightarrow> bind_res (touched_reads reqs ensured ios) (\<lambda>rids.
       Inr (if 0 < token_end io \<and> token_start io < py_len (prompt_token_ids r) \<and> io_req_id io \<notin> ensured
            then io_req_id io # rids else rids)))"

fun ensure_all :: "'w ga_env \<Rightarrow> string set \<Rightarrow> string list \<Rightarrow> (string, step_stats) dict \<Rightarrow> 'w grpc_agent
    \<Rightarrow> (ga_exn + (string, step_stats) dict) \<times> 'w grpc_agent" where
  "ensure_all env touched [] stats a = (Inr stats, a)"
| "ensure_all env touched (rid # rids) stats a = (case ga_host_reqs a rid of
     None \<Rightarrow> (Inl GA_Other, a)
   | Some r \<Rightarrow>
       if rid \<in> touched then
         bind_st (ensure_prefix_kv env r a) (\<lambda>st a1.
           ensure_all env touched rids (dict_set rid st stats)
             (a1\<lparr>ga_ensured_prefix := insert rid (ga_ensured_prefix a1)\<rparr>))
       else
         ensure_all env touched rids
           (dict_setdefault rid (no_stats\<lparr>st_reused_blocks := reused_blocks r\<rparr>) stats) a)"

definition prepare_exn :: "ga_exn \<Rightarrow> agent_exn" where
  "prepare_exn e = (case e of GA_Other \<Rightarrow> AE_Other | _ \<Rightarrow> AE_Pool DOWNSTREAM)"

definition ga_prepare_step :: "'w ga_env \<Rightarrow> prepare_plan \<Rightarrow> 'w grpc_agent \<Rightarrow> (agent_exn + ready_handle) \<times> 'w grpc_agent" where
  "ga_prepare_step env plan a =
    (if ga_ready_step a \<noteq> None then (Inl (AE_Pool PROTOCOL_ERROR), a)
     else
       (case bind_res (touched_writes (ga_host_reqs a) (pp_write_set plan)) (\<lambda>ws.
             bind_res (touched_reads (ga_host_reqs a) (ga_ensured_prefix a) (pp_read_set plan)) (\<lambda>rs. Inr (set ws \<union> set rs))) of
          Inl e \<Rightarrow> (Inl (prepare_exn e), a)
        | Inr touched \<Rightarrow>
            (case lift_exn prepare_exn (ensure_all env touched
                (ge_order env (map io_req_id (pp_read_set plan @ pp_write_set plan))) [] a) of
               (Inl e, a1) \<Rightarrow> (Inl e, a1)
             | (Inr stats, a1) \<Rightarrow>
                 (Inr \<lparr>rh_step_id = pp_step_id plan, stats_by_req = stats,
                    effective_read_set = Some (pp_read_set plan), effective_write_set = Some (pp_write_set plan),
                    block_table_by_req = Map.empty, slot_mapping_by_req = Map.empty\<rparr>,
                  a1\<lparr>ga_ready_step := Some (pp_step_id plan)\<rparr>))))"

definition ga_done :: "int \<Rightarrow> 'w grpc_agent \<Rightarrow> (agent_exn + unit) \<times> 'w grpc_agent" where
  "ga_done sid a =
    (if ga_ready_step a \<noteq> Some sid then (Inl (AE_Pool PROTOCOL_ERROR), a)
     else (Inr (), a\<lparr>ga_ready_step := None\<rparr>))"

definition ga_on_request_finished ::
  "'w ga_env \<Rightarrow> finish_request \<Rightarrow> 'w grpc_agent \<Rightarrow> (agent_exn + unit) \<times> 'w grpc_agent" where
  "ga_on_request_finished env fin a =
     lift_exn probe_exn (ga_rpc (sv_request_barrier (ge_services env) (fin_req_id fin) (fin_node_id fin))
       (a\<lparr>ga_ensured_prefix := ga_ensured_prefix a - {fin_req_id fin}\<rparr>))"

definition ga_commit_write_extent :: "string \<Rightarrow> int \<Rightarrow> 'w grpc_agent \<Rightarrow> (agent_exn + unit) \<times> 'w grpc_agent" where
  "ga_commit_write_extent rid extent a = (Inr (), a)"

definition grpc_skeleton_agent :: "'w ga_env \<Rightarrow> 'w grpc_agent agent_ops" where
  "grpc_skeleton_agent env = \<lparr>ag_bind_host_reqs = Some ga_bind_host_reqs, ag_prepare_step = ga_prepare_step env,
     ag_done = ga_done, ag_on_request_finished = ga_on_request_finished env,
     ag_commit_write_extent = Some ga_commit_write_extent, ag_probe_local = None,
     ag_probe_prefix = Some (ga_probe_prefix env)\<rparr>"

end
