(* ===== verification/Coldstart.thy ===== *)
theory Coldstart
  imports Prelude Py_Text
begin

text \<open>
  The cold start harness (\<^verbatim>\<open>runtime/coldstart.py\<close>): loading all layers before serving, opening the serve gate after
  the first layers while the rest streams in, and the breakdown of the latter into segments.

  What the code measures is the clock, so the readings are arguments: \<open>clock i\<close> is the reading after layer \<open>i\<close>.
  Times are integers in the clock's unit, relative readings are differences as in the code.
\<close>

record cold_start_metrics =
  cs_strategy :: string
  time_to_serve_gate :: int
  time_to_weights_done :: int
  time_to_kv_warm :: int
  time_to_fully_ready :: int
  layers_loaded_at_gate :: int

text \<open>\<open>hot\<close> says that there is a prefetcher and something to fetch.\<close>

definition run_sequential :: "int \<Rightarrow> bool \<Rightarrow> int \<Rightarrow> int \<Rightarrow> int \<Rightarrow> cold_start_metrics" where
  "run_sequential num_layers hot t0 t_loaded t_fetched =
    (let weights_done = t_loaded - t0;
         kv_warm = (if hot then t_fetched - t0 else 0) in
     \<lparr>cs_strategy = ''sequential'', time_to_serve_gate = weights_done, time_to_weights_done = weights_done,
      time_to_kv_warm = kv_warm, time_to_fully_ready = max weights_done kv_warm, layers_loaded_at_gate = num_layers\<rparr>)"

text \<open>The loop over the layers: the gate is read after layer number \<open>serve_after_layers\<close>.\<close>

fun gate_loop :: "int \<Rightarrow> (nat \<Rightarrow> int) \<Rightarrow> int \<Rightarrow> nat list \<Rightarrow> int \<Rightarrow> int" where
  "gate_loop serve_after clock t0 [] gate = gate"
| "gate_loop serve_after clock t0 (i # is) gate =
    gate_loop serve_after clock t0 is (if int i + 1 = serve_after then clock i - t0 else gate)"

definition run_layer_async ::
  "int \<Rightarrow> int \<Rightarrow> int \<Rightarrow> (nat \<Rightarrow> int) \<Rightarrow> int \<Rightarrow> int \<Rightarrow> py_exn + cold_start_metrics" where
  "run_layer_async num_layers serve_after t0 clock t_done t_kv =
    (if serve_after \<le> 0 \<or> serve_after > num_layers then Inl ValueError
     else
       (let weights_done = t_done - t0; kv_warm = t_kv - t0 in
        Inr \<lparr>cs_strategy = ''layer_async+kv_prefetch'',
          time_to_serve_gate = gate_loop serve_after clock t0 [0..<nat num_layers] 0,
          time_to_weights_done = weights_done, time_to_kv_warm = kv_warm,
          time_to_fully_ready = max weights_done kv_warm, layers_loaded_at_gate = serve_after\<rparr>))"

section \<open>Waterfall\<close>

record waterfall_segment =
  ws_name :: string
  start_s :: int
  end_s :: int
  critical :: bool

definition dur :: "waterfall_segment \<Rightarrow> int" where
  "dur s = end_s s - start_s s"

fun layer_segments :: "int \<Rightarrow> (nat \<Rightarrow> int) \<Rightarrow> int \<Rightarrow> nat list \<Rightarrow> int \<Rightarrow> waterfall_segment list" where
  "layer_segments serve_after clock t0 [] layer_start = []"
| "layer_segments serve_after clock t0 (i # is) layer_start =
    \<lparr>ws_name = ''weight_layer_'' @ show_int (int i), start_s = layer_start, end_s = clock i - t0,
     critical = (int i + 1 \<le> serve_after)\<rparr> # layer_segments serve_after clock t0 is (clock i - t0)"

text \<open>\<open>t_prov\<close> is read after provisioning, \<open>t_start\<close> before the first layer, \<open>kv0\<close> and \<open>kv1\<close> by the prefetch thread.\<close>

definition waterfall_layer_async ::
  "int \<Rightarrow> int \<Rightarrow> bool \<Rightarrow> int \<Rightarrow> int \<Rightarrow> int \<Rightarrow> int \<Rightarrow> (nat \<Rightarrow> int) \<Rightarrow> int \<Rightarrow> int \<Rightarrow> int
    \<Rightarrow> py_exn + cold_start_metrics \<times> waterfall_segment list" where
  "waterfall_layer_async num_layers serve_after hot provision t0 t_prov t_start clock t_done kv0 kv1 =
    (if serve_after \<le> 0 \<or> serve_after > num_layers then Inl ValueError
     else
       (let prov = (if provision > 0
              then [\<lparr>ws_name = ''provision'', start_s = 0, end_s = t_prov - t0, critical = True\<rparr>] else []);
            layers = layer_segments serve_after clock t0 [0..<nat num_layers] (t_start - t0);
            gate = gate_loop serve_after clock t0 [0..<nat num_layers] 0;
            weights_done = t_done - t0;
            kv = (if hot then [\<lparr>ws_name = ''kv_prefetch'', start_s = kv0 - t0, end_s = kv1 - t0, critical = False\<rparr>] else []);
            kv_warm = (if hot then kv1 - t0 else 0) in
        Inr (\<lparr>cs_strategy = ''layer_async+kv_prefetch'', time_to_serve_gate = gate, time_to_weights_done = weights_done,
               time_to_kv_warm = kv_warm, time_to_fully_ready = max weights_done kv_warm,
               layers_loaded_at_gate = serve_after\<rparr>,
             prov @ layers @ kv)))"

section \<open>What the measurements mean\<close>

lemma gate_loop_append:
  "gate_loop k clock t0 (is @ js) g = gate_loop k clock t0 js (gate_loop k clock t0 is g)"
  by (induction "is" arbitrary: g) simp_all

lemma gate_loop_spec:
  "gate_loop k clock t0 [0..<n] g = (if 0 < k \<and> k \<le> int n then clock (nat (k - 1)) - t0 else g)"
proof (induction n)
  case (Suc n)
  then show ?case by (cases "int n + 1 = k") (auto simp: gate_loop_append nat_add_distrib)
qed simp

lemma layer_segments_length [simp]: "length (layer_segments k clock t0 is s) = length is"
  by (induction "is" arbitrary: s) simp_all

lemma layer_segments_nth:
  "j < length is \<Longrightarrow> layer_segments k clock t0 is s ! j =
     \<lparr>ws_name = ''weight_layer_'' @ show_int (int (is ! j)), start_s = (if j = 0 then s else clock (is ! (j - 1)) - t0),
      end_s = clock (is ! j) - t0, critical = (int (is ! j) + 1 \<le> k)\<rparr>"
  by (induction "is" arbitrary: s j) (auto simp: nth_Cons split: nat.split)

lemma dur_segment: "dur \<lparr>ws_name = x, start_s = s, end_s = e, critical = c\<rparr> = e - s"
  by (simp add: dur_def)

lemma critical_sum:
  assumes "k \<le> length is" "\<forall>j < length is. is ! j = j + m"
  shows "sum_list (map dur (filter critical (layer_segments (int (k + m)) clock t0 is s))) =
    (if k = 0 then 0 else clock (k + m - 1) - t0 - s)"
  using assms
proof (induction "is" arbitrary: s k m)
  case (Cons i "is")
  have i: "i = m" using Cons.prems(2) by (metis add_0 length_greater_0_conv list.distinct(1) nth_Cons_0)
  have rest: "\<forall>j < length is. is ! j = j + Suc m" using Cons.prems(2) by fastforce
  show ?case
  proof (cases k)
    case 0
    have "filter critical (layer_segments (int m) clock t0 (i # is) s) = []"
      using layer_segments_nth [of _ "i # is" "int m" clock t0 s] Cons.prems(2)
      by (auto simp: filter_empty_conv in_set_conv_nth simp del: layer_segments.simps)
    then show ?thesis by (simp add: 0 del: layer_segments.simps)
  next
    case (Suc k')
    then have "sum_list (map dur (filter critical (layer_segments (int (k' + Suc m)) clock t0 is (clock m - t0)))) =
      (if k' = 0 then 0 else clock (k' + Suc m - 1) - t0 - (clock m - t0))"
      using Cons.IH [of k' "Suc m"] Cons.prems(1) rest by simp
    then show ?thesis by (auto simp: Suc i dur_segment)
  qed
qed simp

text \<open>
  The segments that are marked critical account for the time to the serve gate: for every admissible gate, the
  gate opens at the reading after its last layer, and the durations of the critical layer segments add up to the time
  from the start of loading to the gate; with non-decreasing readings the gate never opens later than the last layer
  is loaded, which is when loading sequentially opens it.
\<close>

theorem critical_path_is_gate:
  assumes "waterfall_layer_async n k hot prov t0 t_prov t_start clock t_done kv0 kv1 = Inr (m, segs)"
    and "prov = 0" "mono clock" "clock (nat (n - 1)) \<le> t_done"
  shows "time_to_serve_gate m = clock (nat (k - 1)) - t0
    \<and> sum_list (map dur (filter critical segs)) = time_to_serve_gate m - (t_start - t0)
    \<and> time_to_serve_gate m \<le> time_to_serve_gate (run_sequential n hot t0 t_done kv1)
    \<and> time_to_fully_ready m = time_to_fully_ready (run_sequential n hot t0 t_done kv1)"
proof -
  have k: "0 < k" "k \<le> n" using assms(1) by (auto simp: waterfall_layer_async_def split: if_splits)
  let ?ls = "layer_segments k clock t0 [0..<nat n] (t_start - t0)"
  have m: "time_to_serve_gate m = clock (nat (k - 1)) - t0" "time_to_fully_ready m = max (t_done - t0) (if hot then kv1 - t0 else 0)"
    "filter critical segs = filter critical ?ls"
    using assms(1,2) k by (auto simp: waterfall_layer_async_def Let_def gate_loop_spec split: if_splits)
  have "sum_list (map dur (filter critical ?ls)) = clock (nat k - 1) - t0 - (t_start - t0)"
    using critical_sum [of "nat k" "[0..<nat n]" 0 clock t0 "t_start - t0"] k by simp
  moreover have "nat k - 1 = nat (k - 1)" using k by simp
  moreover have "clock (nat (k - 1)) \<le> t_done"
    using monoD [OF assms(3), of "nat (k - 1)" "nat (n - 1)"] assms(4) nat_mono [of "k - 1" "n - 1"] k by linarith
  ultimately show ?thesis using m by (simp add: run_sequential_def Let_def)
qed

definition demo_clock :: "nat \<Rightarrow> int" where
  "demo_clock i = 20 + 10 * int i"

theorem critical_path_is_gate_witness:
  "\<exists>m segs. waterfall_layer_async 3 2 True 0 0 0 10 demo_clock 41 11 90 = Inr (m, segs) \<and> time_to_serve_gate m = 30
     \<and> sum_list (map dur (filter critical segs)) = 20"
proof -
  obtain m segs where w: "waterfall_layer_async 3 2 True 0 0 0 10 demo_clock 41 11 90 = Inr (m, segs)"
    by (simp add: waterfall_layer_async_def Let_def)
  have "mono demo_clock" by (simp add: mono_def demo_clock_def)
  then show ?thesis using critical_path_is_gate [OF w] w by (simp add: demo_clock_def)
qed

text \<open>Without a prefetcher the two variants report the prefetch differently: the waterfall reports zero, the plain run
  the reading of the idle thread.\<close>

lemma idle_prefetch_is_reported:
  assumes "0 < k" "k \<le> n" "t_kv \<noteq> t0"
  shows "\<exists>m m' segs. run_layer_async n k t0 clock t_done t_kv = Inr m \<and> time_to_kv_warm m \<noteq> 0
    \<and> waterfall_layer_async n k False 0 t0 t0 t_start clock t_done kv0 t_kv = Inr (m', segs) \<and> time_to_kv_warm m' = 0"
  using assms by (simp add: run_layer_async_def waterfall_layer_async_def Let_def)

end
