(* ===== verification/Prototype.thy ===== *)
theory Prototype
  imports Prelude
begin

text \<open>
  The single-process prototype (\<^verbatim>\<open>src/src\<close>): the content-addressed pool of blocks with reference counts, the tiered
  cache, the prefill and decode pools and the router over them.

  The digest of a list of tokens is a parameter; a token that does not fit into eight bytes makes it raise, which is
  \<open>None\<close>. A block's data is its length, as the code stores zero bytes.
\<close>

section \<open>The pool of blocks\<close>

record 'h kv_block_id =
  bid_model_id :: string
  bid_layer_idx :: nat
  bid_hash :: 'h

record kv_block =
  kb_data_len :: nat
  ref_count :: int
  access_count :: int

type_synonym 'h kv_pool = "('h kv_block_id, kv_block) dict"

definition block_hash :: "(int list \<Rightarrow> 'h) \<Rightarrow> int list \<Rightarrow> 'h option" where
  "block_hash sha token_ids = (if list_all (\<lambda>t. 0 \<le> t \<and> t < 2 ^ 64) token_ids then Some (sha token_ids) else None)"

definition touch :: "kv_block \<Rightarrow> kv_block" where
  "touch b = b\<lparr>access_count := access_count b + 1\<rparr>"

definition kv_put :: "'h kv_block_id \<Rightarrow> nat \<Rightarrow> 'h kv_pool \<Rightarrow> 'h kv_pool" where
  "kv_put bid n p =
    (let b = (case map_of p bid of
        None \<Rightarrow> \<lparr>kb_data_len = n, ref_count = 0, access_count = 0\<rparr>
      | Some b \<Rightarrow> b) in
     dict_set bid (touch b) p)"

definition kv_get :: "'h kv_block_id \<Rightarrow> 'h kv_pool \<Rightarrow> kv_block option \<times> 'h kv_pool" where
  "kv_get bid p = (case map_of p bid of
     None \<Rightarrow> (None, p)
   | Some b \<Rightarrow> (Some (touch b), dict_set bid (touch b) p))"

definition kv_acquire :: "'h kv_block_id \<Rightarrow> 'h kv_pool \<Rightarrow> kv_block option \<times> 'h kv_pool" where
  "kv_acquire bid p = (case kv_get bid p of
     (None, p1) \<Rightarrow> (None, p1)
   | (Some b, p1) \<Rightarrow> (let b1 = b\<lparr>ref_count := ref_count b + 1\<rparr> in (Some b1, dict_set bid b1 p1)))"

definition kv_release :: "'h kv_block_id \<Rightarrow> 'h kv_pool \<Rightarrow> 'h kv_pool" where
  "kv_release bid p = (case map_of p bid of
     None \<Rightarrow> p
   | Some b \<Rightarrow> if 0 < ref_count b then dict_set bid (b\<lparr>ref_count := ref_count b - 1\<rparr>) p else p)"

text \<open>Candidates are sorted by their accesses; the sort is stable.\<close>

definition evict_candidates :: "'h kv_pool \<Rightarrow> ('h kv_block_id \<times> kv_block) list" where
  "evict_candidates p = sort_key (\<lambda>e. access_count (snd e)) (filter (\<lambda>e. ref_count (snd e) = 0) p)"

definition evict_cold :: "int \<Rightarrow> 'h kv_pool \<Rightarrow> int \<times> 'h kv_pool" where
  "evict_cold max_blocks p =
    (if py_len p \<le> max_blocks then (0, p)
     else
       (let cands = evict_candidates p; n_evict = py_len p - max_blocks in
        (min n_evict (py_len cands), fold (\<lambda>e. dict_pop (fst e)) (py_take n_evict cands) p)))"

section \<open>The tiered cache\<close>

text \<open>An ordered dictionary, least recently used first.\<close>

record 'k lru =
  capacity :: int
  lru_store :: "('k, string) dict"

definition move_to_end :: "'k \<Rightarrow> ('k, 'v) dict \<Rightarrow> ('k, 'v) dict" where
  "move_to_end k d = (case map_of d k of None \<Rightarrow> d | Some v \<Rightarrow> dict_pop k d @ [(k, v)])"

definition lru_get :: "'k \<Rightarrow> 'k lru \<Rightarrow> string option \<times> 'k lru" where
  "lru_get k c = (map_of (lru_store c) k, c\<lparr>lru_store := move_to_end k (lru_store c)\<rparr>)"

text \<open>The loop that pops the oldest entries; an empty store with a negative capacity raises.\<close>

fun pop_oldest :: "int \<Rightarrow> ('k, 'v) dict \<Rightarrow> 'k option \<Rightarrow> (py_exn + 'k option) \<times> ('k, 'v) dict" where
  "pop_oldest cap [] evicted = (if 0 > cap then Inl KeyError else Inr evicted, [])"
| "pop_oldest cap (e # d) evicted =
    (if py_len (e # d) > cap then pop_oldest cap d (Some (fst e)) else (Inr evicted, e # d))"

definition lru_put :: "'k \<Rightarrow> string \<Rightarrow> 'k lru \<Rightarrow> (py_exn + 'k option) \<times> 'k lru" where
  "lru_put k v c =
    (let (x, d) = pop_oldest (capacity c) (dict_set k v (move_to_end k (lru_store c))) None in
     (x, c\<lparr>lru_store := d\<rparr>))"

record 'k tiered =
  l1 :: "'k lru"
  l2 :: "'k lru"
  l4 :: "'k \<rightharpoonup> string"

definition tiered_init :: "int \<Rightarrow> int \<Rightarrow> 'k tiered" where
  "tiered_init ram_cap nvme_cap = \<lparr>l1 = \<lparr>capacity = ram_cap, lru_store = []\<rparr>, l2 = \<lparr>capacity = nvme_cap, lru_store = []\<rparr>,
     l4 = Map.empty\<rparr>"

text \<open>Writes into one tier of the state.\<close>

definition put_l1 :: "'k \<Rightarrow> string \<Rightarrow> 'k tiered \<Rightarrow> (py_exn + 'k option) \<times> 'k tiered" where
  "put_l1 k v s = (let (x, c) = lru_put k v (l1 s) in (x, s\<lparr>l1 := c\<rparr>))"

definition put_l2 :: "'k \<Rightarrow> string \<Rightarrow> 'k tiered \<Rightarrow> (py_exn + 'k option) \<times> 'k tiered" where
  "put_l2 k v s = (let (x, c) = lru_put k v (l2 s) in (x, s\<lparr>l2 := c\<rparr>))"

definition tiered_get :: "'k \<Rightarrow> 'k tiered \<Rightarrow> (py_exn + string option) \<times> 'k tiered" where
  "tiered_get k s =
    (let (v1, c1) = lru_get k (l1 s); s1 = s\<lparr>l1 := c1\<rparr> in
     case v1 of
       Some v \<Rightarrow> (Inr (Some v), s1)
     | None \<Rightarrow>
         (let (v2, c2) = lru_get k (l2 s1); s2 = s1\<lparr>l2 := c2\<rparr> in
          case v2 of
            Some v \<Rightarrow> bind_st (put_l1 k v s2) (\<lambda>_ s3. (Inr (Some v), s3))
          | None \<Rightarrow>
              (case l4 s2 k of
                 None \<Rightarrow> (Inr None, s2)
               | Some v \<Rightarrow> bind_st (put_l2 k v s2) (\<lambda>_ s3. bind_st (put_l1 k v s3) (\<lambda>_ s4. (Inr (Some v), s4))))))"

text \<open>A key evicted from the first tier goes to the second with the value that was just written.\<close>

definition tiered_put :: "'k \<Rightarrow> string \<Rightarrow> bool \<Rightarrow> 'k tiered \<Rightarrow> (py_exn + unit) \<times> 'k tiered" where
  "tiered_put k v persist s =
    bind_st (put_l1 k v s) (\<lambda>evicted s1.
    bind_st (case evicted of
        None \<Rightarrow> (Inr (), s1)
      | Some ev \<Rightarrow>
          (let s2 = s1\<lparr>l1 := snd (lru_get ev (l1 s1))\<rparr> in
           bind_st (put_l2 ev v s2) (\<lambda>_ s3. (Inr (), s3)))) (\<lambda>_ s4.
      (Inr (), if persist then s4\<lparr>l4 := (l4 s4)(k \<mapsto> v)\<rparr> else s4)))"

section \<open>Compute pools and router\<close>

datatype node_state = NS_IDLE | NS_WARM | NS_READY | NS_SERVING | NS_DRAIN

definition node_accept :: "node_state \<Rightarrow> bool" where
  "node_accept s \<longleftrightarrow> s \<in> {NS_READY, NS_SERVING}"

definition node_drain :: "node_state \<Rightarrow> node_state" where
  "node_drain s = NS_DRAIN"

text \<open>\<^verbatim>\<open>xs[i:i+n]\<close> for \<open>i\<close> in steps of \<open>n\<close>; \<open>n\<close> is positive.\<close>

fun chunks :: "nat \<Rightarrow> int list \<Rightarrow> int list list" where
  "chunks n [] = []"
| "chunks n (x # xs) = take n (x # xs) # chunks n (drop (n - 1) xs)"

text \<open>The ids of one layer, stopping at a digest that raises.\<close>

fun layer_ids :: "(int list \<Rightarrow> 'h) \<Rightarrow> string \<Rightarrow> nat \<Rightarrow> int list list \<Rightarrow> 'h kv_block_id list option" where
  "layer_ids sha model layer [] = Some []"
| "layer_ids sha model layer (c # cs) = (case block_hash sha c of
     None \<Rightarrow> None
   | Some h \<Rightarrow> (case layer_ids sha model layer cs of
       None \<Rightarrow> None
     | Some ids \<Rightarrow> Some (\<lparr>bid_model_id = model, bid_layer_idx = layer, bid_hash = h\<rparr> # ids)))"

text \<open>Every block of a layer is put as soon as it is named, so a raise leaves the earlier ones.\<close>

fun prefill_layer :: "(int list \<Rightarrow> 'h) \<Rightarrow> string \<Rightarrow> nat \<Rightarrow> int list list \<Rightarrow> 'h kv_pool \<Rightarrow> 'h kv_block_id list option \<times> 'h kv_pool" where
  "prefill_layer sha model layer [] p = (Some [], p)"
| "prefill_layer sha model layer (c # cs) p = (case block_hash sha c of
     None \<Rightarrow> (None, p)
   | Some h \<Rightarrow>
       (let bid = \<lparr>bid_model_id = model, bid_layer_idx = layer, bid_hash = h\<rparr>;
            (x, p1) = prefill_layer sha model layer cs (kv_put bid (length c * 8) p) in
        (map_option ((#) bid) x, p1)))"

fun prefill_layers :: "(int list \<Rightarrow> 'h) \<Rightarrow> string \<Rightarrow> int list list \<Rightarrow> nat list \<Rightarrow> 'h kv_pool \<Rightarrow> 'h kv_block_id list option \<times> 'h kv_pool" where
  "prefill_layers sha model cs [] p = (Some [], p)"
| "prefill_layers sha model cs (l # ls) p = (case prefill_layer sha model l cs p of
     (None, p1) \<Rightarrow> (None, p1)
   | (Some ids, p1) \<Rightarrow> (let (x, p2) = prefill_layers sha model cs ls p1 in (map_option ((@) ids) x, p2)))"

definition prefill :: "(int list \<Rightarrow> 'h) \<Rightarrow> string \<Rightarrow> nat \<Rightarrow> int list \<Rightarrow> nat \<Rightarrow> 'h kv_pool \<Rightarrow> 'h kv_block_id list option \<times> 'h kv_pool" where
  "prefill sha model block_size token_ids n_layers p = prefill_layers sha model (chunks block_size token_ids) [0..<n_layers] p"

fun load_prefix :: "'h kv_block_id list \<Rightarrow> 'h kv_pool \<Rightarrow> nat \<times> 'h kv_pool" where
  "load_prefix [] p = (0, p)"
| "load_prefix (b # bs) p =
    (let (x, p1) = kv_acquire b p; (n, p2) = load_prefix bs p1 in (if x \<noteq> None then Suc n else n, p2))"

record route_request =
  rr_model_id :: string
  rr_prompt_tokens :: "int list"
  rr_block_size :: nat
  rr_n_layers :: nat

record route_decision =
  rd_reused_blocks :: int
  rd_prefill_blocks :: int
  rd_decode_ready :: bool

definition prefix_blocks :: "(int list \<Rightarrow> 'h) \<Rightarrow> route_request \<Rightarrow> 'h kv_block_id list option" where
  "prefix_blocks sha q = layer_ids sha (rr_model_id q) 0 (chunks (rr_block_size q) (rr_prompt_tokens q))"

text \<open>\<^verbatim>\<open>sum(1 for bid in ids if pool.get(bid) is not None)\<close>.\<close>

fun count_hits :: "'h kv_block_id list \<Rightarrow> 'h kv_pool \<Rightarrow> nat \<times> 'h kv_pool" where
  "count_hits [] p = (0, p)"
| "count_hits (b # bs) p =
    (let (x, p1) = kv_get b p; (n, p2) = count_hits bs p1 in (if x \<noteq> None then Suc n else n, p2))"

text \<open>The prefill pool has a model and a block size of its own.\<close>

definition route ::
  "(int list \<Rightarrow> 'h) \<Rightarrow> string \<Rightarrow> nat \<Rightarrow> route_request \<Rightarrow> 'h kv_pool \<Rightarrow> route_decision option \<times> 'h kv_pool" where
  "route sha pool_model pool_block q p =
    (case prefix_blocks sha q of
       None \<Rightarrow> (None, p)
     | Some ids \<Rightarrow>
         (let (reused, p1) = count_hits ids p;
              (ok, p2) = (if reused < length ids
                 then (let (x, p') = prefill sha pool_model pool_block (rr_prompt_tokens q) (rr_n_layers q) p1 in (x \<noteq> None, p'))
                 else (True, p1)) in
          if \<not> ok then (None, p2)
          else (Some \<lparr>rd_reused_blocks = int reused, rd_prefill_blocks = max 0 (int (length ids) - int reused), rd_decode_ready = True\<rparr>,
                snd (load_prefix ids p2))))"

end
