(* ===== verification/Prototype_Laws.thy ===== *)
theory Prototype_Laws
  imports Prototype "HOL-Library.Multiset"
begin

text \<open>
  What the prototype's pool and caches do: eviction spares pinned blocks and takes the coldest of the others, the
  caches stay within their capacity, and the value a tiered cache can return for a key that was never given it.
\<close>

section \<open>Eviction\<close>

lemma fold_pop: "fold (\<lambda>e. dict_pop (fst e)) es d = filter (\<lambda>x. fst x \<notin> fst ` set es) d"
proof (induction es arbitrary: d)
  case (Cons e es)
  have "filter (\<lambda>x. fst x \<notin> fst ` set es) (dict_pop (fst e) d) = filter (\<lambda>x. fst x \<notin> fst ` set (e # es)) d"
    by (auto simp: AList.delete_eq intro!: filter_cong)
  then show ?case by (simp add: Cons.IH)
qed simp

lemma evict_candidates_set: "set (evict_candidates p) = {e \<in> set p. ref_count (snd e) = 0}"
  by (simp add: evict_candidates_def)

lemma evict_candidates_length: "length (evict_candidates p) = length (filter (\<lambda>e. ref_count (snd e) = 0) p)"
  by (simp add: evict_candidates_def)

lemma distinct_candidates: "distinct (dict_keys p) \<Longrightarrow> distinct (dict_keys (evict_candidates p))"
proof -
  assume "distinct (dict_keys p)"
  then have "distinct (dict_keys (filter (\<lambda>e. ref_count (snd e) = 0) p))" by (rule distinct_map_filter)
  moreover have "mset (dict_keys (evict_candidates p)) = mset (dict_keys (filter (\<lambda>e. ref_count (snd e) = 0) p))"
    by (simp add: evict_candidates_def)
  ultimately show ?thesis using mset_eq_imp_distinct_iff by blast
qed

text \<open>The sorted candidates, cut at \<open>n\<close>: whatever is in front is no hotter than what is behind.\<close>

lemma sorted_cut:
  assumes "sorted (map f xs)" "x \<in> set (take n xs)" "y \<in> set (drop n xs)"
  shows "f x \<le> f y"
proof -
  have "sorted (map f (take n xs) @ map f (drop n xs))"
    using assms(1) by (metis append_take_drop_id map_append)
  then show ?thesis using assms(2,3) by (auto simp: sorted_append)
qed

lemma evict_cold_parts:
  assumes "distinct (dict_keys p)" "max_blocks < py_len p"
  defines "gone \<equiv> take (nat (py_len p - max_blocks)) (evict_candidates p)"
  shows "evict_cold max_blocks p = (int (length gone), filter (\<lambda>e. e \<notin> set gone) p)"
proof -
  have "set gone \<subseteq> set (evict_candidates p)" unfolding gone_def by (rule set_take_subset)
  then have sub: "set gone \<subseteq> set p" unfolding evict_candidates_set by blast
  have inj: "inj_on fst (set p)" using assms(1) by (simp add: distinct_map)
  have key: "fst e \<in> fst ` set gone \<longleftrightarrow> e \<in> set gone" if "e \<in> set p" for e
    by (rule inj_on_image_mem_iff [OF inj that sub])
  have "filter (\<lambda>e. fst e \<notin> fst ` set gone) p = filter (\<lambda>e. e \<notin> set gone) p"
    by (rule filter_cong [OF refl]) (simp add: key)
  moreover have "min (py_len p - max_blocks) (py_len (evict_candidates p)) = int (length gone)"
    using assms(2) unfolding gone_def length_take by linarith
  ultimately show ?thesis
    using assms(2) by (simp add: evict_cold_def Let_def fold_pop gone_def)
qed

text \<open>
  Eviction is safe and exact: a pool that is too large loses the lesser of its excess and its unpinned blocks.
  Blocks in use stay, what is taken is no hotter than any unpinned block that stays, and the pool ends up within
  its limit exactly when the pinned blocks alone are.
\<close>

theorem evict_cold_exact:
  assumes "distinct (dict_keys p)" "0 \<le> max_blocks" "max_blocks < py_len p" "evict_cold max_blocks p = (n, p')"
  defines "pinned \<equiv> length (filter (\<lambda>e. ref_count (snd e) \<noteq> 0) p)"
  shows "n = min (py_len p - max_blocks) (py_len p - int pinned) \<and> py_len p' = py_len p - n \<and> set p' \<subseteq> set p
    \<and> (\<forall>e \<in> set p. ref_count (snd e) \<noteq> 0 \<longrightarrow> e \<in> set p')
    \<and> (\<forall>e \<in> set p - set p'. \<forall>e' \<in> set p'. ref_count (snd e') = 0 \<longrightarrow> access_count (snd e) \<le> access_count (snd e'))
    \<and> (py_len p' \<le> max_blocks \<longleftrightarrow> int pinned \<le> max_blocks)"
proof -
  let ?k = "nat (py_len p - max_blocks)" and ?c = "evict_candidates p"
  let ?gone = "take ?k ?c"
  have n: "n = int (length ?gone)" and p': "p' = filter (\<lambda>e. e \<notin> set ?gone) p"
    using evict_cold_parts [OF assms(1,3)] assms(4) by simp_all
  have "set ?gone \<subseteq> set ?c" by (rule set_take_subset)
  then have sub: "set ?gone \<subseteq> {e \<in> set p. ref_count (snd e) = 0}" unfolding evict_candidates_set .
  have dp: "distinct p" using assms(1) by (simp add: distinct_map)
  have dg: "distinct ?gone" using distinct_candidates [OF assms(1)] by (simp add: distinct_map)
  have unp: "length ?c + pinned = length p"
    unfolding evict_candidates_length pinned_def by (rule sum_length_filter_compl)
  have "length (filter (\<lambda>e. e \<in> set ?gone) p) = length ?gone"
  proof -
    have "set (filter (\<lambda>e. e \<in> set ?gone) p) = set ?gone" using sub by auto
    then show ?thesis using distinct_card [OF distinct_filter [OF dp]] distinct_card [OF dg] by metis
  qed
  then have len: "py_len p' = py_len p - n"
    using sum_length_filter_compl [of "\<lambda>e. e \<in> set ?gone" p] unfolding p' n by linarith
  have cut: "access_count (snd e) \<le> access_count (snd e')"
    if "e \<in> set p - set p'" "e' \<in> set p'" "ref_count (snd e') = 0" for e e'
  proof (rule sorted_cut [of _ ?c _ ?k])
    show "sorted (map (\<lambda>e. access_count (snd e)) ?c)" by (simp add: evict_candidates_def)
    show "e \<in> set ?gone" using that(1) p' by simp
    have "e' \<in> set (?gone @ drop ?k ?c)" using that(2,3) p' evict_candidates_set [of p] by simp
    then show "e' \<in> set (drop ?k ?c)" using that(2) unfolding p' set_append by auto
  qed
  have n': "n = min (py_len p - max_blocks) (py_len p - int pinned)"
    using n unp assms(3) unfolding length_take by linarith
  then have "py_len p' \<le> max_blocks \<longleftrightarrow> int pinned \<le> max_blocks" using len by linarith
  then show ?thesis using n' len cut p' sub by auto
qed

definition demo_pool_block :: "nat \<Rightarrow> int \<Rightarrow> int \<Rightarrow> nat kv_block_id \<times> kv_block" where
  "demo_pool_block h r acc = (\<lparr>bid_model_id = ''m'', bid_layer_idx = 0, bid_hash = h\<rparr>,
     \<lparr>kb_data_len = 8, ref_count = r, access_count = acc\<rparr>)"

definition demo_pool :: "nat kv_pool" where
  "demo_pool = [demo_pool_block 1 0 5, demo_pool_block 2 1 1, demo_pool_block 3 0 2]"

theorem evict_cold_exact_witness:
  "\<exists>n p'. evict_cold 2 demo_pool = (n, p') \<and> n = 1 \<and> demo_pool_block 2 1 1 \<in> set p' \<and> py_len p' = 2"
proof -
  obtain n p' where e: "evict_cold 2 demo_pool = (n, p')" by fastforce
  have "distinct (dict_keys demo_pool)" by (simp add: demo_pool_def demo_pool_block_def)
  from evict_cold_exact [OF this _ _ e] show ?thesis
    using e by (simp add: demo_pool_def demo_pool_block_def)
qed

section \<open>The caches\<close>

lemma pop_oldest_bound:
  assumes "pop_oldest cap d ev = (x, d')" "0 \<le> cap"
  shows "is_ok x \<and> py_len d' \<le> cap \<and> (\<exists>k. d' = drop k d)"
  using assms
proof (induction cap d ev rule: pop_oldest.induct)
  case (2 cap e d ev)
  show ?case
  proof (cases "py_len (e # d) > cap")
    case True
    then obtain k where "is_ok x \<and> py_len d' \<le> cap \<and> d' = drop k d" using 2 by auto
    then show ?thesis by (auto intro: exI [of _ "Suc k"])
  next
    case False
    then show ?thesis using 2(2) by (auto intro: exI [of _ 0])
  qed
qed auto

lemma lru_put_bound:
  "lru_put k v c = (x, c') \<Longrightarrow> 0 \<le> capacity c \<Longrightarrow> is_ok x \<and> py_len (lru_store c') \<le> capacity c'"
  by (auto simp: lru_put_def Let_def split: prod.splits dest!: pop_oldest_bound)

text \<open>
  The tiered cache can hand out a value that was never written for its key: with room for one entry in memory,
  writing a second key demotes the first with the second's value, and reading the first key returns it.
\<close>

lemma demotion_swaps_values:
  assumes "k1 \<noteq> k2" "0 < nvme_cap"
  shows "fst (tiered_get k1 (snd (tiered_put k2 v2 False (snd (tiered_put k1 v1 False (tiered_init 1 nvme_cap)))))) = Inr (Some v2)"
  using assms
  by (simp add: tiered_get_def tiered_put_def tiered_init_def put_l1_def put_l2_def lru_put_def lru_get_def move_to_end_def Let_def)

section \<open>Routing\<close>

abbreviation fits :: "int list \<Rightarrow> bool" where
  "fits ts \<equiv> list_all (\<lambda>t. 0 \<le> t \<and> t < 2 ^ 64) ts"

definition block_name :: "(int list \<Rightarrow> 'h) \<Rightarrow> string \<Rightarrow> nat \<Rightarrow> int list \<Rightarrow> 'h kv_block_id" where
  "block_name sha model layer c = \<lparr>bid_model_id = model, bid_layer_idx = layer, bid_hash = sha c\<rparr>"

lemma chunks_fit: "fits ts \<Longrightarrow> list_all fits (chunks n ts)"
proof (induction n ts rule: chunks.induct)
  case (2 n x xs)
  have sub: "fits ys" if "set ys \<subseteq> set (x # xs)" for ys using that 2(2) unfolding list_all_iff by blast
  have "fits (take n (x # xs))" by (rule sub [OF set_take_subset])
  moreover have "set (drop (n - 1) xs) \<subseteq> set (x # xs)" using set_drop_subset [of "n - 1" xs] by auto
  then have "fits (drop (n - 1) xs)" by (rule sub)
  ultimately show ?case using 2(1) by simp
qed simp

lemma chunks_append:
  "length pre = k * n \<Longrightarrow> 0 < n \<Longrightarrow> chunks n (pre @ ts) = chunks n pre @ chunks n ts \<and> length (chunks n pre) = k"
proof (induction k arbitrary: pre)
  case (Suc k)
  then obtain x xs where pre: "pre = x # xs" by (cases pre) auto
  obtain m where n: "n = Suc m" using Suc.prems(2) by (cases n) auto
  have "length (drop m xs) = k * n" "m \<le> length xs" using Suc.prems(1) pre n by simp_all
  then show ?case using Suc.IH [of "drop m xs"] pre n by simp
qed simp

lemma layer_ids_names: "list_all fits cs \<Longrightarrow> layer_ids sha model layer cs = Some (map (block_name sha model layer) cs)"
  by (induction cs) (simp_all add: block_hash_def block_name_def)

lemma kv_get_dom: "kv_get b p = (x, p') \<Longrightarrow> dom (map_of p') = dom (map_of p) \<and> (x \<noteq> None \<longleftrightarrow> b \<in> dom (map_of p))"
  by (auto simp: kv_get_def dict_simps split: option.splits if_splits)

lemma dict_set_dom: "b \<in> dom (map_of p) \<Longrightarrow> dom (map_of (dict_set b v p)) = dom (map_of p)"
  by (auto simp: map_of_dict_set)

lemma kv_acquire_dom:
  assumes "kv_acquire b p = (x, p')"
  shows "dom (map_of p') = dom (map_of p)"
proof -
  obtain y p1 where g: "kv_get b p = (y, p1)" by (rule prod.exhaust)
  show ?thesis
  proof (cases y)
    case None
    then show ?thesis using assms g kv_get_dom [OF g] by (simp add: kv_acquire_def)
  next
    case (Some a)
    have "p' = dict_set b (a\<lparr>ref_count := ref_count a + 1\<rparr>) p1" using assms g Some by (simp add: kv_acquire_def Let_def)
    moreover have "dom (map_of p1) = dom (map_of p)" "b \<in> dom (map_of p1)" using kv_get_dom [OF g] Some by simp_all
    ultimately show ?thesis by (simp only: dict_set_dom)
  qed
qed

lemma kv_put_dom: "dom (map_of (kv_put b n p)) = insert b (dom (map_of p))"
  by (simp add: kv_put_def dict_simps)

lemma count_hits_exact:
  "count_hits ids p = (n, p') \<Longrightarrow> dom (map_of p') = dom (map_of p) \<and> n = length (filter (\<lambda>b. b \<in> dom (map_of p)) ids)"
proof (induction ids arbitrary: p n p')
  case (Cons b ids)
  obtain x p1 where g: "kv_get b p = (x, p1)" by (rule prod.exhaust)
  obtain m p2 where c: "count_hits ids p1 = (m, p2)" by (rule prod.exhaust)
  show ?case using Cons.prems Cons.IH [OF c] kv_get_dom [OF g] g c by (auto split: if_splits)
qed simp

lemma load_prefix_dom: "dom (map_of (snd (load_prefix ids p))) = dom (map_of p)"
proof (induction ids arbitrary: p)
  case (Cons b ids)
  obtain x p1 where a: "kv_acquire b p = (x, p1)" by (rule prod.exhaust)
  have "snd (load_prefix (b # ids) p) = snd (load_prefix ids p1)" using a by (simp split: prod.splits)
  then show ?case using Cons.IH [of p1] kv_acquire_dom [OF a] by simp
qed simp

lemma prefill_layer_names:
  "list_all fits cs \<Longrightarrow> \<exists>p'. prefill_layer sha model layer cs p = (Some (map (block_name sha model layer) cs), p')
    \<and> dom (map_of p') = dom (map_of p) \<union> block_name sha model layer ` set cs"
proof (induction cs arbitrary: p)
  case (Cons c cs)
  have h: "block_hash sha c = Some (sha c)" and fs: "list_all fits cs" using Cons.prems by (simp_all add: block_hash_def)
  let ?p = "kv_put (block_name sha model layer c) (length c * 8) p"
  obtain p' where "prefill_layer sha model layer cs ?p = (Some (map (block_name sha model layer) cs), p')"
    "dom (map_of p') = dom (map_of ?p) \<union> block_name sha model layer ` set cs"
    using Cons.IH [OF fs] by blast
  then show ?case using h by (auto simp: kv_put_dom block_name_def [symmetric])
qed simp

lemma prefill_layers_names:
  assumes "list_all fits cs"
  shows "\<exists>ids p'. prefill_layers sha model cs ls p = (Some ids, p')
    \<and> dom (map_of p') = dom (map_of p) \<union> (\<Union>l \<in> set ls. block_name sha model l ` set cs)"
proof (induction ls arbitrary: p)
  case (Cons l ls)
  obtain p1 where p1: "prefill_layer sha model l cs p = (Some (map (block_name sha model l) cs), p1)"
    "dom (map_of p1) = dom (map_of p) \<union> block_name sha model l ` set cs"
    using prefill_layer_names [OF assms] by blast
  obtain ids p2 where "prefill_layers sha model cs ls p1 = (Some ids, p2)"
    "dom (map_of p2) = dom (map_of p1) \<union> (\<Union>l \<in> set ls. block_name sha model l ` set cs)"
    using Cons.IH by blast
  then show ?case using p1 by auto
qed simp

text \<open>What a request finds, whatever the pool holds, and what it leaves there.\<close>

lemma route_exact:
  fixes sha :: "int list \<Rightarrow> 'h"
  assumes "rr_model_id q = model" "rr_block_size q = bs" "0 < rr_n_layers q" "fits (rr_prompt_tokens q)"
  defines "ids \<equiv> map (block_name sha model 0) (chunks bs (rr_prompt_tokens q))"
  shows "\<exists>d p'. route sha model bs q p = (Some d, p') \<and> dom (map_of p) \<subseteq> dom (map_of p') \<and> set ids \<subseteq> dom (map_of p')
    \<and> rd_reused_blocks d = py_len (filter (\<lambda>b. b \<in> dom (map_of p)) ids)
    \<and> rd_reused_blocks d + rd_prefill_blocks d = py_len ids"
proof -
  let ?cs = "chunks bs (rr_prompt_tokens q)"
  have cf: "list_all fits ?cs" by (rule chunks_fit [OF assms(4)])
  have ids: "prefix_blocks sha q = Some ids"
    unfolding prefix_blocks_def assms(1,2) ids_def by (rule layer_ids_names [OF cf])
  obtain n p1 where c: "count_hits ids p = (n, p1)" by (rule prod.exhaust)
  note n = count_hits_exact [OF c]
  have le: "n \<le> length ids" using n by simp
  show ?thesis
  proof (cases "n < length ids")
    case True
    obtain bl p2 where pf: "prefill_layers sha model ?cs [0..<rr_n_layers q] p1 = (Some bl, p2)"
      and d: "dom (map_of p2) = dom (map_of p1) \<union> (\<Union>l \<in> set [0..<rr_n_layers q]. block_name sha model l ` set ?cs)"
      using prefill_layers_names [OF cf] by blast
    have "set ids \<subseteq> dom (map_of p2)" unfolding d ids_def using assms(3) by auto
    then show ?thesis using True ids c pf n d load_prefix_dom [of ids p2] by (auto simp: route_def prefill_def)
  next
    case False
    then have f: "filter (\<lambda>b. b \<in> dom (map_of p)) ids = ids"
      using n le by (metis (no_types, lifting) filter_id_conv length_filter_less linorder_not_less)
    then have "set ids \<subseteq> dom (map_of p)" by (auto simp: filter_id_conv)
    then show ?thesis using False ids c n f load_prefix_dom [of ids p1] by (auto simp: route_def)
  qed
qed

text \<open>
  C40. A prompt that shares its first blocks with one routed before reuses at least these blocks, whatever the pool
  held; both requests succeed and every block of a prompt is either reused or computed.
\<close>

theorem shared_prefix_reused:
  assumes "rr_model_id q1 = model" "rr_block_size q1 = bs" "0 < rr_n_layers q1" "fits (rr_prompt_tokens q1)"
    and "rr_model_id q2 = model" "rr_block_size q2 = bs" "0 < rr_n_layers q2" "fits (rr_prompt_tokens q2)"
    and "0 < bs" "rr_prompt_tokens q1 = pre @ ts1" "rr_prompt_tokens q2 = pre @ ts2" "length pre = k * bs"
  shows "\<exists>d1 p1 d2 p2. route sha model bs q1 p = (Some d1, p1) \<and> route sha model bs q2 p1 = (Some d2, p2)
    \<and> int k \<le> rd_reused_blocks d2
    \<and> rd_reused_blocks d2 + rd_prefill_blocks d2 = py_len (chunks bs (rr_prompt_tokens q2))"
proof -
  let ?name = "block_name sha model 0"
  obtain d1 p1 where r1: "route sha model bs q1 p = (Some d1, p1)"
    and s1: "?name ` set (chunks bs (rr_prompt_tokens q1)) \<subseteq> dom (map_of p1)"
    using route_exact [OF assms(1-4), of sha p] by (auto simp only: set_map)
  obtain d2 p2 where r2: "route sha model bs q2 p1 = (Some d2, p2)"
    and reused: "rd_reused_blocks d2 = py_len (filter (\<lambda>b. b \<in> dom (map_of p1)) (map ?name (chunks bs (rr_prompt_tokens q2))))"
    and all_blocks: "rd_reused_blocks d2 + rd_prefill_blocks d2 = py_len (map ?name (chunks bs (rr_prompt_tokens q2)))"
    using route_exact [OF assms(5-8), of sha p1] by blast
  note ca = chunks_append [OF assms(12,9)]
  have "filter (\<lambda>b. b \<in> dom (map_of p1)) (map ?name (chunks bs pre)) = map ?name (chunks bs pre)"
    using s1 ca [of ts1] unfolding assms(10) by (auto simp: filter_id_conv)
  then have "k \<le> length (filter (\<lambda>b. b \<in> dom (map_of p1)) (map ?name (chunks bs (rr_prompt_tokens q2))))"
    using ca [of ts2] unfolding assms(11) by simp
  then show ?thesis using r1 r2 reused all_blocks by auto
qed

definition demo_prompt :: "int list \<Rightarrow> route_request" where
  "demo_prompt ts = \<lparr>rr_model_id = ''demo-llm'', rr_prompt_tokens = [0, 1, 2, 3] @ ts, rr_block_size = 2, rr_n_layers = 4\<rparr>"

theorem shared_prefix_reused_witness:
  "\<exists>d1 p1 d2 p2. route id ''demo-llm'' 2 (demo_prompt [100]) [] = (Some d1, p1)
    \<and> route id ''demo-llm'' 2 (demo_prompt [200]) p1 = (Some d2, p2)
    \<and> int 2 \<le> rd_reused_blocks d2
    \<and> rd_reused_blocks d2 + rd_prefill_blocks d2 = py_len (chunks 2 (rr_prompt_tokens (demo_prompt [200])))"
  by (rule shared_prefix_reused [where pre = "[0, 1, 2, 3]" and ?ts1.0 = "[100]" and ?ts2.0 = "[200]"])
    (simp_all add: demo_prompt_def)

end
