(* ===== verification/Spec2Isabelle.thy ===== *)
theory Spec2Isabelle
  imports Lifecycle Node_Theorems Instances Admin_Laws Mooncake_Recovery Topology_Laws Keepalive Prefetch_Laws Prefetch_Run Daemon Worker_Service Model_Runner_Steps Grpc_Agent_Laws Coldstart Prototype_Laws
begin

text \<open>
  A verification development of the lake repository: an inference worker (\<^verbatim>\<open>src/python/lake\<close>) and a manager for
  key-value cache blocks in a distributed store (\<^verbatim>\<open>src/kvcm\<close>). This theory imports the others and holds no
  definitions of its own; each theory opens with what it holds.

  \<^bold>\<open>The program.\<close> A worker process takes requests over gRPC (\<^verbatim>\<open>runtime/worker.py\<close>), queues them to one engine thread
  (\<^verbatim>\<open>runtime/worker_engine.py\<close>) and runs a scheduler (\<^verbatim>\<open>runtime/node_scheduler.py\<close>) that composes batches under a
  token budget. Around every batch the scheduler calls the storage pool through a facade (\<^verbatim>\<open>engine/pool_iface.py\<close>),
  which prepares the blocks a step reads and writes and is told when the step is done; between the two an executor
  computes the tokens. The manager is a second process: it accepts prefetch intents over gRPC
  (\<^verbatim>\<open>api/grpc_server.py\<close>), keeps them in a bounded queue with a fixed number of consumers (\<^verbatim>\<open>task_engine.py\<close>), runs
  each as a flow that copies the blocks of a prompt to an instance and polls until they are there
  (\<^verbatim>\<open>flows/prefetch.py\<close>), on top of the atomic operations of the mooncake store (\<^verbatim>\<open>backends/mooncake/backend.py\<close>).
  What it has submitted is kept in a ledger (\<^verbatim>\<open>ledger.py\<close>), from which a restarted process takes up unfinished work.

  \<^bold>\<open>Conventions.\<close> Python integers are \<open>int\<close>; numbers on the wire are \<open>32 word\<close>; times are \<open>int\<close> in the unit of the
  clock that is read. A raise is \<open>Inl\<close> of an exception, and a raising operation that has changed its state returns
  both. A dictionary is a map when only its keys matter and an association list when its order does. Objects with an
  identity are addresses into a store. Remote answers, clocks, hash functions and model execution are arguments of the
  definitions; what is assumed of them is a named hypothesis or a locale. Concurrency is explicit: an inductive step
  relation over atomic sections, or a schedule of what other coroutines do at every suspension point.

  \<^bold>\<open>The worker.\<close>
  \<^item> \<open>Lifecycle\<close>, \<open>Role\<close>, \<open>Request\<close>: \<^verbatim>\<open>runtime/lifecycle.py\<close>, \<^verbatim>\<open>role.py\<close>, \<^verbatim>\<open>req.py\<close>, \<^verbatim>\<open>prefix_hint.py\<close>,
    \<^verbatim>\<open>exec_mode.py\<close>, \<^verbatim>\<open>mode_select.py\<close>, \<^verbatim>\<open>scheduler_output.py\<close>, \<^verbatim>\<open>future_map.py\<close>.
  \<^item> \<open>Pool_Agent\<close>: the storage agent protocol (\<^verbatim>\<open>engine/agent.py\<close>) as a record of operations and its fence contract
    as the locale \<open>fenced_agent\<close>. \<open>Memory_Agent\<close> and \<open>Memory_History\<close>: the agent of \<^verbatim>\<open>agents/memory.py\<close>, which meets
    the contract, and its histories. \<open>Pool_Iface\<close>: the facade.
  \<^item> \<open>Node_Scheduler\<close>: the whole of \<^verbatim>\<open>node_scheduler.py\<close>. \<open>Node_Geometry\<close> describes what one call of \<open>schedule\<close>
    decides, \<open>Node_Invariant\<close>, \<open>Node_Steps\<close> and \<open>Node_Reach\<close> carry the invariant over every operation and history
    under the contract \<open>node_services\<close>, \<open>Node_Theorems\<close> states the results: limits and geometry of a step, quota of a
    request, tokens of the mock backend, the fence.
  \<^item> \<open>Node_Frame\<close>: what the scheduler leaves of its host's state (locale \<open>node_host\<close>). \<open>Worker_Engine\<close>, \<open>Worker_Laws\<close>,
    \<open>Worker_Theorems\<close>: the engine; every submit is held by exactly one of queue, table and caller until it is answered
    once, a stop ends the loop, and a failing step can strand one caller. \<open>Worker_Service\<close>: \<open>Generate\<close> end to end.
  \<^item> \<open>Sampling\<close>: \<^verbatim>\<open>engine/sample\<close>. \<open>Input_Batch\<close>: the static input buffers of a step (\<^verbatim>\<open>engine/input_batch.py\<close>) and
    that they hold exactly the batch. \<open>Coldstart\<close>: the loading strategies of \<^verbatim>\<open>runtime/coldstart.py\<close>.
  \<^item> \<open>Model_Runner\<close>, \<open>Model_Runner_Laws\<close>, \<open>Model_Runner_Steps\<close>: the executor (\<^verbatim>\<open>engine/model_runner.py\<close>) with attention
    metadata, registry and loaders. A step does not depend on earlier ones, every scheduled step fits the buffers, and
    scheduler and runner together decode greedily in the normal loop but not in the overlap loop.
  \<^item> \<open>Grpc_Agent\<close>, \<open>Grpc_Agent_Laws\<close>: the second storage agent (\<^verbatim>\<open>agents/grpc_skeleton.py\<close>), over two services that
    are parameters. It meets the contract \<open>fenced_agent\<close> as well, and prompts with a common prefix share its blocks.

  \<^bold>\<open>The manager.\<close>
  \<^item> \<open>Kv_Types\<close>, \<open>Py_Text\<close>: its vocabulary (\<^verbatim>\<open>ops/types.py\<close>, \<^verbatim>\<open>ops/base.py\<close>) and the string functions it uses.
  \<^item> \<open>Keys\<close>, \<open>Keys_Laws\<close>: block hashes and store keys (\<^verbatim>\<open>engines/vllm/keys.py\<close>). \<open>Topology\<close>, \<open>Topology_Laws\<close>: from
    processes and ports to the segment of a rank (\<^verbatim>\<open>engines/vllm/topology.py\<close>). \<open>Instances\<close>: \<^verbatim>\<open>instances.py\<close>.
  \<^item> \<open>Admin\<close>, \<open>Admin_Laws\<close>, \<open>Store_Client\<close>: the HTTP administration port and the store client
    (\<^verbatim>\<open>backends/mooncake/admin_main.py\<close>, \<^verbatim>\<open>client.py\<close>).
  \<^item> \<open>Ledger\<close>, \<open>Ledger_Laws\<close>: the four tables, their invariant, and the contracts \<open>keepalive_table\<close> and \<open>task_table\<close>.
  \<^item> \<open>Mooncake\<close> and \<open>Mooncake_Tasks\<close>, \<open>Mooncake_Tracking\<close>, \<open>Mooncake_Theorems\<close>, \<open>Mooncake_Recovery\<close>: the backend and
    what ledger, tracking dictionaries and store agree on, over every interleaving and across a restart.
  \<^item> \<open>Keepalive\<close>: the lease loop (\<^verbatim>\<open>loops.py\<close>). \<open>Prefetch\<close>, \<open>Prefetch_Laws\<close>, \<open>Prefetch_Run\<close>: the flow, its contract
    \<open>flow_contract\<close> interpreted on the backend, and the throttled run of one intent.
  \<^item> \<open>Task_Engine\<close>, \<open>Task_Engine_Laws\<close>: the intent queue as a step relation. \<open>Api\<close>: the gRPC service and the events.
    \<open>Daemon\<close>: assembly, start-up and the order of shutdown (\<^verbatim>\<open>daemon.py\<close>).

  \<^bold>\<open>The prototype.\<close> \<open>Prototype\<close>, \<open>Prototype_Laws\<close>: the single-process prototype of the ideas (\<^verbatim>\<open>src/src\<close>): a pool of
  blocks, a tiered cache, compute pools and a router. Eviction is exact and spares blocks in use, and routing reuses
  the blocks of a common prefix.

  \<^bold>\<open>Bounds and fuel.\<close> The event loops of the scheduler take a number of turns and answer \<open>None\<close> when it is used up; the
  properties speak of single turns and of every history of turns, so no bound is hidden in them. The drain of the result
  queue runs once per entry, because processing never adds one. The loop thread of the worker engine ends seven steps
  after a stop; seven is the length of its longest path. The polling of a prefetch and its waiting rounds run over a
  list of what happens in each round, and the liveness properties name the round that ends them. The walk over a
  process table is a total function with a measure.

  \<^bold>\<open>Not modelled.\<close>
  \<^item> The network modules and attention kernels over torch (\<^verbatim>\<open>qwen3.py\<close>, \<^verbatim>\<open>attention.py\<close>, \<^verbatim>\<open>kernels\<close>): floating point
    arithmetic of a library. The runner does not call them: it samples from a placeholder model, which is modelled.
  \<^item> Generated protocol stubs, shell scripts, and the demonstrations that drive a running cluster.
  \<^item> The router (\<^verbatim>\<open>src/go\<close>) and the storage services (\<^verbatim>\<open>src/rust\<close>): separate programs in other languages, which the
    Python packages reach only through the generated stubs and the agent protocol.
  \<^item> Argument parsing, logging, signal handlers and the wiring of channels and servers.
  \<^item> The benchmarks (\<^verbatim>\<open>runtime/bench.py\<close>, \<^verbatim>\<open>src/bench/cost_model.py\<close>): timing probes and floating point tables.
\<close>

end
